theory Spec2Isabelle
  imports Main "HOL-Library.Word"
begin

section \<open>JavaScript values the code depends on\<close>

text \<open>
  Reading \<^verbatim>\<open>xs[i]\<close> outside the array (also at a negative index) yields
  \<^verbatim>\<open>undefined\<close>, here \<^term>\<open>None\<close>. The arrays of secrets are built by
  \<^verbatim>\<open>Array.from(...).map(...)\<close> and have no holes.
\<close>

definition js_index :: "'a list \<Rightarrow> int \<Rightarrow> 'a option" where
  "js_index xs i = (if 0 \<le> i \<and> i < int (length xs) then Some (xs ! nat i) else None)"

text \<open>Truthiness of a value that is a string or \<^verbatim>\<open>undefined\<close>: the empty string is falsy.\<close>

definition truthy :: "string option \<Rightarrow> bool" where
  "truthy v = (case v of None \<Rightarrow> False | Some s \<Rightarrow> s \<noteq> [])"

text \<open>
  What a \<^verbatim>\<open>throw\<close> or a rejected promise carries. \<^verbatim>\<open>response?.data\<close> is kept when it
  is truthy: either \<^verbatim>\<open>JSON.stringify\<close> renders it, or \<^verbatim>\<open>JSON.stringify\<close> itself throws
  a \<^verbatim>\<open>TypeError\<close> with the given message (a cyclic object, a BigInt).
\<close>

datatype resp_data = Json string | Unserialisable string

datatype thrown =
    Error_obj string "resp_data option"
  | Non_error "resp_data option"
  | Thrown_null
  | Thrown_undefined

section \<open>Secret generation\<close>

text \<open>
  The secrets of a swap are produced in three places that share one body:
  \<^verbatim>\<open>SecretManager.generateSecret(s)\<close> (utils/secret-manager.ts), \<^verbatim>\<open>getSecret\<close> /
  \<^verbatim>\<open>generateSecrets\<close> of the two command-line scripts, and the inline expression of
  \<^verbatim>\<open>FusionService.executeSwap\<close>:
  \<^verbatim>\<open>add0x(randomBytes(32).toString('hex'))\<close>, mapped over \<^verbatim>\<open>Array.from({ length: count })\<close>.

  Node's \<^verbatim>\<open>randomBytes\<close> is an effect. It is modelled by explicit state passing: the
  entropy source is an unbounded tape of bytes and a read position, and
  \<^verbatim>\<open>randomBytes(n)\<close> returns the next \<open>n\<close> bytes of the tape and advances the position.
  Two calls therefore never read the same cell of the tape.
\<close>

type_synonym byte = "8 word"

record entropy =
  tape :: "nat \<Rightarrow> byte"
  pos :: nat

definition randomBytes :: "nat \<Rightarrow> entropy \<Rightarrow> byte list \<times> entropy" where
  "randomBytes n r = (map (tape r) [pos r ..< pos r + n], r\<lparr>pos := pos r + n\<rparr>)"

text \<open>\<^verbatim>\<open>Buffer.toString('hex')\<close>: two lowercase digits per byte, high nibble first.\<close>

definition hex_digits :: string where
  "hex_digits = ''0123456789abcdef''"

definition hex_digit :: "nat \<Rightarrow> char" where
  "hex_digit d = hex_digits ! d"

definition byte_hex :: "byte \<Rightarrow> string" where
  "byte_hex b = [hex_digit (unat b div 16), hex_digit (unat b mod 16)]"

definition toString_hex :: "byte list \<Rightarrow> string" where
  "toString_hex bs = concat (map byte_hex bs)"

text \<open>
  Modelled from the spec: \<^verbatim>\<open>add0x\<close> is imported from the package \<^verbatim>\<open>@1inch/byte-utils\<close>,
  whose code is not part of the repository. It puts the prefix \<^verbatim>\<open>0x\<close> in front of a
  string that does not carry it yet. The strings it is given here consist of hex digits,
  so whether the package looks for \<^verbatim>\<open>0x\<close> at the start or anywhere makes no difference.
\<close>

definition add0x :: "string \<Rightarrow> string" where
  "add0x data = (if take 2 data = ''0x'' then data else ''0x'' @ data)"

text \<open>
  \<^verbatim>\<open>Array.from({ length: count })\<close> makes an array of \<^verbatim>\<open>ToLength(count)\<close> elements, so a
  negative \<^verbatim>\<open>count\<close> gives the empty array (what \<^term>\<open>nat\<close> does). An array cannot be
  longer than \<open>2\<^sup>3\<^sup>2 - 1\<close>: for a larger \<^verbatim>\<open>count\<close> the call throws
  \<^verbatim>\<open>RangeError: Invalid array length\<close>.
\<close>

definition array_from_length :: "int \<Rightarrow> thrown + nat" where
  "array_from_length count =
     (if count > 4294967295 then Inl (Error_obj ''Invalid array length'' None)
      else Inr (nat count))"

text \<open>
  \<^verbatim>\<open>.map(f)\<close> on that array calls \<open>f\<close> once per index, in index order; the effect of
  each call is threaded into the next.
\<close>

fun array_from_map :: "nat \<Rightarrow> ('s \<Rightarrow> 'a \<times> 's) \<Rightarrow> 's \<Rightarrow> 'a list \<times> 's" where
  "array_from_map 0 f s = ([], s)"
| "array_from_map (Suc n) f s =
     (let (x, s') = f s; (xs, s'') = array_from_map n f s' in (x # xs, s''))"

text \<open>utils/secret-manager.ts, \<^verbatim>\<open>SecretManager.generateSecret\<close> and \<^verbatim>\<open>generateSecrets\<close>.\<close>

definition generateSecret :: "entropy \<Rightarrow> string \<times> entropy" where
  "generateSecret r = (let (bs, r') = randomBytes 32 r in (add0x (toString_hex bs), r'))"

definition SecretManager_generateSecrets :: "int \<Rightarrow> entropy \<Rightarrow> (thrown + string list) \<times> entropy" where
  "SecretManager_generateSecrets count r =
     (case array_from_length count of
        Inl t \<Rightarrow> (Inl t, r)
      | Inr n \<Rightarrow> (case array_from_map n generateSecret r of (secrets, r') \<Rightarrow> (Inr secrets, r')))"

text \<open>The command-line scripts (both carry the same two functions).\<close>

definition getSecret :: "entropy \<Rightarrow> string \<times> entropy" where
  "getSecret r = (let (bs, r') = randomBytes 32 r in (add0x (toString_hex bs), r'))"

definition generateSecrets :: "int \<Rightarrow> entropy \<Rightarrow> (thrown + string list) \<times> entropy" where
  "generateSecrets count r =
     (case array_from_length count of
        Inl t \<Rightarrow> (Inl t, r)
      | Inr n \<Rightarrow> (case array_from_map n getSecret r of (secrets, r') \<Rightarrow> (Inr secrets, r')))"

text \<open>The secret that the \<open>i\<close>-th draw from entropy \<open>r\<close> yields.\<close>

definition secret_at :: "entropy \<Rightarrow> nat \<Rightarrow> string" where
  "secret_at r i = ''0x'' @ toString_hex (map (tape r) [pos r + 32 * i ..< pos r + 32 * i + 32])"


section \<open>Hash-lock selection\<close>

text \<open>
  The class \<^verbatim>\<open>HashLock\<close> belongs to the package \<^verbatim>\<open>@1inch/cross-chain-sdk\<close>; the
  repository only calls its static functions. They are parameters of the model:
  uninterpreted functions of their arguments, giving the value a call returns. That a call
  may throw instead is accounted for where orders are built (\<open>hashLock_throws\<close> below). A hash and a Merkle leaf are hex strings in
  the SDK; the hash-lock itself stays an abstract type. \<^verbatim>\<open>forSingleFill\<close> receives
  \<^verbatim>\<open>secrets[0]\<close>, which is \<^verbatim>\<open>undefined\<close> for an empty array.
\<close>

record 'hl HashLock =
  hashSecret :: "string \<Rightarrow> string"
  getMerkleLeaves :: "string list \<Rightarrow> string list"
  forSingleFill :: "string option \<Rightarrow> 'hl"
  forMultipleFills :: "string list \<Rightarrow> 'hl"

text \<open>utils/secret-manager.ts, \<^verbatim>\<open>SecretManager.createHashLock\<close>.\<close>

definition SecretManager_createHashLock :: "'hl HashLock \<Rightarrow> string list \<Rightarrow> 'hl" where
  "SecretManager_createHashLock H secrets =
     (let leaves = getMerkleLeaves H secrets
      in if length secrets > 1 then forMultipleFills H leaves
         else forSingleFill H (js_index secrets 0))"

text \<open>\<^verbatim>\<open>createHashLock\<close> of the two command-line scripts.\<close>

definition createHashLock :: "'hl HashLock \<Rightarrow> string list \<Rightarrow> 'hl" where
  "createHashLock H secrets =
     (let leaves = getMerkleLeaves H secrets
      in if length secrets > 1 then forMultipleFills H leaves
         else forSingleFill H (js_index secrets 0))"

text \<open>services/fusion-service.ts, the inline construction of \<^verbatim>\<open>executeSwap\<close>.\<close>

definition executeSwap_hashLock :: "'hl HashLock \<Rightarrow> string list \<Rightarrow> 'hl" where
  "executeSwap_hashLock H secrets =
     (if length secrets = 1 then forSingleFill H (js_index secrets 0)
      else forMultipleFills H (getMerkleLeaves H secrets))"

text \<open>A concrete instance of the parameters, for evaluating the model.\<close>

definition demo_HashLock :: "string HashLock" where
  "demo_HashLock =
     \<lparr> hashSecret = (\<lambda>s. ''H('' @ s @ '')''),
       getMerkleLeaves = map (\<lambda>s. ''L('' @ s @ '')''),
       forSingleFill = (\<lambda>v. case v of None \<Rightarrow> ''single(undefined)'' | Some s \<Rightarrow> ''single('' @ s @ '')''),
       forMultipleFills = (\<lambda>ls. ''multi('' @ concat ls @ '')'') \<rparr>"

definition demo_entropy :: entropy where
  "demo_entropy = \<lparr> tape = (\<lambda>i. of_nat (7 * i + 3)), pos = 5 \<rparr>"

section \<open>The relayer, the clock and the record of a run\<close>

text \<open>
  JSON values as a request body or a configuration carries them. A number is modelled by
  an integer; \<open>JObj\<close> stands for any object or array (always truthy).
\<close>

datatype json = JNull | JBool bool | JNum int | JStr string | JObj

text \<open>\<^verbatim>\<open>!v\<close> for a value that may be \<^verbatim>\<open>undefined\<close> (\<^term>\<open>None\<close>).\<close>

fun falsy :: "json option \<Rightarrow> bool" where
  "falsy None = True"
| "falsy (Some JNull) = True"
| "falsy (Some (JBool b)) = (\<not> b)"
| "falsy (Some (JNum n)) = (n = 0)"
| "falsy (Some (JStr s)) = (s = [])"
| "falsy (Some JObj) = False"

record quote_request =
  qr_amount :: "json option"
  qr_srcChainId :: "json option"
  qr_dstChainId :: "json option"
  qr_srcTokenAddress :: "json option"
  qr_dstTokenAddress :: "json option"
  qr_walletAddress :: "json option"

text \<open>
  The record of a run keeps every call that reaches the relayer. A \<open>secret_call\<close> is one
  call \<^verbatim>\<open>submitSecret(orderHash, secret)\<close>: the order hash and the secret passed, the fill
  index the caller was serving, and whether the call resolved (\<open>sc_ok\<close>) or rejected.
  An \<open>order_call\<close> is one call of \<^verbatim>\<open>submitOrder\<close> or \<^verbatim>\<open>announceOrder\<close>.
\<close>

record secret_call =
  sc_order :: string
  sc_idx :: int
  sc_secret :: "string option"
  sc_ok :: bool

record 'o order_call =
  oc_order :: 'o
  oc_quoteId :: string
  oc_secretHashes :: "string list"

text \<open>
  The state of the world a program runs in: the hidden state \<open>sdk\<close> of the relayer and
  the chains behind the SDK, the wall clock in milliseconds, the entropy source, and the
  record of the calls made so far.
\<close>

record ('e, 'o) world =
  sdk :: 'e
  clock :: nat
  rng :: entropy
  quote_calls :: "quote_request list"
  order_calls :: "'o order_call list"
  secret_calls :: "secret_call list"

text \<open>
  The SDK's network calls used while monitoring, as transitions of the hidden state. Each
  call resolves (\<open>Inr\<close>) or rejects (\<open>Inl\<close>). \<^verbatim>\<open>getOrderStatus\<close> resolves to the
  \<^verbatim>\<open>status\<close> field of the answer, \<^verbatim>\<open>getReadyToAcceptSecretFills\<close> to the \<^verbatim>\<open>idx\<close> fields
  of \<^verbatim>\<open>fills\<close> (\<^term>\<open>None\<close> when \<^verbatim>\<open>fills\<close> is absent). An answer that is itself
  \<^verbatim>\<open>undefined\<close> makes the property access throw inside the same \<^verbatim>\<open>try\<close> block as the
  call, so it is counted as a rejection. \<open>latency\<close> is the time in milliseconds that the
  call leading to a state took. \<open>new_signer\<close> stands for the constructors run by
  \<^verbatim>\<open>getSDKWithSigner\<close> (private key, API key, chain), which may throw.
\<close>

record 'e relayer =
  sdk_getOrderStatus :: "string \<Rightarrow> 'e \<Rightarrow> (thrown + string) \<times> 'e"
  sdk_getReadyToAcceptSecretFills :: "string \<Rightarrow> 'e \<Rightarrow> (thrown + int list option) \<times> 'e"
  sdk_submitSecret :: "string \<Rightarrow> string option \<Rightarrow> 'e \<Rightarrow> (thrown + unit) \<times> 'e"
  latency :: "'e \<Rightarrow> nat"
  new_signer :: "string \<Rightarrow> string \<Rightarrow> json option \<Rightarrow> thrown option"

text \<open>
  \<^verbatim>\<open>await\<close> of an SDK call and \<^verbatim>\<open>await setTimeout(ms)\<close>. Time only moves forward: a
  call takes its latency, a timer at least its delay (taken as exactly its delay).
\<close>

definition await :: "'e relayer \<Rightarrow> ('e \<Rightarrow> 'r \<times> 'e) \<Rightarrow> ('e, 'o) world \<Rightarrow> 'r \<times> ('e, 'o) world" where
  "await R call w =
     (let (r, e') = call (sdk w) in (r, w\<lparr>sdk := e', clock := clock w + latency R e'\<rparr>))"

definition sleep :: "nat \<Rightarrow> ('e, 'o) world \<Rightarrow> ('e, 'o) world" where
  "sleep ms w = w\<lparr>clock := clock w + ms\<rparr>"

definition submitSecret ::
  "'e relayer \<Rightarrow> string \<Rightarrow> int \<Rightarrow> string option \<Rightarrow> ('e, 'o) world \<Rightarrow> (thrown + unit) \<times> ('e, 'o) world" where
  "submitSecret R orderHash idx secret w =
     (let (r, w') = await R (sdk_submitSecret R orderHash secret) w
      in (r, w'\<lparr>secret_calls := secret_calls w' @
                 [\<lparr>sc_order = orderHash, sc_idx = idx, sc_secret = secret, sc_ok = (\<not> isl r)\<rparr>]\<rparr>))"

section \<open>services/fusion-service.ts: monitorAndCompleteSwap\<close>

type_synonym process_env = "string \<Rightarrow> string option"

text \<open>\<^verbatim>\<open>!process.env[key]\<close>: the variable is unset or empty.\<close>

definition env_missing :: "process_env \<Rightarrow> string \<Rightarrow> bool" where
  "env_missing penv key = (case penv key of None \<Rightarrow> True | Some v \<Rightarrow> v = [])"

definition getSDKWithSigner :: "'e relayer \<Rightarrow> process_env \<Rightarrow> json option \<Rightarrow> thrown + unit" where
  "getSDKWithSigner R penv chainId =
     (if env_missing penv ''TEST_PRIVATE_KEY'' \<or> env_missing penv ''INCH_API_KEY''
      then Inl (Error_obj ''TEST_PRIVATE_KEY and INCH_API_KEY required for order submission'' None)
      else (case new_signer R (the (penv ''TEST_PRIVATE_KEY'')) (the (penv ''INCH_API_KEY'')) chainId of
              Some t \<Rightarrow> Inl t
            | None \<Rightarrow> Inr ()))"

datatype monitor_result = Completed string | Failed string

definition maxWaitTime :: nat where
  "maxWaitTime = 10 * 60 * 1000"

text \<open>The \<^verbatim>\<open>for (const fill of readyForSecrets.fills)\<close> loop; \<open>sub\<close> is \<^verbatim>\<open>submittedSecrets\<close>.\<close>

fun monitorAndCompleteSwap_fills ::
  "'e relayer \<Rightarrow> string \<Rightarrow> string list \<Rightarrow> int list \<Rightarrow> int set \<Rightarrow> ('e, 'o) world
     \<Rightarrow> int set \<times> ('e, 'o) world" where
  "monitorAndCompleteSwap_fills R orderHash secrets [] sub w = (sub, w)"
| "monitorAndCompleteSwap_fills R orderHash secrets (idx # fills) sub w =
     (if idx \<notin> sub \<and> truthy (js_index secrets idx) then
        (case submitSecret R orderHash idx (js_index secrets idx) w of
           (Inr _, w') \<Rightarrow> monitorAndCompleteSwap_fills R orderHash secrets fills (insert idx sub) w'
         | (Inl _, w') \<Rightarrow> monitorAndCompleteSwap_fills R orderHash secrets fills sub w')
      else monitorAndCompleteSwap_fills R orderHash secrets fills sub w)"

text \<open>
  One pass through the body of a monitoring loop either returns from the function or goes
  on to the next test of the loop condition, with the set of served indices it has then.
\<close>

datatype 'r pass = Return 'r | Next "int set"

text \<open>
  The body of \<^verbatim>\<open>while (Date.now() - startTime < maxWaitTime)\<close>: the inner \<^verbatim>\<open>try\<close> and
  its \<^verbatim>\<open>catch (monitorError)\<close>. Both ways through a pass that does not return end in
  \<^verbatim>\<open>setTimeout(resolve, 5000)\<close>.
\<close>

definition monitorAndCompleteSwap_pass ::
  "'e relayer \<Rightarrow> string \<Rightarrow> string list \<Rightarrow> int set \<Rightarrow> ('e, 'o) world
     \<Rightarrow> monitor_result pass \<times> ('e, 'o) world" where
  "monitorAndCompleteSwap_pass R orderHash secrets sub w =
     (case await R (sdk_getOrderStatus R orderHash) w of
        (Inl monitorError, w1) \<Rightarrow> (Next sub, sleep 5000 w1)
      | (Inr status, w1) \<Rightarrow>
          if status = ''executed'' then (Return (Completed status), w1)
          else
            (case await R (sdk_getReadyToAcceptSecretFills R orderHash) w1 of
               (Inl monitorError, w2) \<Rightarrow> (Next sub, sleep 5000 w2)
             | (Inr readyForSecrets, w2) \<Rightarrow>
                 (case (case readyForSecrets of
                          None \<Rightarrow> (sub, w2)
                        | Some fills \<Rightarrow>
                            if length fills > 0
                            then monitorAndCompleteSwap_fills R orderHash secrets fills sub w2
                            else (sub, w2)) of
                    (sub', w3) \<Rightarrow> (Next sub', sleep 5000 w3))))"

text \<open>
  The loop. The result is \<open>Inr\<close> for the \<^verbatim>\<open>return\<close> inside the loop and \<open>Inl\<close> for the
  \<^verbatim>\<open>throw new Error('Monitoring timed out after 10 minutes')\<close> after it.
\<close>

function monitorAndCompleteSwap_loop ::
  "'e relayer \<Rightarrow> string \<Rightarrow> string list \<Rightarrow> nat \<Rightarrow> int set \<Rightarrow> ('e, 'o) world
     \<Rightarrow> (thrown + monitor_result) \<times> ('e, 'o) world" where
  "monitorAndCompleteSwap_loop R orderHash secrets startTime sub w =
     (if clock w - startTime < maxWaitTime then
        (case monitorAndCompleteSwap_pass R orderHash secrets sub w of
           (Return result, w') \<Rightarrow> (Inr result, w')
         | (Next sub', w') \<Rightarrow> monitorAndCompleteSwap_loop R orderHash secrets startTime sub' w')
      else (Inl (Error_obj ''Monitoring timed out after 10 minutes'' None), w))"
  by pat_completeness auto
termination
proof -
  have aw: "clock w \<le> clock w'" if "await R c w = (r, w')"
    for R :: "'e relayer" and c :: "'e \<Rightarrow> 'r \<times> 'e" and w w' :: "('e, 'o) world" and r
    using that by (auto simp: await_def split: prod.splits)
  have fl: "clock w \<le> clock w'" if "monitorAndCompleteSwap_fills R h s fills sub w = (sub', w')"
    for R :: "'e relayer" and h s fills sub sub' and w w' :: "('e, 'o) world"
    using that
  proof (induction fills arbitrary: sub w)
    case Nil
    then show ?case by simp
  next
    case (Cons idx fills)
    show ?case
    proof (cases "idx \<notin> sub \<and> truthy (js_index s idx)")
      case False
      with Cons show ?thesis by auto
    next
      case True
      obtain r w1 where c: "submitSecret R h idx (js_index s idx) w = (r, w1)" by fastforce
      then have "clock w \<le> clock w1"
        by (auto simp: submitSecret_def await_def split: prod.splits)
      moreover have "clock w1 \<le> clock w'"
        using Cons.prems True c Cons.IH [of _ w1] by (cases r) auto
      ultimately show ?thesis by simp
    qed
  qed
  have pass: "clock w + 5000 \<le> clock w'"
    if "(Next sub', w') = monitorAndCompleteSwap_pass R h s sub w"
    for R :: "'e relayer" and h s sub sub' and w w' :: "('e, 'o) world"
    using that [symmetric]
    by (auto simp: monitorAndCompleteSwap_pass_def sleep_def
        split: prod.splits sum.splits if_splits option.splits dest!: aw fl)
  show ?thesis
    by (relation "measure (\<lambda>(R, orderHash, secrets, startTime, sub, w).
          startTime + maxWaitTime - clock w)")
       (auto simp: maxWaitTime_def dest!: pass)
qed

declare monitorAndCompleteSwap_loop.simps [simp del]

text \<open>
  \<^verbatim>\<open>monitorAndCompleteSwap\<close>: the outer \<^verbatim>\<open>try\<close> turns every throw into the object with
  status \<^verbatim>\<open>failed\<close>; \<^verbatim>\<open>error instanceof Error ? error.message : ...\<close>.
\<close>

definition monitorAndCompleteSwap ::
  "'e relayer \<Rightarrow> process_env \<Rightarrow> string \<Rightarrow> string list \<Rightarrow> json option \<Rightarrow> ('e, 'o) world
     \<Rightarrow> monitor_result \<times> ('e, 'o) world" where
  "monitorAndCompleteSwap R penv orderHash secrets srcChainId w =
     (case (case getSDKWithSigner R penv srcChainId of
              Inl t \<Rightarrow> (Inl t, w)
            | Inr _ \<Rightarrow> monitorAndCompleteSwap_loop R orderHash secrets (clock w) {} w) of
        (Inr result, w') \<Rightarrow> (result, w')
      | (Inl (Error_obj msg _), w') \<Rightarrow> (Failed msg, w')
      | (Inl _, w') \<Rightarrow> (Failed ''Unknown monitoring error'', w'))"

section \<open>The command-line scripts: monitorAndSubmitSecrets\<close>

definition pollInterval :: nat where
  "pollInterval = 5000"

text \<open>
  The \<^verbatim>\<open>for (const idx of idxes)\<close> loop, the same text in both scripts; \<open>shared\<close> is
  \<^verbatim>\<open>alreadyShared\<close>. The secret passed is \<^verbatim>\<open>secrets[idx]\<close> whatever it is.
\<close>

fun monitorAndSubmitSecrets_fills ::
  "'e relayer \<Rightarrow> string \<Rightarrow> string list \<Rightarrow> int list \<Rightarrow> int set \<Rightarrow> ('e, 'o) world
     \<Rightarrow> int set \<times> ('e, 'o) world" where
  "monitorAndSubmitSecrets_fills R orderHash secrets [] shared w = (shared, w)"
| "monitorAndSubmitSecrets_fills R orderHash secrets (idx # idxes) shared w =
     (if idx \<notin> shared then
        (case submitSecret R orderHash idx (js_index secrets idx) w of
           (Inr _, w') \<Rightarrow> monitorAndSubmitSecrets_fills R orderHash secrets idxes (insert idx shared) w'
         | (Inl _, w') \<Rightarrow> monitorAndSubmitSecrets_fills R orderHash secrets idxes shared w')
      else monitorAndSubmitSecrets_fills R orderHash secrets idxes shared w)"

text \<open>
  src/unnamed/part_000 (Ethereum to Solana), the body of \<^verbatim>\<open>while (true)\<close>. A rejected
  \<^verbatim>\<open>getOrderStatus\<close> is caught and the pass goes on to the fills. \<^verbatim>\<open>fills.map\<close> on an
  absent \<^verbatim>\<open>fills\<close> throws into the second \<^verbatim>\<open>catch\<close>, like a rejection.
\<close>

definition EvmToSol_monitor_pass ::
  "'e relayer \<Rightarrow> string \<Rightarrow> string list \<Rightarrow> int set \<Rightarrow> ('e, 'o) world
     \<Rightarrow> unit pass \<times> ('e, 'o) world" where
  "EvmToSol_monitor_pass R orderHash secrets shared w =
     (case await R (sdk_getOrderStatus R orderHash) w of
        (order, w1) \<Rightarrow>
          if order = Inr ''executed'' then (Return (), w1)
          else
            (case await R (sdk_getReadyToAcceptSecretFills R orderHash) w1 of
               (Inr (Some idxes), w2) \<Rightarrow>
                 (case monitorAndSubmitSecrets_fills R orderHash secrets idxes shared w2 of
                    (shared', w3) \<Rightarrow> (Next shared', sleep pollInterval w3))
             | (_, w2) \<Rightarrow> (Next shared, sleep pollInterval w2)))"

text \<open>
  The loop has no bound of its own, so the model takes fuel: the number of passes it may
  still start. The result \<^term>\<open>None\<close> says that the loop is still running when the fuel
  is used up; the world returned is the one reached by then.
\<close>

fun EvmToSol_monitor_loop ::
  "nat \<Rightarrow> 'e relayer \<Rightarrow> string \<Rightarrow> string list \<Rightarrow> int set \<Rightarrow> ('e, 'o) world
     \<Rightarrow> unit option \<times> ('e, 'o) world" where
  "EvmToSol_monitor_loop 0 R orderHash secrets shared w = (None, w)"
| "EvmToSol_monitor_loop (Suc fuel) R orderHash secrets shared w =
     (case EvmToSol_monitor_pass R orderHash secrets shared w of
        (Return u, w') \<Rightarrow> (Some u, w')
      | (Next shared', w') \<Rightarrow> EvmToSol_monitor_loop fuel R orderHash secrets shared' w')"

definition EvmToSol_monitorAndSubmitSecrets ::
  "nat \<Rightarrow> 'e relayer \<Rightarrow> string \<Rightarrow> string list \<Rightarrow> ('e, 'o) world \<Rightarrow> unit option \<times> ('e, 'o) world" where
  "EvmToSol_monitorAndSubmitSecrets fuel R orderHash secrets w =
     EvmToSol_monitor_loop fuel R orderHash secrets {} w"

text \<open>
  sol-to-evm.ts (Solana to Ethereum): \<^verbatim>\<open>while (attempts < maxAttempts)\<close>, with the two
  further terminal states. All three ways out return \<^verbatim>\<open>undefined\<close>; the model tells
  them apart. Every pass that does not return ends in \<^verbatim>\<open>attempts++\<close>.
\<close>

datatype monitor_exit = Order_complete | Order_ended string | Timeout_reached

definition maxAttempts :: nat where
  "maxAttempts = 120"

definition SolToEvm_monitor_pass ::
  "'e relayer \<Rightarrow> string \<Rightarrow> string list \<Rightarrow> int set \<Rightarrow> ('e, 'o) world
     \<Rightarrow> monitor_exit pass \<times> ('e, 'o) world" where
  "SolToEvm_monitor_pass R orderHash secrets shared w =
     (case await R (sdk_getOrderStatus R orderHash) w of
        (order, w1) \<Rightarrow>
          if order = Inr ''executed'' then (Return Order_complete, w1)
          else if order = Inr ''expired'' \<or> order = Inr ''cancelled''
          then (Return (Order_ended (projr order)), w1)
          else
            (case await R (sdk_getReadyToAcceptSecretFills R orderHash) w1 of
               (Inl err, w2) \<Rightarrow> (Next shared, sleep pollInterval w2)
             | (Inr fills, w2) \<Rightarrow>
                 (case (case fills of
                          None \<Rightarrow> (shared, w2)
                        | Some idxes \<Rightarrow>
                            if length idxes > 0
                            then monitorAndSubmitSecrets_fills R orderHash secrets idxes shared w2
                            else (shared, w2)) of
                    (shared', w3) \<Rightarrow> (Next shared', sleep pollInterval w3))))"

function SolToEvm_monitor_loop ::
  "'e relayer \<Rightarrow> string \<Rightarrow> string list \<Rightarrow> nat \<Rightarrow> int set \<Rightarrow> ('e, 'o) world
     \<Rightarrow> monitor_exit \<times> ('e, 'o) world" where
  "SolToEvm_monitor_loop R orderHash secrets attempts shared w =
     (if attempts < maxAttempts then
        (case SolToEvm_monitor_pass R orderHash secrets shared w of
           (Return exit, w') \<Rightarrow> (exit, w')
         | (Next shared', w') \<Rightarrow>
             SolToEvm_monitor_loop R orderHash secrets (attempts + 1) shared' w')
      else (Timeout_reached, w))"
  by pat_completeness auto
termination
  by (relation "measure (\<lambda>(R, orderHash, secrets, attempts, shared, w). maxAttempts - attempts)") auto

declare SolToEvm_monitor_loop.simps [simp del]

definition SolToEvm_monitorAndSubmitSecrets ::
  "'e relayer \<Rightarrow> string \<Rightarrow> string list \<Rightarrow> ('e, 'o) world \<Rightarrow> monitor_exit \<times> ('e, 'o) world" where
  "SolToEvm_monitorAndSubmitSecrets R orderHash secrets w =
     SolToEvm_monitor_loop R orderHash secrets 0 {} (sleep pollInterval w)"

section \<open>What a record of secret calls may look like\<close>

text \<open>Every call passed the element of \<open>secrets\<close> at the index it served.\<close>

definition reveals_own_secret :: "string list \<Rightarrow> secret_call list \<Rightarrow> bool" where
  "reveals_own_secret secrets cs = list_all (\<lambda>c. sc_secret c = js_index secrets (sc_idx c)) cs"

text \<open>No call for an index comes after a call for that index that resolved.\<close>

fun once_per_index :: "secret_call list \<Rightarrow> bool" where
  "once_per_index [] = True"
| "once_per_index (c # cs) =
     ((if sc_ok c then list_all (\<lambda>d. sc_idx d \<noteq> sc_idx c) cs else True) \<and> once_per_index cs)"

text \<open>Every index that was served with success is in the set the loop keeps.\<close>

definition served_in :: "int set \<Rightarrow> secret_call list \<Rightarrow> bool" where
  "served_in shared cs = list_all (\<lambda>c. if sc_ok c then sc_idx c \<in> shared else True) cs"

definition reveal_inv :: "string list \<Rightarrow> int set \<Rightarrow> secret_call list \<Rightarrow> bool" where
  "reveal_inv secrets shared cs =
     (reveals_own_secret secrets cs \<and> once_per_index cs \<and> served_in shared cs)"

section \<open>A concrete relayer, for evaluating the model\<close>

text \<open>
  The hidden state counts the calls. The order is pending for the first six calls and
  executed afterwards; fills 0, 1, 0 and 7 are always reported ready; the call number 2
  (the first secret submitted) is rejected, every other submission is accepted.
\<close>

definition demo_relayer :: "nat relayer" where
  "demo_relayer =
     \<lparr> sdk_getOrderStatus = (\<lambda>h n. (if 6 \<le> n then Inr ''executed'' else Inr ''pending'', n + 1)),
       sdk_getReadyToAcceptSecretFills = (\<lambda>h n. (Inr (Some [0, 1, 0, 7]), n + 1)),
       sdk_submitSecret = (\<lambda>h s n. (if n = 2 then Inl (Error_obj ''relayer busy'' None) else Inr (), n + 1)),
       latency = (\<lambda>n. 10),
       new_signer = (\<lambda>key apiKey chain. None) \<rparr>"

definition demo_world :: "(nat, string) world" where
  "demo_world = \<lparr> sdk = 0, clock = 1000, rng = demo_entropy,
                  quote_calls = [], order_calls = [], secret_calls = [] \<rparr>"

definition demo_process_env :: process_env where
  "demo_process_env = [''TEST_PRIVATE_KEY'' \<mapsto> ''0x01'', ''INCH_API_KEY'' \<mapsto> ''key'']"

text \<open>
  A relayer whose order never changes: every status query answers \<open>status\<close>, no fill is
  ever ready. With \<^verbatim>\<open>'expired'\<close> this is an order that ran out without being filled.
\<close>

definition stalled_relayer :: "string \<Rightarrow> unit relayer" where
  "stalled_relayer status =
     \<lparr> sdk_getOrderStatus = (\<lambda>h e. (Inr status, e)),
       sdk_getReadyToAcceptSecretFills = (\<lambda>h e. (Inr (Some []), e)),
       sdk_submitSecret = (\<lambda>h s e. (Inr (), e)),
       latency = (\<lambda>e. 0),
       new_signer = (\<lambda>key apiKey chain. None) \<rparr>"

section \<open>Quotes and orders\<close>

text \<open>
  The rest of the SDK as the repository uses it. \<open>'q\<close> is a quote, \<open>'o\<close> an order, \<open>'hl\<close> a
  hash-lock. \<^verbatim>\<open>getQuote\<close>, \<^verbatim>\<open>submitOrder\<close> and \<^verbatim>\<open>announceOrder\<close> are network calls
  (transitions of the hidden state that resolve or reject); \<^verbatim>\<open>submitOrder\<close> resolves to
  the \<^verbatim>\<open>orderHash\<close> field of its answer. The methods of a quote and the address parsers run
  locally and may throw. \<open>quote_getPreset\<close> gives \<^verbatim>\<open>quote.getPreset(p).secretsCount\<close>.
  \<open>solana_sendOrder\<close> stands for the steps of sol-to-evm.ts after the announcement
  (building the instruction, decoding the key, \<^verbatim>\<open>sendTransaction\<close>). The static functions
  of \<^verbatim>\<open>HashLock\<close> may throw on arguments they reject: \<open>hashLock_throws secrets\<close> says
  whether, and with what, the calls \<^verbatim>\<open>secrets.map(HashLock.hashSecret)\<close> and the hash-lock
  construction that follows them throw (nothing else happens between them). \<open>sdk_import\<close> is the
  dynamic \<^verbatim>\<open>import("@1inch/cross-chain-sdk")\<close> together with the constructors run right
  after it.
\<close>

datatype receiver = SolanaAddress string | EvmAddress string

record ('e, 'q, 'o, 'hl) trader =
  sdk_getQuote :: "quote_request \<Rightarrow> 'e \<Rightarrow> (thrown + 'q) \<times> 'e"
  sdk_submitOrder :: "json option \<Rightarrow> 'o \<Rightarrow> string \<Rightarrow> string list \<Rightarrow> 'e \<Rightarrow> (thrown + string) \<times> 'e"
  sdk_announceOrder :: "'o \<Rightarrow> string \<Rightarrow> string list \<Rightarrow> 'e \<Rightarrow> (thrown + string) \<times> 'e"
  solana_sendOrder :: "'o \<Rightarrow> string \<Rightarrow> 'e \<Rightarrow> (thrown + string) \<times> 'e"
  quote_recommendedPreset :: "'q \<Rightarrow> string"
  quote_getPreset :: "'q \<Rightarrow> string \<Rightarrow> thrown + int"
  quote_quoteId :: "'q \<Rightarrow> string"
  quote_dstTokenAmount :: "'q \<Rightarrow> string option"
  quote_createEvmOrder :: "'q \<Rightarrow> 'hl \<Rightarrow> receiver \<Rightarrow> string \<Rightarrow> thrown + 'o"
  quote_createSolanaOrder :: "'q \<Rightarrow> 'hl \<Rightarrow> receiver \<Rightarrow> string \<Rightarrow> thrown + 'o"
  SolanaAddress_fromString :: "json option \<Rightarrow> thrown + receiver"
  EvmAddress_fromString :: "json option \<Rightarrow> thrown + receiver"
  hashLock_throws :: "string list \<Rightarrow> thrown option"
  sdk_import :: "thrown option"

text \<open>The three network calls, with the record of the run kept.\<close>

definition getQuote_call ::
  "('e, 'q, 'o, 'hl) trader \<Rightarrow> 'e relayer \<Rightarrow> quote_request \<Rightarrow> ('e, 'o) world
     \<Rightarrow> (thrown + 'q) \<times> ('e, 'o) world" where
  "getQuote_call T R req w =
     (let (r, w') = await R (sdk_getQuote T req) w
      in (r, w'\<lparr>quote_calls := quote_calls w' @ [req]\<rparr>))"

definition submitOrder_call ::
  "('e, 'q, 'o, 'hl) trader \<Rightarrow> 'e relayer \<Rightarrow> json option \<Rightarrow> 'o \<Rightarrow> string \<Rightarrow> string list
     \<Rightarrow> ('e, 'o) world \<Rightarrow> (thrown + string) \<times> ('e, 'o) world" where
  "submitOrder_call T R chainId order quoteId secretHashes w =
     (let (r, w') = await R (sdk_submitOrder T chainId order quoteId secretHashes) w
      in (r, w'\<lparr>order_calls := order_calls w' @
                 [\<lparr>oc_order = order, oc_quoteId = quoteId, oc_secretHashes = secretHashes\<rparr>]\<rparr>))"

definition announceOrder_call ::
  "('e, 'q, 'o, 'hl) trader \<Rightarrow> 'e relayer \<Rightarrow> 'o \<Rightarrow> string \<Rightarrow> string list
     \<Rightarrow> ('e, 'o) world \<Rightarrow> (thrown + string) \<times> ('e, 'o) world" where
  "announceOrder_call T R order quoteId secretHashes w =
     (let (r, w') = await R (sdk_announceOrder T order quoteId secretHashes) w
      in (r, w'\<lparr>order_calls := order_calls w' @
                 [\<lparr>oc_order = order, oc_quoteId = quoteId, oc_secretHashes = secretHashes\<rparr>]\<rparr>))"

section \<open>services/fusion-service.ts: executeSwap\<close>

record swap_request = quote_request +
  sr_receiverAddress :: "json option"
  sr_preset :: "json option"

text \<open>
  The object \<^verbatim>\<open>executeSwap\<close> returns. \<open>res_quote\<close> holds \<^verbatim>\<open>estimatedOutput\<close>, \<^verbatim>\<open>preset\<close>
  and \<^verbatim>\<open>secretsCount\<close>. The field \<^verbatim>\<open>details\<close> (the stack trace) is left out.
\<close>

record swap_response =
  res_success :: bool
  res_orderHash :: "string option"
  res_quote :: "(string \<times> string \<times> int) option"
  res_finalStatus :: "monitor_result option"
  res_error :: "string option"
  res_message :: string

text \<open>What \<^verbatim>\<open>executeSwap\<close> holds once the order is with the relayer.\<close>

record 'q placed =
  pl_orderHash :: string
  pl_secrets :: "string list"
  pl_quote :: 'q
  pl_preset :: string
  pl_secretsCount :: int

text \<open>
  The inner \<^verbatim>\<open>catch (submitError)\<close>: reading \<^verbatim>\<open>submitError.message\<close> of \<^verbatim>\<open>null\<close> or
  \<^verbatim>\<open>undefined\<close> throws a \<^verbatim>\<open>TypeError\<close>; a truthy \<^verbatim>\<open>response.data\<close> is wrapped into a new
  \<^verbatim>\<open>Error\<close> (or \<^verbatim>\<open>JSON.stringify\<close> throws); anything else is thrown again as it is.
\<close>

definition rethrow_submitError :: "thrown \<Rightarrow> thrown" where
  "rethrow_submitError submitError =
     (case submitError of
        Thrown_null \<Rightarrow> Error_obj ''Cannot read properties of null (reading 'message')'' None
      | Thrown_undefined \<Rightarrow> Error_obj ''Cannot read properties of undefined (reading 'message')'' None
      | Error_obj msg (Some (Json d)) \<Rightarrow> Error_obj (''API Error: '' @ d) None
      | Error_obj msg (Some (Unserialisable m)) \<Rightarrow> Error_obj m None
      | Non_error (Some (Json d)) \<Rightarrow> Error_obj (''API Error: '' @ d) None
      | Non_error (Some (Unserialisable m)) \<Rightarrow> Error_obj m None
      | other \<Rightarrow> other)"

definition quote_of :: "swap_request \<Rightarrow> quote_request" where
  "quote_of params =
     \<lparr> qr_amount = qr_amount params, qr_srcChainId = qr_srcChainId params,
       qr_dstChainId = qr_dstChainId params, qr_srcTokenAddress = qr_srcTokenAddress params,
       qr_dstTokenAddress = qr_dstTokenAddress params, qr_walletAddress = qr_walletAddress params \<rparr>"

text \<open>
  Steps 1 to 5 of \<^verbatim>\<open>executeSwap\<close> and the call of \<^verbatim>\<open>submitOrder\<close> with its \<^verbatim>\<open>catch\<close>. \<open>Inl\<close>
  is the value that reaches the outer \<^verbatim>\<open>catch\<close>.
\<close>

definition executeSwap_place ::
  "('e, 'q, 'o, 'hl) trader \<Rightarrow> 'e relayer \<Rightarrow> 'hl HashLock \<Rightarrow> process_env \<Rightarrow> swap_request
     \<Rightarrow> ('e, 'o) world \<Rightarrow> (thrown + 'q placed) \<times> ('e, 'o) world" where
  "executeSwap_place T R H penv params w =
     (case getQuote_call T R (quote_of params) w of
        (Inl t, w1) \<Rightarrow> (Inl t, w1)
      | (Inr quote, w1) \<Rightarrow>
          (case getSDKWithSigner R penv (qr_srcChainId params) of
             Inl t \<Rightarrow> (Inl t, w1)
           | Inr sdkWithSigner \<Rightarrow>
               (let preset = quote_recommendedPreset T quote in
                case quote_getPreset T quote preset of
                  Inl t \<Rightarrow> (Inl t, w1)
                | Inr secretsCount \<Rightarrow>
                    (case array_from_length secretsCount of
                       Inl t \<Rightarrow> (Inl t, w1)
                     | Inr n \<Rightarrow>
                    (case array_from_map n generateSecret (rng w1) of
                       (secrets, r') \<Rightarrow>
                         (let w2 = w1\<lparr>rng := r'\<rparr>;
                              secretHashes = map (hashSecret H) secrets;
                              hashLock = executeSwap_hashLock H secrets
                          in case hashLock_throws T secrets of
                               Some t \<Rightarrow> (Inl t, w2)
                             | None \<Rightarrow>
                          (case (if qr_dstChainId params = Some (JNum 900)
                                   then SolanaAddress_fromString T (sr_receiverAddress params)
                                   else EvmAddress_fromString T (sr_receiverAddress params)) of
                               Inl t \<Rightarrow> (Inl t, w2)
                             | Inr receiver \<Rightarrow>
                                 (case quote_createEvmOrder T quote hashLock receiver preset of
                                    Inl t \<Rightarrow> (Inl t, w2)
                                  | Inr order \<Rightarrow>
                                      (case submitOrder_call T R (qr_srcChainId params) order
                                              (quote_quoteId T quote) secretHashes w2 of
                                         (Inl submitError, w3) \<Rightarrow>
                                           (Inl (rethrow_submitError submitError), w3)
                                       | (Inr orderHash, w3) \<Rightarrow>
                                           (Inr \<lparr> pl_orderHash = orderHash, pl_secrets = secrets,
                                                  pl_quote = quote, pl_preset = preset,
                                                  pl_secretsCount = secretsCount \<rparr>, w3))))))))))"

definition executeSwap ::
  "('e, 'q, 'o, 'hl) trader \<Rightarrow> 'e relayer \<Rightarrow> 'hl HashLock \<Rightarrow> process_env \<Rightarrow> swap_request
     \<Rightarrow> ('e, 'o) world \<Rightarrow> swap_response \<times> ('e, 'o) world" where
  "executeSwap T R H penv params w =
     (case executeSwap_place T R H penv params w of
        (Inr p, w3) \<Rightarrow>
          (case monitorAndCompleteSwap R penv (pl_orderHash p) (pl_secrets p) (qr_srcChainId params) w3 of
             (finalResult, w4) \<Rightarrow>
               (\<lparr> res_success = True,
                   res_orderHash = Some (pl_orderHash p),
                   res_quote = Some (case quote_dstTokenAmount T (pl_quote p) of
                                       None \<Rightarrow> ''0''
                                     | Some s \<Rightarrow> if s = [] then ''0'' else s,
                                     pl_preset p, pl_secretsCount p),
                   res_finalStatus = Some finalResult,
                   res_error = None,
                   res_message = ''Cross-chain swap executed successfully'' \<rparr>, w4))
      | (Inl error, w3) \<Rightarrow>
          (\<lparr> res_success = False,
              res_orderHash = None,
              res_quote = None,
              res_finalStatus = None,
              res_error = Some (case error of Error_obj msg d \<Rightarrow> msg | _ \<Rightarrow> ''Unknown error''),
              res_message = ''Swap execution failed - check error details'' \<rparr>, w3))"

section \<open>The command-line scripts\<close>

text \<open>
  The loop over \<^verbatim>\<open>requiredEnvVars\<close> at the top of each script: the first key whose
  variable is unset or empty ends the process with \<^verbatim>\<open>process.exit(1)\<close>. The function returns
  that key, or \<^term>\<open>None\<close> when the loop runs to its end.
\<close>

fun first_missing :: "process_env \<Rightarrow> string list \<Rightarrow> string option" where
  "first_missing penv [] = None"
| "first_missing penv (key # keys) =
     (if env_missing penv key then Some key else first_missing penv keys)"

text \<open>
  How a script ends: with \<^verbatim>\<open>process.exit(code)\<close>, by running to the end of \<^verbatim>\<open>main\<close>, or not
  yet (the monitoring loop of part_000 out of fuel).
\<close>

datatype script_exit = Exit nat | Finished | Still_running

text \<open>Constants of the SDK's \<^verbatim>\<open>NetworkEnum\<close> and of \<^verbatim>\<open>baseConfig\<close>.\<close>

definition NetworkEnum_ETHEREUM :: int where
  "NetworkEnum_ETHEREUM = 1"

definition NetworkEnum_SOLANA :: int where
  "NetworkEnum_SOLANA = 501"

definition usdtEvm :: string where
  "usdtEvm = ''0xdac17f958d2ee523a2206206994597c13d831ec7''"

definition usdtSolana :: string where
  "usdtSolana = ''Es9vMFrzaCERmJfrF4H2FYD4KCoNkY11McCe8BenwNYB''"

text \<open>\<^verbatim>\<open>parseUnits("5", 6).toString()\<close>.\<close>

definition config_amount :: string where
  "config_amount = ''5000000''"

definition env_value :: "process_env \<Rightarrow> string \<Rightarrow> string" where
  "env_value penv key = (case penv key of None \<Rightarrow> [] | Some v \<Rightarrow> v)"

subsection \<open>src/unnamed/part_000: Ethereum to Solana\<close>

definition EvmToSol_requiredEnvVars :: "string list" where
  "EvmToSol_requiredEnvVars = [''PRIVATE_KEY'', ''MAKER_ADDRESS'', ''RECEIVER_ADDRESS'', ''DEV_PORTAL_API_KEY'']"

definition EvmToSol_getQuote ::
  "('e, 'q, 'o, 'hl) trader \<Rightarrow> 'e relayer \<Rightarrow> process_env \<Rightarrow> ('e, 'o) world
     \<Rightarrow> (thrown + 'q) \<times> ('e, 'o) world" where
  "EvmToSol_getQuote T R penv w =
     getQuote_call T R
       \<lparr> qr_amount = Some (JStr config_amount),
         qr_srcChainId = Some (JNum NetworkEnum_ETHEREUM),
         qr_dstChainId = Some (JNum NetworkEnum_SOLANA),
         qr_srcTokenAddress = Some (JStr usdtEvm),
         qr_dstTokenAddress = Some (JStr usdtSolana),
         qr_walletAddress = Some (JStr (env_value penv ''MAKER_ADDRESS'')) \<rparr> w"

definition EvmToSol_createAndSubmitOrder ::
  "('e, 'q, 'o, 'hl) trader \<Rightarrow> 'e relayer \<Rightarrow> 'hl HashLock \<Rightarrow> process_env \<Rightarrow> 'q \<Rightarrow> ('e, 'o) world
     \<Rightarrow> (thrown + string \<times> string list) \<times> ('e, 'o) world" where
  "EvmToSol_createAndSubmitOrder T R H penv quote w =
     (case quote_getPreset T quote (quote_recommendedPreset T quote) of
        Inl t \<Rightarrow> (Inl t, w)
      | Inr secretsCount \<Rightarrow>
          (case generateSecrets secretsCount (rng w) of
             (Inl t, r') \<Rightarrow> (Inl t, w)
           | (Inr secrets, r') \<Rightarrow>
               (let w1 = w\<lparr>rng := r'\<rparr>;
                    secretHashes = map (hashSecret H) secrets;
                    hashLock = createHashLock H secrets
                in case hashLock_throws T secrets of
                     Some t \<Rightarrow> (Inl t, w1)
                   | None \<Rightarrow>
                (case SolanaAddress_fromString T (Some (JStr (env_value penv ''RECEIVER_ADDRESS''))) of
                     Inl t \<Rightarrow> (Inl t, w1)
                   | Inr receiver \<Rightarrow>
                       (case quote_createEvmOrder T quote hashLock receiver
                               (quote_recommendedPreset T quote) of
                          Inl t \<Rightarrow> (Inl t, w1)
                        | Inr order \<Rightarrow>
                            (case submitOrder_call T R (Some (JNum NetworkEnum_ETHEREUM)) order
                                    (quote_quoteId T quote) secretHashes w1 of
                               (Inl t, w2) \<Rightarrow> (Inl t, w2)
                             | (Inr orderHash, w2) \<Rightarrow> (Inr (orderHash, secrets), w2)))))))"

text \<open>
  \<^verbatim>\<open>main\<close>: \<^verbatim>\<open>initializeSDK\<close> exits with code 1 when the import fails; every throw of
  \<^verbatim>\<open>performCrossChainSwap\<close> is caught and ends in \<^verbatim>\<open>process.exit(1)\<close>.
\<close>

definition EvmToSol_main ::
  "nat \<Rightarrow> ('e, 'q, 'o, 'hl) trader \<Rightarrow> 'e relayer \<Rightarrow> 'hl HashLock \<Rightarrow> process_env \<Rightarrow> ('e, 'o) world
     \<Rightarrow> script_exit \<times> ('e, 'o) world" where
  "EvmToSol_main fuel T R H penv w =
     (case sdk_import T of
        Some t \<Rightarrow> (Exit 1, w)
      | None \<Rightarrow>
          (case new_signer R (env_value penv ''PRIVATE_KEY'') (env_value penv ''DEV_PORTAL_API_KEY'')
                  (Some (JNum NetworkEnum_ETHEREUM)) of
             Some t \<Rightarrow> (Exit 1, w)
           | None \<Rightarrow>
               (case EvmToSol_getQuote T R penv w of
                  (Inl t, w1) \<Rightarrow> (Exit 1, w1)
                | (Inr quote, w1) \<Rightarrow>
                    (case EvmToSol_createAndSubmitOrder T R H penv quote w1 of
                       (Inl t, w2) \<Rightarrow> (Exit 1, w2)
                     | (Inr (orderHash, secrets), w2) \<Rightarrow>
                         (case EvmToSol_monitorAndSubmitSecrets fuel R orderHash secrets w2 of
                            (None, w3) \<Rightarrow> (Still_running, w3)
                          | (Some u, w3) \<Rightarrow> (Finished, w3))))))"

text \<open>The module from its first statement: the environment check, then \<^verbatim>\<open>main()\<close>.\<close>

definition EvmToSol_script ::
  "nat \<Rightarrow> ('e, 'q, 'o, 'hl) trader \<Rightarrow> 'e relayer \<Rightarrow> 'hl HashLock \<Rightarrow> process_env \<Rightarrow> ('e, 'o) world
     \<Rightarrow> script_exit \<times> ('e, 'o) world" where
  "EvmToSol_script fuel T R H penv w =
     (case first_missing penv EvmToSol_requiredEnvVars of
        Some key \<Rightarrow> (Exit 1, w)
      | None \<Rightarrow> EvmToSol_main fuel T R H penv w)"

subsection \<open>sol-to-evm.ts: Solana to Ethereum\<close>

definition SolToEvm_requiredEnvVars :: "string list" where
  "SolToEvm_requiredEnvVars =
     [''SOLANA_PRIVATE_KEY'', ''SOLANA_MAKER_ADDRESS'', ''ETH_RECEIVER_ADDRESS'', ''DEV_PORTAL_API_KEY'']"

definition address_toString :: "receiver \<Rightarrow> string" where
  "address_toString a = (case a of SolanaAddress s \<Rightarrow> s | EvmAddress s \<Rightarrow> s)"

definition SolToEvm_getQuote ::
  "('e, 'q, 'o, 'hl) trader \<Rightarrow> 'e relayer \<Rightarrow> process_env \<Rightarrow> ('e, 'o) world
     \<Rightarrow> (thrown + 'q) \<times> ('e, 'o) world" where
  "SolToEvm_getQuote T R penv w =
     (case SolanaAddress_fromString T (Some (JStr usdtSolana)) of
        Inl t \<Rightarrow> (Inl t, w)
      | Inr srcToken \<Rightarrow>
          (case EvmAddress_fromString T (Some (JStr usdtEvm)) of
             Inl t \<Rightarrow> (Inl t, w)
           | Inr dstToken \<Rightarrow>
               getQuote_call T R
                 \<lparr> qr_amount = Some (JStr config_amount),
                   qr_srcChainId = Some (JNum NetworkEnum_SOLANA),
                   qr_dstChainId = Some (JNum NetworkEnum_ETHEREUM),
                   qr_srcTokenAddress = Some (JStr (address_toString srcToken)),
                   qr_dstTokenAddress = Some (JStr (address_toString dstToken)),
                   qr_walletAddress = Some (JStr (env_value penv ''SOLANA_MAKER_ADDRESS'')) \<rparr> w))"

definition SolToEvm_createAndSubmitOrder ::
  "('e, 'q, 'o, 'hl) trader \<Rightarrow> 'e relayer \<Rightarrow> 'hl HashLock \<Rightarrow> process_env \<Rightarrow> 'q \<Rightarrow> ('e, 'o) world
     \<Rightarrow> (thrown + string \<times> string list) \<times> ('e, 'o) world" where
  "SolToEvm_createAndSubmitOrder T R H penv quote w =
     (case quote_getPreset T quote (quote_recommendedPreset T quote) of
        Inl t \<Rightarrow> (Inl t, w)
      | Inr secretsCount \<Rightarrow>
          (case generateSecrets secretsCount (rng w) of
             (Inl t, r') \<Rightarrow> (Inl t, w)
           | (Inr secrets, r') \<Rightarrow>
               (let w1 = w\<lparr>rng := r'\<rparr>;
                    secretHashes = map (hashSecret H) secrets;
                    hashLock = createHashLock H secrets
                in case hashLock_throws T secrets of
                     Some t \<Rightarrow> (Inl t, w1)
                   | None \<Rightarrow>
                (case EvmAddress_fromString T (Some (JStr (env_value penv ''ETH_RECEIVER_ADDRESS''))) of
                     Inl t \<Rightarrow> (Inl t, w1)
                   | Inr receiver \<Rightarrow>
                       (case quote_createSolanaOrder T quote hashLock receiver
                               (quote_recommendedPreset T quote) of
                          Inl t \<Rightarrow> (Inl t, w1)
                        | Inr order \<Rightarrow>
                            (case announceOrder_call T R order (quote_quoteId T quote) secretHashes w1 of
                               (Inl t, w2) \<Rightarrow> (Inl t, w2)
                             | (Inr orderHash, w2) \<Rightarrow>
                                 (case await R (solana_sendOrder T order
                                          (env_value penv ''SOLANA_PRIVATE_KEY'')) w2 of
                                    (Inl t, w3) \<Rightarrow> (Inl t, w3)
                                  | (Inr signature, w3) \<Rightarrow> (Inr (orderHash, secrets), w3))))))))"

definition SolToEvm_main ::
  "('e, 'q, 'o, 'hl) trader \<Rightarrow> 'e relayer \<Rightarrow> 'hl HashLock \<Rightarrow> process_env \<Rightarrow> ('e, 'o) world
     \<Rightarrow> script_exit \<times> ('e, 'o) world" where
  "SolToEvm_main T R H penv w =
     (case sdk_import T of
        Some t \<Rightarrow> (Exit 1, w)
      | None \<Rightarrow>
          (case SolToEvm_getQuote T R penv w of
             (Inl t, w1) \<Rightarrow> (Exit 1, w1)
           | (Inr quote, w1) \<Rightarrow>
               (case SolToEvm_createAndSubmitOrder T R H penv quote w1 of
                  (Inl t, w2) \<Rightarrow> (Exit 1, w2)
                | (Inr (orderHash, secrets), w2) \<Rightarrow>
                    (case SolToEvm_monitorAndSubmitSecrets R orderHash secrets w2 of
                       (exit, w3) \<Rightarrow> (Finished, w3)))))"

definition SolToEvm_script ::
  "('e, 'q, 'o, 'hl) trader \<Rightarrow> 'e relayer \<Rightarrow> 'hl HashLock \<Rightarrow> process_env \<Rightarrow> ('e, 'o) world
     \<Rightarrow> script_exit \<times> ('e, 'o) world" where
  "SolToEvm_script T R H penv w =
     (case first_missing penv SolToEvm_requiredEnvVars of
        Some key \<Rightarrow> (Exit 1, w)
      | None \<Rightarrow> SolToEvm_main T R H penv w)"

section \<open>routes/fusion-routes.ts: POST /quote\<close>

text \<open>
  A request body that \<^verbatim>\<open>express.json()\<close> has parsed: an object, read by key. The response: the
  status code, the \<^verbatim>\<open>success\<close> field of the JSON body, its \<^verbatim>\<open>error\<close> field, and the
  quote when there is one.
\<close>

type_synonym request_body = "string \<Rightarrow> json option"

record 'q http_response =
  http_status :: nat
  body_success :: bool
  body_error :: "string option"
  body_quote :: "'q option"

text \<open>
  \<^verbatim>\<open>FusionService.getQuote\<close>: the SDK call in a \<^verbatim>\<open>try\<close>; a failure is thrown again as
  \<^verbatim>\<open>new Error(`Quote failed: ...`)\<close>.
\<close>

definition FusionService_getQuote ::
  "('e, 'q, 'o, 'hl) trader \<Rightarrow> 'e relayer \<Rightarrow> quote_request \<Rightarrow> ('e, 'o) world
     \<Rightarrow> (thrown + 'q) \<times> ('e, 'o) world" where
  "FusionService_getQuote T R params w =
     (case getQuote_call T R params w of
        (Inr quote, w') \<Rightarrow> (Inr quote, w')
      | (Inl error, w') \<Rightarrow>
          (Inl (Error_obj (''Quote failed: '' @
                  (case error of Error_obj msg d \<Rightarrow> msg | _ \<Rightarrow> ''Unknown error'')) None), w'))"

text \<open>
  The handler of \<^verbatim>\<open>router.post('/quote', ...)\<close>. \<^verbatim>\<open>req.body\<close> is \<^term>\<open>None\<close> when the
  body parser left it \<^verbatim>\<open>undefined\<close>; destructuring it then throws a \<^verbatim>\<open>TypeError\<close> into
  the handler's \<^verbatim>\<open>catch\<close>.
\<close>

definition post_quote ::
  "('e, 'q, 'o, 'hl) trader \<Rightarrow> 'e relayer \<Rightarrow> request_body option \<Rightarrow> ('e, 'o) world
     \<Rightarrow> 'q http_response \<times> ('e, 'o) world" where
  "post_quote T R req_body w =
     (case req_body of
        None \<Rightarrow>
          (\<lparr> http_status = 500, body_success = False,
              body_error = Some ''Cannot destructure property 'srcChainId' of 'req.body' as it is undefined.'',
              body_quote = None \<rparr>, w)
      | Some body \<Rightarrow>
          if falsy (body ''srcChainId'') \<or> falsy (body ''dstChainId'')
             \<or> falsy (body ''srcTokenAddress'') \<or> falsy (body ''dstTokenAddress'')
             \<or> falsy (body ''amount'') \<or> falsy (body ''walletAddress'')
          then (\<lparr> http_status = 400, body_success = False,
                   body_error = Some ''Missing required parameters: srcChainId, dstChainId, srcTokenAddress, dstTokenAddress, amount, walletAddress'',
                   body_quote = None \<rparr>, w)
          else
            (case FusionService_getQuote T R
                    \<lparr> qr_amount = body ''amount'', qr_srcChainId = body ''srcChainId'',
                      qr_dstChainId = body ''dstChainId'', qr_srcTokenAddress = body ''srcTokenAddress'',
                      qr_dstTokenAddress = body ''dstTokenAddress'',
                      qr_walletAddress = body ''walletAddress'' \<rparr> w of
               (Inr quote, w') \<Rightarrow>
                 (\<lparr> http_status = 200, body_success = True, body_error = None,
                     body_quote = Some quote \<rparr>, w')
             | (Inl error, w') \<Rightarrow>
                 (\<lparr> http_status = 500, body_success = False,
                     body_error = Some (case error of Error_obj msg d \<Rightarrow> msg | _ \<Rightarrow> ''Quote failed''),
                     body_quote = None \<rparr>, w')))"

section \<open>A concrete SDK, for evaluating the model\<close>

text \<open>
  A quote is the number of secrets its preset asks for; an order is a text built from the
  hash-lock and the receiver. The relayer answers every call.
\<close>

definition demo_trader :: "('e, int, string, string) trader" where
  "demo_trader =
     \<lparr> sdk_getQuote = (\<lambda>req n. (Inr 2, n)),
       sdk_submitOrder = (\<lambda>chain order quoteId hashes n. (Inr ''0xorder'', n)),
       sdk_announceOrder = (\<lambda>order quoteId hashes n. (Inr ''0xorder'', n)),
       solana_sendOrder = (\<lambda>order key n. (Inr ''signature'', n)),
       quote_recommendedPreset = (\<lambda>q. ''fast''),
       quote_getPreset = (\<lambda>q p. Inr q),
       quote_quoteId = (\<lambda>q. ''quote-1''),
       quote_dstTokenAmount = (\<lambda>q. Some ''4990000''),
       quote_createEvmOrder = (\<lambda>q hl r p. Inr (''evm-order:'' @ hl)),
       quote_createSolanaOrder = (\<lambda>q hl r p. Inr (''solana-order:'' @ hl)),
       SolanaAddress_fromString = (\<lambda>v. case v of Some (JStr s) \<Rightarrow> Inr (SolanaAddress s)
                                      | _ \<Rightarrow> Inl (Error_obj ''Invalid address'' None)),
       EvmAddress_fromString = (\<lambda>v. case v of Some (JStr s) \<Rightarrow> Inr (EvmAddress s)
                                   | _ \<Rightarrow> Inl (Error_obj ''Invalid address'' None)),
       hashLock_throws = (\<lambda>secrets. None),
       sdk_import = None \<rparr>"

definition demo_request :: swap_request where
  "demo_request =
     \<lparr> qr_amount = Some (JStr ''125000000000000''), qr_srcChainId = Some (JNum 8453),
       qr_dstChainId = Some (JNum 137),
       qr_srcTokenAddress = Some (JStr ''0xEeeeeEeeeEeEeeEeEeEeeEEEeeeeEeeeeeeeEEeE''),
       qr_dstTokenAddress = Some (JStr ''0x2791Bca1f2de4661ED88A30C99A7a9449Aa84174''),
       qr_walletAddress = Some (JStr ''0x0b07ab58f72d13150Fcd119700aae76d9D161138''),
       sr_receiverAddress = Some (JStr ''0x0b07ab58f72d13150Fcd119700aae76d9D161138''),
       sr_preset = Some (JStr ''fast'') \<rparr>"

definition demo_body :: request_body where
  "demo_body = [''srcChainId'' \<mapsto> JNum 8453, ''dstChainId'' \<mapsto> JNum 137,
                ''srcTokenAddress'' \<mapsto> JStr ''0xEeeeeEeeeEeEeeEeEeEeeEEEeeeeEeeeeeeeEEeE'',
                ''amount'' \<mapsto> JStr ''125000000000000'',
                ''walletAddress'' \<mapsto> JStr ''0x0b07ab58f72d13150Fcd119700aae76d9D161138'']"

definition demo_script_env :: process_env where
  "demo_script_env = [''PRIVATE_KEY'' \<mapsto> ''0x01'', ''MAKER_ADDRESS'' \<mapsto> ''0xmaker'',
                      ''DEV_PORTAL_API_KEY'' \<mapsto> ''key'', ''SOLANA_PRIVATE_KEY'' \<mapsto> ''base58'',
                      ''SOLANA_MAKER_ADDRESS'' \<mapsto> ''maker'', ''ETH_RECEIVER_ADDRESS'' \<mapsto> ''0xreceiver'']"

text \<open>A world for the relayer whose order never changes.\<close>

definition stalled_world :: "(unit, string) world" where
  "stalled_world = \<lparr> sdk = (), clock = 0, rng = demo_entropy,
                     quote_calls = [], order_calls = [], secret_calls = [] \<rparr>"

section \<open>When an order is ready to be submitted\<close>

text \<open>
  The secrets a run draws for a count inside the array bound: \<^verbatim>\<open>executeSwap\<close> with its
  inline expression, the scripts with \<^verbatim>\<open>generateSecrets\<close>.
\<close>

definition executeSwap_secrets :: "int \<Rightarrow> entropy \<Rightarrow> string list" where
  "executeSwap_secrets count r = fst (array_from_map (nat count) generateSecret r)"

definition script_secrets :: "int \<Rightarrow> entropy \<Rightarrow> string list" where
  "script_secrets count r = fst (array_from_map (nat count) getSecret r)"

text \<open>
  Every step of \<^verbatim>\<open>createAndSubmitOrder\<close> of part_000 before the call of \<^verbatim>\<open>submitOrder\<close>
  succeeds: the recommended preset asks for \<open>c\<close> secrets, \<open>c\<close> is inside the array bound,
  the \<^verbatim>\<open>HashLock\<close> calls do not throw, the receiver address parses to \<open>receiver\<close> and
  \<^verbatim>\<open>createEvmOrder\<close> returns \<open>order\<close>.
\<close>

definition EvmToSol_order_ready ::
  "('e, 'q, 'o, 'hl) trader \<Rightarrow> 'hl HashLock \<Rightarrow> process_env \<Rightarrow> 'q \<Rightarrow> entropy
     \<Rightarrow> int \<Rightarrow> receiver \<Rightarrow> 'o \<Rightarrow> bool" where
  "EvmToSol_order_ready T H penv quote r c receiver order =
     (quote_getPreset T quote (quote_recommendedPreset T quote) = Inr c
      \<and> c \<le> 4294967295
      \<and> hashLock_throws T (script_secrets c r) = None
      \<and> SolanaAddress_fromString T (Some (JStr (env_value penv ''RECEIVER_ADDRESS''))) = Inr receiver
      \<and> quote_createEvmOrder T quote (createHashLock H (script_secrets c r)) receiver
            (quote_recommendedPreset T quote) = Inr order)"

text \<open>The same for \<^verbatim>\<open>createAndSubmitOrder\<close> of sol-to-evm.ts, before \<^verbatim>\<open>announceOrder\<close>.\<close>

definition SolToEvm_order_ready ::
  "('e, 'q, 'o, 'hl) trader \<Rightarrow> 'hl HashLock \<Rightarrow> process_env \<Rightarrow> 'q \<Rightarrow> entropy
     \<Rightarrow> int \<Rightarrow> receiver \<Rightarrow> 'o \<Rightarrow> bool" where
  "SolToEvm_order_ready T H penv quote r c receiver order =
     (quote_getPreset T quote (quote_recommendedPreset T quote) = Inr c
      \<and> c \<le> 4294967295
      \<and> hashLock_throws T (script_secrets c r) = None
      \<and> EvmAddress_fromString T (Some (JStr (env_value penv ''ETH_RECEIVER_ADDRESS''))) = Inr receiver
      \<and> quote_createSolanaOrder T quote (createHashLock H (script_secrets c r)) receiver
            (quote_recommendedPreset T quote) = Inr order)"

text \<open>
  The same for \<^verbatim>\<open>executeSwap\<close>, steps 1 to 5: \<^verbatim>\<open>getQuote\<close> resolves to \<open>quote\<close>, the signer
  is there, and so on up to \<^verbatim>\<open>createEvmOrder\<close>.
\<close>

definition executeSwap_order_ready ::
  "('e, 'q, 'o, 'hl) trader \<Rightarrow> 'e relayer \<Rightarrow> 'hl HashLock \<Rightarrow> process_env \<Rightarrow> swap_request
     \<Rightarrow> ('e, 'o) world \<Rightarrow> 'q \<Rightarrow> int \<Rightarrow> receiver \<Rightarrow> 'o \<Rightarrow> bool" where
  "executeSwap_order_ready T R H penv params w quote c receiver order =
     (fst (sdk_getQuote T (quote_of params) (sdk w)) = Inr quote
      \<and> getSDKWithSigner R penv (qr_srcChainId params) = Inr ()
      \<and> quote_getPreset T quote (quote_recommendedPreset T quote) = Inr c
      \<and> c \<le> 4294967295
      \<and> hashLock_throws T (executeSwap_secrets c (rng w)) = None
      \<and> (if qr_dstChainId params = Some (JNum 900)
          then SolanaAddress_fromString T (sr_receiverAddress params)
          else EvmAddress_fromString T (sr_receiverAddress params)) = Inr receiver
      \<and> quote_createEvmOrder T quote (executeSwap_hashLock H (executeSwap_secrets c (rng w))) receiver
            (quote_recommendedPreset T quote) = Inr order)"

text \<open>The object the outer \<^verbatim>\<open>catch\<close> of \<^verbatim>\<open>executeSwap\<close> returns for a caught value.\<close>

definition failure_response :: "thrown \<Rightarrow> swap_response" where
  "failure_response error =
     \<lparr> res_success = False,
       res_orderHash = None,
       res_quote = None,
       res_finalStatus = None,
       res_error = Some (case error of Error_obj msg d \<Rightarrow> msg | _ \<Rightarrow> ''Unknown error''),
       res_message = ''Swap execution failed - check error details'' \<rparr>"

text \<open>
  Two more SDKs for evaluating the model: one whose relayer rejects every order with an
  HTTP error that carries response data, one whose \<^verbatim>\<open>getQuote\<close> rejects with a value that
  is not an \<^verbatim>\<open>Error\<close>.
\<close>

definition rejecting_trader :: "('e, int, string, string) trader" where
  "rejecting_trader =
     demo_trader\<lparr> sdk_submitOrder := (\<lambda>chain order quoteId hashes e.
        (Inl (Error_obj ''Request failed with status code 400''
                (Some (Json ''{description: insufficient balance}''))), e)) \<rparr>"

definition quoteless_trader :: "('e, int, string, string) trader" where
  "quoteless_trader =
     demo_trader\<lparr> sdk_getQuote := (\<lambda>req e. (Inl (Non_error None), e)) \<rparr>"

section \<open>Properties of secret generation\<close>

lemma hex_digit_mem: "d < 16 \<Longrightarrow> hex_digit d \<in> set hex_digits"
  unfolding hex_digit_def by (rule nth_mem) (simp add: hex_digits_def)

lemma byte_hex_set: "set (byte_hex b) \<subseteq> set hex_digits"
proof -
  have "unat b < 256" using unsigned_less [of b] by simp
  then have "unat b div 16 < 16" by simp
  moreover have "unat b mod 16 < 16" by simp
  ultimately show ?thesis by (simp add: byte_hex_def hex_digit_mem)
qed

lemma toString_hex_set: "set (toString_hex bs) \<subseteq> set hex_digits"
  using byte_hex_set by (auto simp: toString_hex_def)

lemma length_toString_hex: "length (toString_hex bs) = 2 * length bs"
  by (induction bs) (simp_all add: toString_hex_def byte_hex_def)

lemma add0x_hex: "add0x (toString_hex bs) = ''0x'' @ toString_hex bs"
proof -
  have "take 2 (toString_hex bs) \<noteq> ''0x''"
  proof
    assume h: "take 2 (toString_hex bs) = ''0x''"
    have "CHR ''x'' \<in> set (take 2 (toString_hex bs))" by (simp add: h)
    then have "CHR ''x'' \<in> set (toString_hex bs)" by (rule in_set_takeD)
    then have "CHR ''x'' \<in> set hex_digits" using toString_hex_set by blast
    then show False by (simp add: hex_digits_def)
  qed
  then show ?thesis by (simp add: add0x_def)
qed

lemma generateSecret_eq: "generateSecret r = (secret_at r 0, r\<lparr>pos := pos r + 32\<rparr>)"
  by (simp add: generateSecret_def randomBytes_def add0x_hex secret_at_def)

lemma getSecret_eq: "getSecret r = (secret_at r 0, r\<lparr>pos := pos r + 32\<rparr>)"
  by (simp add: getSecret_def randomBytes_def add0x_hex secret_at_def)

lemma secret_at_shift: "secret_at (r\<lparr>pos := pos r + 32\<rparr>) i = secret_at r (Suc i)"
  by (simp add: secret_at_def add.commute add.left_commute)

lemma array_from_map_secrets:
  assumes f: "\<And>r. f r = (secret_at r 0, r\<lparr>pos := pos r + 32\<rparr>)"
  shows "array_from_map n f r = (map (secret_at r) [0..<n], r\<lparr>pos := pos r + 32 * n\<rparr>)"
proof (induction n arbitrary: r)
  case 0
  show ?case by simp
next
  case (Suc n)
  have "map (secret_at r) [0..<Suc n] =
        secret_at r 0 # map (secret_at (r\<lparr>pos := pos r + 32\<rparr>)) [0..<n]"
    by (simp add: upt_rec [of 0 "Suc n"] map_Suc_upt [symmetric] secret_at_shift del: upt_Suc)
  then show ?case by (simp add: Suc.IH f [of r] del: upt_Suc)
qed

lemma length_secret_at: "length (secret_at r i) = 66"
  by (simp add: secret_at_def length_toString_hex)

lemma secret_at_digits: "set (drop 2 (secret_at r i)) \<subseteq> set hex_digits"
  by (simp add: secret_at_def toString_hex_set)

lemma array_from_length_ok: "N \<le> 4294967295 \<Longrightarrow> array_from_length N = Inr (nat N)"
  by (simp add: array_from_length_def)

lemma array_from_length_too_long:
  "4294967295 < N \<Longrightarrow> array_from_length N = Inl (Error_obj ''Invalid array length'' None)"
  by (simp add: array_from_length_def)

lemma generateSecrets_in_range:
  assumes "N \<le> 4294967295"
  shows "SecretManager_generateSecrets N r
           = (Inr (map (secret_at r) [0..<nat N]), r\<lparr>pos := pos r + 32 * nat N\<rparr>)"
    and "generateSecrets N r
           = (Inr (map (secret_at r) [0..<nat N]), r\<lparr>pos := pos r + 32 * nat N\<rparr>)"
proof -
  have m1: "array_from_map (nat N) generateSecret r
      = (map (secret_at r) [0..<nat N], r\<lparr>pos := pos r + 32 * nat N\<rparr>)"
    by (rule array_from_map_secrets) (rule generateSecret_eq)
  have m2: "array_from_map (nat N) getSecret r
      = (map (secret_at r) [0..<nat N], r\<lparr>pos := pos r + 32 * nat N\<rparr>)"
    by (rule array_from_map_secrets) (rule getSecret_eq)
  show "SecretManager_generateSecrets N r
           = (Inr (map (secret_at r) [0..<nat N]), r\<lparr>pos := pos r + 32 * nat N\<rparr>)"
    by (simp add: SecretManager_generateSecrets_def array_from_length_ok [OF assms] m1)
  show "generateSecrets N r
           = (Inr (map (secret_at r) [0..<nat N]), r\<lparr>pos := pos r + 32 * nat N\<rparr>)"
    by (simp add: generateSecrets_def array_from_length_ok [OF assms] m2)
qed

lemma draws_disjoint:
  "i \<noteq> j \<Longrightarrow> set [p + 32 * i ..< p + 32 * i + 32] \<inter> set [p + 32 * j ..< p + 32 * j + 32] = {}"
  for i j p :: nat
  by auto

lemma secret_at_own_cells:
  fixes r r2 :: entropy
  assumes "pos r2 = pos r"
    and "\<forall>k \<in> set [pos r + 32 * i ..< pos r + 32 * i + 32]. tape r2 k = tape r k"
  shows "secret_at r2 i = secret_at r i"
proof -
  have eq: "map (tape r2) [pos r + 32 * i ..< pos r + 32 * i + 32]
      = map (tape r) [pos r + 32 * i ..< pos r + 32 * i + 32]"
    using assms(2) by (intro map_cong) simp_all
  show ?thesis unfolding secret_at_def assms(1) eq by (rule refl)
qed

text \<open>
  C4. The claim is stated for every count \<open>N \<ge> 0\<close>. It holds up to the largest array
  length: for \<open>0 \<le> N \<le> 2\<^sup>3\<^sup>2 - 1\<close>, \<^verbatim>\<open>SecretManager.generateSecrets(N)\<close> and the
  scripts' \<^verbatim>\<open>generateSecrets(N)\<close> return exactly \<open>N\<close> secrets. Secret \<open>i\<close> is \<^verbatim>\<open>0x\<close>
  followed by the lowercase hex digits of the 32 bytes that the \<open>i\<close>-th call of
  \<^verbatim>\<open>randomBytes(32)\<close> reads, which are the cells \<open>pos + 32 i, ..., pos + 32 i + 31\<close> of the
  entropy tape; every secret has 66 characters, and the run consumes \<open>32 N\<close> bytes of
  entropy in all. The draws are independent: the cells of two different secrets are
  disjoint, and secret \<open>i\<close> stays the same whatever the entropy source holds outside its
  own 32 cells. For every \<open>N > 2\<^sup>3\<^sup>2 - 1\<close> both functions throw
  \<^verbatim>\<open>RangeError: Invalid array length\<close> and read no entropy.
\<close>

theorem generateSecrets_fresh_hex:
  "(0 \<le> N \<and> N \<le> 4294967295 \<longrightarrow>
      (\<exists>ss r'. SecretManager_generateSecrets N r = (Inr ss, r')
           \<and> generateSecrets N r = (Inr ss, r')
           \<and> int (length ss) = N \<and> pos r' = pos r + 32 * nat N \<and> tape r' = tape r
           \<and> (\<forall>i < nat N.
                 ss ! i = ''0x'' @ toString_hex (map (tape r) [pos r + 32 * i ..< pos r + 32 * i + 32])
                 \<and> length (ss ! i) = 66
                 \<and> set (drop 2 (ss ! i)) \<subseteq> set hex_digits)
           \<and> (\<forall>i < nat N. \<forall>j < nat N. i \<noteq> j \<longrightarrow>
                 set [pos r + 32 * i ..< pos r + 32 * i + 32]
                   \<inter> set [pos r + 32 * j ..< pos r + 32 * j + 32] = {})
           \<and> (\<forall>i < nat N. \<forall>r2 :: entropy.
                 pos r2 = pos r
                 \<and> (\<forall>k \<in> set [pos r + 32 * i ..< pos r + 32 * i + 32]. tape r2 k = tape r k)
                 \<longrightarrow> projr (fst (SecretManager_generateSecrets N r2)) ! i = ss ! i
                   \<and> projr (fst (generateSecrets N r2)) ! i = ss ! i)))
   \<and> (4294967295 < N \<longrightarrow>
        SecretManager_generateSecrets N r = (Inl (Error_obj ''Invalid array length'' None), r)
      \<and> generateSecrets N r = (Inl (Error_obj ''Invalid array length'' None), r))"
proof (intro conjI impI)
  assume range: "0 \<le> N \<and> N \<le> 4294967295"
  then have lo: "0 \<le> N" and hi: "N \<le> 4294967295" by simp_all
  let ?ss = "map (secret_at r) [0..<nat N]"
  let ?r = "r\<lparr>pos := pos r + 32 * nat N\<rparr>"
  have a: "SecretManager_generateSecrets N r = (Inr ?ss, ?r)"
    by (rule generateSecrets_in_range(1) [OF hi])
  have b: "generateSecrets N r = (Inr ?ss, ?r)"
    by (rule generateSecrets_in_range(2) [OF hi])
  have c: "int (length ?ss) = N" using lo by simp
  have d: "\<forall>i < nat N. ?ss ! i = ''0x'' @ toString_hex (map (tape r) [pos r + 32 * i ..< pos r + 32 * i + 32])
                 \<and> length (?ss ! i) = 66 \<and> set (drop 2 (?ss ! i)) \<subseteq> set hex_digits"
  proof (intro allI impI)
    fix i assume "i < nat N"
    then have e: "?ss ! i = secret_at r i" by simp
    show "?ss ! i = ''0x'' @ toString_hex (map (tape r) [pos r + 32 * i ..< pos r + 32 * i + 32])
                 \<and> length (?ss ! i) = 66 \<and> set (drop 2 (?ss ! i)) \<subseteq> set hex_digits"
      unfolding e using length_secret_at [of r i] secret_at_digits [of r i]
      by (simp add: secret_at_def)
  qed
  have e: "pos ?r = pos r + 32 * nat N" "tape ?r = tape r" by simp_all
  have f: "\<forall>i < nat N. \<forall>j < nat N. i \<noteq> j \<longrightarrow>
                 set [pos r + 32 * i ..< pos r + 32 * i + 32]
                   \<inter> set [pos r + 32 * j ..< pos r + 32 * j + 32] = {}"
    using draws_disjoint by blast
  have g: "\<forall>i < nat N. \<forall>r2 :: entropy.
                 pos r2 = pos r
                 \<and> (\<forall>k \<in> set [pos r + 32 * i ..< pos r + 32 * i + 32]. tape r2 k = tape r k)
                 \<longrightarrow> projr (fst (SecretManager_generateSecrets N r2)) ! i = ?ss ! i
                   \<and> projr (fst (generateSecrets N r2)) ! i = ?ss ! i"
  proof (intro allI impI)
    fix i and r2 :: entropy
    assume i: "i < nat N"
      and same: "pos r2 = pos r
        \<and> (\<forall>k \<in> set [pos r + 32 * i ..< pos r + 32 * i + 32]. tape r2 k = tape r k)"
    from same have s: "secret_at r2 i = secret_at r i" by (intro secret_at_own_cells) simp_all
    from i have n: "map (secret_at r2) [0..<nat N] ! i = secret_at r2 i"
      "map (secret_at r) [0..<nat N] ! i = secret_at r i" by simp_all
    show "projr (fst (SecretManager_generateSecrets N r2)) ! i = ?ss ! i
        \<and> projr (fst (generateSecrets N r2)) ! i = ?ss ! i"
      unfolding generateSecrets_in_range [OF hi, of r2] using n s by simp
  qed
  from a b c d e f g
  show "\<exists>ss r'. SecretManager_generateSecrets N r = (Inr ss, r')
           \<and> generateSecrets N r = (Inr ss, r')
           \<and> int (length ss) = N \<and> pos r' = pos r + 32 * nat N \<and> tape r' = tape r
           \<and> (\<forall>i < nat N.
                 ss ! i = ''0x'' @ toString_hex (map (tape r) [pos r + 32 * i ..< pos r + 32 * i + 32])
                 \<and> length (ss ! i) = 66
                 \<and> set (drop 2 (ss ! i)) \<subseteq> set hex_digits)
           \<and> (\<forall>i < nat N. \<forall>j < nat N. i \<noteq> j \<longrightarrow>
                 set [pos r + 32 * i ..< pos r + 32 * i + 32]
                   \<inter> set [pos r + 32 * j ..< pos r + 32 * j + 32] = {})
           \<and> (\<forall>i < nat N. \<forall>r2 :: entropy.
                 pos r2 = pos r
                 \<and> (\<forall>k \<in> set [pos r + 32 * i ..< pos r + 32 * i + 32]. tape r2 k = tape r k)
                 \<longrightarrow> projr (fst (SecretManager_generateSecrets N r2)) ! i = ss ! i
                   \<and> projr (fst (generateSecrets N r2)) ! i = ss ! i)"
    by (intro exI [of _ ?ss] exI [of _ ?r] conjI)
next
  assume big: "4294967295 < N"
  show "SecretManager_generateSecrets N r = (Inl (Error_obj ''Invalid array length'' None), r)"
    by (simp add: SecretManager_generateSecrets_def array_from_length_too_long [OF big])
  show "generateSecrets N r = (Inl (Error_obj ''Invalid array length'' None), r)"
    by (simp add: generateSecrets_def array_from_length_too_long [OF big])
qed

theorem generateSecrets_fresh_hex_witness:
  "(0::int) \<le> 2 \<and> (2::int) \<le> 4294967295
     \<and> map length (projr (fst (SecretManager_generateSecrets 2 demo_entropy))) = [66, 66]
     \<and> map length (projr (fst (generateSecrets 2 demo_entropy))) = [66, 66]
     \<and> pos (snd (generateSecrets 2 demo_entropy)) = 69
     \<and> int (length (projr (fst (generateSecrets 4294967295 demo_entropy)))) = 4294967295
     \<and> (4294967295::int) < 5000000000
     \<and> generateSecrets 5000000000 demo_entropy
         = (Inl (Error_obj ''Invalid array length'' None), demo_entropy)"
proof -
  have h: "(0::int) \<le> 2 \<and> (2::int) \<le> 4294967295" by simp
  from generateSecrets_fresh_hex [of 2 demo_entropy] h
  obtain ss r' where
    a: "SecretManager_generateSecrets 2 demo_entropy = (Inr ss, r')" and
    b: "generateSecrets 2 demo_entropy = (Inr ss, r')" and
    c: "int (length ss) = 2" and
    d: "pos r' = pos demo_entropy + 32 * nat 2" and
    e: "\<forall>i < nat 2. ss ! i = ''0x'' @ toString_hex (map (tape demo_entropy)
            [pos demo_entropy + 32 * i ..< pos demo_entropy + 32 * i + 32])
          \<and> length (ss ! i) = 66 \<and> set (drop 2 (ss ! i)) \<subseteq> set hex_digits"
    by blast
  have "(0::nat) < nat 2" "(1::nat) < nat 2" by simp_all
  with e have l: "length (ss ! 0) = 66" "length (ss ! 1) = 66" by blast+
  from c have "length ss = 2" by simp
  then obtain x y where xy: "ss = [x, y]"
    by (metis (no_types) Suc_length_conv length_0_conv numeral_2_eq_2)
  with l have m: "map length ss = [66, 66]" by simp
  have top: "(0::int) \<le> 4294967295 \<and> (4294967295::int) \<le> 4294967295" by simp
  from generateSecrets_fresh_hex [of 4294967295 demo_entropy] top
  obtain ts t' where
    ta: "generateSecrets 4294967295 demo_entropy = (Inr ts, t')" and
    tc: "int (length ts) = 4294967295"
    by blast
  have big: "(4294967295::int) < 5000000000" by simp
  from generateSecrets_fresh_hex [of 5000000000 demo_entropy] big
  have thr: "generateSecrets 5000000000 demo_entropy
         = (Inl (Error_obj ''Invalid array length'' None), demo_entropy)"
    by blast
  have p: "pos (snd (generateSecrets 2 demo_entropy)) = 69"
    using b d by (simp add: demo_entropy_def)
  have q: "int (length (projr (fst (generateSecrets 4294967295 demo_entropy)))) = 4294967295"
    unfolding ta using tc by simp
  have m1: "map length (projr (fst (SecretManager_generateSecrets 2 demo_entropy))) = [66, 66]"
    unfolding a using m by simp
  have m2: "map length (projr (fst (generateSecrets 2 demo_entropy))) = [66, 66]"
    unfolding b using m by simp
  from h have h1: "(0::int) \<le> 2" and h2: "(2::int) \<le> 4294967295" by simp_all
  show ?thesis by (intro conjI h1 h2 m1 m2 p q big thr)
qed

text \<open>
  The claim as it stands fails at \<open>N = 2\<^sup>3\<^sup>2\<close>: both functions throw \<^verbatim>\<open>RangeError\<close>
  instead of returning a list of \<open>N\<close> secrets, and no entropy is consumed.
\<close>

theorem generateSecrets_too_many:
  "SecretManager_generateSecrets 4294967296 demo_entropy
     = (Inl (Error_obj ''Invalid array length'' None), demo_entropy)
   \<and> generateSecrets 4294967296 demo_entropy
     = (Inl (Error_obj ''Invalid array length'' None), demo_entropy)"
  by (simp add: SecretManager_generateSecrets_def generateSecrets_def array_from_length_def)

section \<open>Properties of the hash-lock selection\<close>

lemma js_index_first: "xs \<noteq> [] \<Longrightarrow> js_index xs 0 = Some (hd xs)"
  by (cases xs) (simp_all add: js_index_def)

text \<open>
  C3. For a list of \<open>N \<ge> 1\<close> secrets, each hash-lock construction of the repository
  (\<^verbatim>\<open>SecretManager.createHashLock\<close>, the scripts' \<^verbatim>\<open>createHashLock\<close>, the inline expression
  of \<^verbatim>\<open>executeSwap\<close>) returns \<^verbatim>\<open>HashLock.forMultipleFills(HashLock.getMerkleLeaves(secrets))\<close>
  when \<open>N > 1\<close>, and \<^verbatim>\<open>HashLock.forSingleFill\<close> of the first secret when \<open>N = 1\<close>.
\<close>

theorem createHashLock_single_or_merkle:
  "(1 < length secrets \<longrightarrow>
      SecretManager_createHashLock H secrets = forMultipleFills H (getMerkleLeaves H secrets)
    \<and> createHashLock H secrets = forMultipleFills H (getMerkleLeaves H secrets)
    \<and> executeSwap_hashLock H secrets = forMultipleFills H (getMerkleLeaves H secrets))
 \<and> (length secrets = 1 \<longrightarrow>
      SecretManager_createHashLock H secrets = forSingleFill H (Some (hd secrets))
    \<and> createHashLock H secrets = forSingleFill H (Some (hd secrets))
    \<and> executeSwap_hashLock H secrets = forSingleFill H (Some (hd secrets)))"
proof (intro conjI impI)
  assume "1 < length secrets"
  then show "SecretManager_createHashLock H secrets = forMultipleFills H (getMerkleLeaves H secrets)"
    and "createHashLock H secrets = forMultipleFills H (getMerkleLeaves H secrets)"
    and "executeSwap_hashLock H secrets = forMultipleFills H (getMerkleLeaves H secrets)"
    by (simp_all add: SecretManager_createHashLock_def createHashLock_def executeSwap_hashLock_def)
next
  assume one: "length secrets = 1"
  then have "secrets \<noteq> []" by auto
  then have "js_index secrets 0 = Some (hd secrets)" by (rule js_index_first)
  with one show "SecretManager_createHashLock H secrets = forSingleFill H (Some (hd secrets))"
    and "createHashLock H secrets = forSingleFill H (Some (hd secrets))"
    and "executeSwap_hashLock H secrets = forSingleFill H (Some (hd secrets))"
    by (simp_all add: SecretManager_createHashLock_def createHashLock_def executeSwap_hashLock_def)
qed

theorem createHashLock_single_or_merkle_witness:
  "SecretManager_createHashLock demo_HashLock [''0xaa'', ''0xbb''] = ''multi(L(0xaa)L(0xbb))''
   \<and> executeSwap_hashLock demo_HashLock [''0xaa'', ''0xbb''] = ''multi(L(0xaa)L(0xbb))''
   \<and> SecretManager_createHashLock demo_HashLock [''0xaa''] = ''single(0xaa)''
   \<and> executeSwap_hashLock demo_HashLock [''0xaa''] = ''single(0xaa)''"
proof -
  have two: "1 < length [''0xaa'', ''0xbb'']" and one: "length [''0xaa''] = 1" by simp_all
  from two createHashLock_single_or_merkle [of "[''0xaa'', ''0xbb'']" demo_HashLock]
  have m: "SecretManager_createHashLock demo_HashLock [''0xaa'', ''0xbb'']
             = forMultipleFills demo_HashLock (getMerkleLeaves demo_HashLock [''0xaa'', ''0xbb''])"
          "executeSwap_hashLock demo_HashLock [''0xaa'', ''0xbb'']
             = forMultipleFills demo_HashLock (getMerkleLeaves demo_HashLock [''0xaa'', ''0xbb''])"
    by blast+
  from one createHashLock_single_or_merkle [of "[''0xaa'']" demo_HashLock]
  have s: "SecretManager_createHashLock demo_HashLock [''0xaa'']
             = forSingleFill demo_HashLock (Some (hd [''0xaa'']))"
          "executeSwap_hashLock demo_HashLock [''0xaa'']
             = forSingleFill demo_HashLock (Some (hd [''0xaa'']))"
    by blast+
  show ?thesis unfolding m s by (simp add: demo_HashLock_def)
qed

text \<open>
  C9. On every non-empty list of secrets, \<^verbatim>\<open>SecretManager.createHashLock\<close> (which tests
  \<^verbatim>\<open>length > 1\<close>) and the inline construction of \<^verbatim>\<open>executeSwap\<close> (which tests
  \<^verbatim>\<open>length === 1\<close>) return the same hash-lock. On the empty list they take different
  branches: the first calls \<^verbatim>\<open>forSingleFill(undefined)\<close>, the second
  \<^verbatim>\<open>forMultipleFills(getMerkleLeaves([]))\<close>, and there are SDK functions for which the two
  results differ, so the restriction to non-empty lists cannot be dropped.
\<close>

theorem createHashLock_agrees_with_inline:
  "(secrets \<noteq> [] \<longrightarrow> SecretManager_createHashLock H secrets = executeSwap_hashLock H secrets)
   \<and> SecretManager_createHashLock H [] = forSingleFill H None
   \<and> executeSwap_hashLock H [] = forMultipleFills H (getMerkleLeaves H [])
   \<and> SecretManager_createHashLock demo_HashLock [] \<noteq> executeSwap_hashLock demo_HashLock []"
proof (intro conjI impI)
  assume ne: "secrets \<noteq> []"
  show "SecretManager_createHashLock H secrets = executeSwap_hashLock H secrets"
  proof (cases "length secrets = 1")
    case True
    then show ?thesis
      by (simp add: SecretManager_createHashLock_def executeSwap_hashLock_def)
  next
    case False
    with ne have "1 < length secrets" by (cases secrets) auto
    then show ?thesis
      by (simp add: SecretManager_createHashLock_def executeSwap_hashLock_def)
  qed
next
  show "SecretManager_createHashLock H [] = forSingleFill H None"
    by (simp add: SecretManager_createHashLock_def js_index_def)
  show "executeSwap_hashLock H [] = forMultipleFills H (getMerkleLeaves H [])"
    by (simp add: executeSwap_hashLock_def)
  show "SecretManager_createHashLock demo_HashLock [] \<noteq> executeSwap_hashLock demo_HashLock []"
    by (simp add: SecretManager_createHashLock_def executeSwap_hashLock_def js_index_def
        demo_HashLock_def)
qed

theorem createHashLock_agrees_with_inline_witness:
  "SecretManager_createHashLock demo_HashLock [''0xaa'', ''0xbb'', ''0xcc'']
     = executeSwap_hashLock demo_HashLock [''0xaa'', ''0xbb'', ''0xcc'']
   \<and> executeSwap_hashLock demo_HashLock [''0xaa''] = ''single(0xaa)''
   \<and> SecretManager_createHashLock demo_HashLock [''0xaa''] = ''single(0xaa)''"
proof -
  have three: "[''0xaa'', ''0xbb'', ''0xcc''] \<noteq> []" and one: "[''0xaa''] \<noteq> []" by simp_all
  from three createHashLock_agrees_with_inline [of "[''0xaa'', ''0xbb'', ''0xcc'']" demo_HashLock]
  have a: "SecretManager_createHashLock demo_HashLock [''0xaa'', ''0xbb'', ''0xcc'']
     = executeSwap_hashLock demo_HashLock [''0xaa'', ''0xbb'', ''0xcc'']"
    by blast
  from one createHashLock_agrees_with_inline [of "[''0xaa'']" demo_HashLock]
  have b: "SecretManager_createHashLock demo_HashLock [''0xaa'']
     = executeSwap_hashLock demo_HashLock [''0xaa'']"
    by blast
  have c: "executeSwap_hashLock demo_HashLock [''0xaa''] = ''single(0xaa)''"
    by (simp add: executeSwap_hashLock_def js_index_def demo_HashLock_def)
  from a b c show ?thesis by simp
qed

section \<open>Properties of the monitoring loops\<close>


lemma await_frame:
  assumes "await R c w = (r, w')"
  shows "secret_calls w' = secret_calls w" and "order_calls w' = order_calls w"
    and "quote_calls w' = quote_calls w" and "rng w' = rng w" and "clock w \<le> clock w'"
  using assms by (auto simp: await_def split: prod.splits)

lemma sleep_frame:
  "secret_calls (sleep ms w) = secret_calls w" "order_calls (sleep ms w) = order_calls w"
  "quote_calls (sleep ms w) = quote_calls w" "rng (sleep ms w) = rng w"
  "clock (sleep ms w) = clock w + ms"
  by (simp_all add: sleep_def)

lemma submitSecret_frame:
  assumes "submitSecret R h idx s w = (r, w')"
  shows "secret_calls w' = secret_calls w @ [\<lparr>sc_order = h, sc_idx = idx, sc_secret = s, sc_ok = (\<not> isl r)\<rparr>]"
    and "order_calls w' = order_calls w" and "quote_calls w' = quote_calls w" and "rng w' = rng w"
    and "clock w \<le> clock w'"
  using assms by (auto simp: submitSecret_def await_def split: prod.splits)

lemma once_per_index_snoc:
  "once_per_index (cs @ [c]) =
     (once_per_index cs \<and> list_all (\<lambda>d. sc_ok d \<longrightarrow> sc_idx c \<noteq> sc_idx d) cs)"
  by (induction cs) auto

lemma served_in_mono: "served_in sub cs \<Longrightarrow> served_in (insert idx sub) cs"
  by (induction cs) (auto simp: served_in_def)

lemma reveal_inv_call:
  assumes inv: "reveal_inv secrets sub cs" and fresh: "idx \<notin> sub"
  shows "reveal_inv secrets (if ok then insert idx sub else sub)
           (cs @ [\<lparr>sc_order = h, sc_idx = idx, sc_secret = js_index secrets idx, sc_ok = ok\<rparr>])"
proof -
  from inv have a: "reveals_own_secret secrets cs" and b: "once_per_index cs" and c: "served_in sub cs"
    by (simp_all add: reveal_inv_def)
  have "list_all (\<lambda>d. sc_ok d \<longrightarrow> idx \<noteq> sc_idx d) cs"
    using c fresh by (auto simp: served_in_def list_all_iff)
  with b have b': "once_per_index (cs @ [\<lparr>sc_order = h, sc_idx = idx, sc_secret = js_index secrets idx, sc_ok = ok\<rparr>])"
    by (simp add: once_per_index_snoc)
  from a have a': "reveals_own_secret secrets (cs @ [\<lparr>sc_order = h, sc_idx = idx, sc_secret = js_index secrets idx, sc_ok = ok\<rparr>])"
    by (simp add: reveals_own_secret_def)
  from c have c': "served_in (if ok then insert idx sub else sub)
       (cs @ [\<lparr>sc_order = h, sc_idx = idx, sc_secret = js_index secrets idx, sc_ok = ok\<rparr>])"
    by (auto simp: served_in_def list_all_iff)
  from a' b' c' show ?thesis by (simp add: reveal_inv_def)
qed

text \<open>A property of (set, record) kept by every guarded call is kept by the loops.\<close>

lemma service_fills_keep:
  assumes step: "\<And>sub cs idx ok. P sub cs \<Longrightarrow> idx \<notin> sub \<Longrightarrow> truthy (js_index secrets idx) \<Longrightarrow>
      P (if ok then insert idx sub else sub)
        (cs @ [\<lparr>sc_order = h, sc_idx = idx, sc_secret = js_index secrets idx, sc_ok = ok\<rparr>])"
  shows "P sub (secret_calls w) \<Longrightarrow> monitorAndCompleteSwap_fills R h secrets fills sub w = (sub', w')
     \<Longrightarrow> P sub' (secret_calls w')"
proof (induction fills arbitrary: sub w)
  case Nil
  then show ?case by simp
next
  case (Cons idx fills)
  show ?case
  proof (cases "idx \<notin> sub \<and> truthy (js_index secrets idx)")
    case False
    with Cons.prems Cons.IH [of sub w] show ?thesis by auto
  next
    case True
    obtain r w1 where c: "submitSecret R h idx (js_index secrets idx) w = (r, w1)" by fastforce
    have calls: "secret_calls w1 = secret_calls w @
        [\<lparr>sc_order = h, sc_idx = idx, sc_secret = js_index secrets idx, sc_ok = (\<not> isl r)\<rparr>]"
      by (rule submitSecret_frame(1) [OF c])
    have p1: "P (if \<not> isl r then insert idx sub else sub) (secret_calls w1)"
      unfolding calls using Cons.prems(1) True by (intro step) simp_all
    show ?thesis
    proof (cases r)
      case (Inl t)
      with p1 have "P sub (secret_calls w1)" by simp
      moreover from Cons.prems(2) True c Inl
      have "monitorAndCompleteSwap_fills R h secrets fills sub w1 = (sub', w')" by simp
      ultimately show ?thesis by (rule Cons.IH)
    next
      case (Inr u)
      with p1 have "P (insert idx sub) (secret_calls w1)" by simp
      moreover from Cons.prems(2) True c Inr
      have "monitorAndCompleteSwap_fills R h secrets fills (insert idx sub) w1 = (sub', w')" by simp
      ultimately show ?thesis by (rule Cons.IH)
    qed
  qed
qed

lemma script_fills_keep:
  assumes step: "\<And>sub cs idx ok. P sub cs \<Longrightarrow> idx \<notin> sub \<Longrightarrow>
      P (if ok then insert idx sub else sub)
        (cs @ [\<lparr>sc_order = h, sc_idx = idx, sc_secret = js_index secrets idx, sc_ok = ok\<rparr>])"
  shows "P sub (secret_calls w) \<Longrightarrow> monitorAndSubmitSecrets_fills R h secrets fills sub w = (sub', w')
     \<Longrightarrow> P sub' (secret_calls w')"
proof (induction fills arbitrary: sub w)
  case Nil
  then show ?case by simp
next
  case (Cons idx fills)
  show ?case
  proof (cases "idx \<notin> sub")
    case False
    with Cons.prems Cons.IH [of sub w] show ?thesis by auto
  next
    case True
    obtain r w1 where c: "submitSecret R h idx (js_index secrets idx) w = (r, w1)" by fastforce
    have calls: "secret_calls w1 = secret_calls w @
        [\<lparr>sc_order = h, sc_idx = idx, sc_secret = js_index secrets idx, sc_ok = (\<not> isl r)\<rparr>]"
      by (rule submitSecret_frame(1) [OF c])
    have p1: "P (if \<not> isl r then insert idx sub else sub) (secret_calls w1)"
      unfolding calls using Cons.prems(1) True by (intro step) simp_all
    show ?thesis
    proof (cases r)
      case (Inl t)
      with p1 have "P sub (secret_calls w1)" by simp
      moreover from Cons.prems(2) True c Inl
      have "monitorAndSubmitSecrets_fills R h secrets fills sub w1 = (sub', w')" by simp
      ultimately show ?thesis by (rule Cons.IH)
    next
      case (Inr u)
      with p1 have "P (insert idx sub) (secret_calls w1)" by simp
      moreover from Cons.prems(2) True c Inr
      have "monitorAndSubmitSecrets_fills R h secrets fills (insert idx sub) w1 = (sub', w')" by simp
      ultimately show ?thesis by (rule Cons.IH)
    qed
  qed
qed


lemma service_pass_return:
  "monitorAndCompleteSwap_pass R h secrets sub w = (Return r, w') \<Longrightarrow> secret_calls w' = secret_calls w"
  by (auto simp: monitorAndCompleteSwap_pass_def split: prod.splits sum.splits if_splits option.splits
      dest: await_frame(1))

lemma service_pass_keep:
  assumes step: "\<And>sub cs idx ok. P sub cs \<Longrightarrow> idx \<notin> sub \<Longrightarrow> truthy (js_index secrets idx) \<Longrightarrow>
      P (if ok then insert idx sub else sub)
        (cs @ [\<lparr>sc_order = h, sc_idx = idx, sc_secret = js_index secrets idx, sc_ok = ok\<rparr>])"
    and inv: "P sub (secret_calls w)"
    and run: "monitorAndCompleteSwap_pass R h secrets sub w = (Next sub', w')"
  shows "P sub' (secret_calls w')"
proof -
  obtain st w1 where a: "await R (sdk_getOrderStatus R h) w = (st, w1)" by fastforce
  have c1: "secret_calls w1 = secret_calls w" by (rule await_frame(1) [OF a])
  show ?thesis
  proof (cases st)
    case (Inl t)
    with a run have "sub' = sub" "w' = sleep 5000 w1"
      by (simp_all add: monitorAndCompleteSwap_pass_def)
    with inv c1 show ?thesis by (simp add: sleep_frame)
  next
    case (Inr status)
    obtain rd w2 where b: "await R (sdk_getReadyToAcceptSecretFills R h) w1 = (rd, w2)" by fastforce
    have c2: "secret_calls w2 = secret_calls w" using await_frame(1) [OF b] c1 by simp
    from run a Inr have ne: "status \<noteq> ''executed''"
      by (auto simp: monitorAndCompleteSwap_pass_def)
    show ?thesis
    proof (cases rd)
      case (Inl t)
      with a b run Inr ne have "sub' = sub" "w' = sleep 5000 w2"
        by (simp_all add: monitorAndCompleteSwap_pass_def)
      with inv c2 show ?thesis by (simp add: sleep_frame)
    next
      case rdy: (Inr ready)
      show ?thesis
      proof (cases "\<exists>fills. ready = Some fills \<and> 0 < length fills")
        case False
        with a b run Inr ne rdy have "sub' = sub" "w' = sleep 5000 w2"
          by (auto simp: monitorAndCompleteSwap_pass_def split: option.splits)
        with inv c2 show ?thesis by (simp add: sleep_frame)
      next
        case True
        then obtain fills where f: "ready = Some fills" "0 < length fills" by blast
        obtain s3 w3 where c: "monitorAndCompleteSwap_fills R h secrets fills sub w2 = (s3, w3)"
          by fastforce
        from inv c2 have "P sub (secret_calls w2)" by simp
        then have pre: "P sub (secret_calls w2)" .
        have "P s3 (secret_calls w3)"
        proof (rule service_fills_keep [where P = P and h = h and secrets = secrets])
          show "P sub (secret_calls w2)" by (rule pre)
          show "monitorAndCompleteSwap_fills R h secrets fills sub w2 = (s3, w3)" by (rule c)
        qed (rule step)
        moreover from a b run Inr ne rdy f c have "sub' = s3" "w' = sleep 5000 w3"
          by (simp_all add: monitorAndCompleteSwap_pass_def)
        ultimately show ?thesis by (simp add: sleep_frame)
      qed
    qed
  qed
qed

lemma service_loop_unfold:
  "monitorAndCompleteSwap_loop R h secrets start sub w =
     (if clock w - start < maxWaitTime then
        (case monitorAndCompleteSwap_pass R h secrets sub w of
           (Return result, w') \<Rightarrow> (Inr result, w')
         | (Next sub', w') \<Rightarrow> monitorAndCompleteSwap_loop R h secrets start sub' w')
      else (Inl (Error_obj ''Monitoring timed out after 10 minutes'' None), w))"
  by (rule monitorAndCompleteSwap_loop.simps)

lemma service_loop_keep:
  "(\<And>sub cs idx ok. P sub cs \<Longrightarrow> idx \<notin> sub \<Longrightarrow> truthy (js_index secrets idx) \<Longrightarrow>
      P (if ok then insert idx sub else sub)
        (cs @ [\<lparr>sc_order = h, sc_idx = idx, sc_secret = js_index secrets idx, sc_ok = ok\<rparr>]))
   \<Longrightarrow> P sub (secret_calls w) \<Longrightarrow> monitorAndCompleteSwap_loop R h secrets start sub w = (r, w')
   \<Longrightarrow> \<exists>sub'. P sub' (secret_calls w')"
proof (induction R h secrets start sub w rule: monitorAndCompleteSwap_loop.induct)
  case (1 R h secrets start sub w)
  note step = "1.prems"(1) and inv = "1.prems"(2) and run = "1.prems"(3)
  show ?case
  proof (cases "clock w - start < maxWaitTime")
    case False
    with run have "w' = w" by (simp add: service_loop_unfold [of R h secrets start sub w])
    with inv show ?thesis by blast
  next
    case True
    obtain res w1 where p: "monitorAndCompleteSwap_pass R h secrets sub w = (res, w1)" by fastforce
    show ?thesis
    proof (cases res)
      case (Return x)
      with True p run have "w' = w1"
        by (simp add: service_loop_unfold [of R h secrets start sub w])
      moreover have "secret_calls w1 = secret_calls w"
        using p Return by (simp add: service_pass_return)
      ultimately show ?thesis using inv by auto
    next
      case (Next sub1)
      have inv1: "P sub1 (secret_calls w1)"
      proof (rule service_pass_keep [where P = P and h = h and secrets = secrets])
        show "P sub (secret_calls w)" by (rule inv)
        show "monitorAndCompleteSwap_pass R h secrets sub w = (Next sub1, w1)"
          using p Next by simp
      qed (rule step)
      from True p Next run
      have run1: "monitorAndCompleteSwap_loop R h secrets start sub1 w1 = (r, w')"
        by (simp add: service_loop_unfold [of R h secrets start sub w])
      show ?thesis
        by (rule "1.IH" [OF True p [symmetric] Next step inv1 run1])
    qed
  qed
qed


lemma script_ready_keep:
  assumes step: "\<And>sub cs idx ok. P sub cs \<Longrightarrow> idx \<notin> sub \<Longrightarrow>
      P (if ok then insert idx sub else sub)
        (cs @ [\<lparr>sc_order = h, sc_idx = idx, sc_secret = js_index secrets idx, sc_ok = ok\<rparr>])"
    and inv: "P sub (secret_calls w)"
    and run: "monitorAndSubmitSecrets_fills R h secrets idxes sub w = (sub', w')"
  shows "P sub' (secret_calls (sleep ms w'))"
proof -
  have "P sub' (secret_calls w')"
  proof (rule script_fills_keep [where P = P and h = h and secrets = secrets])
    show "P sub (secret_calls w)" by (rule inv)
    show "monitorAndSubmitSecrets_fills R h secrets idxes sub w = (sub', w')" by (rule run)
  qed (rule step)
  then show ?thesis by (simp add: sleep_frame)
qed

lemma EvmToSol_pass_keep:
  assumes step: "\<And>sub cs idx ok. P sub cs \<Longrightarrow> idx \<notin> sub \<Longrightarrow>
      P (if ok then insert idx sub else sub)
        (cs @ [\<lparr>sc_order = h, sc_idx = idx, sc_secret = js_index secrets idx, sc_ok = ok\<rparr>])"
    and inv: "P sub (secret_calls w)"
    and run: "EvmToSol_monitor_pass R h secrets sub w = (res, w')"
  shows "P (case res of Return u \<Rightarrow> sub | Next sub' \<Rightarrow> sub') (secret_calls w')"
proof -
  obtain st w1 where a: "await R (sdk_getOrderStatus R h) w = (st, w1)" by fastforce
  have c1: "secret_calls w1 = secret_calls w" by (rule await_frame(1) [OF a])
  show ?thesis
  proof (cases "st = Inr ''executed''")
    case True
    with a run have "res = Return ()" "w' = w1" by (simp_all add: EvmToSol_monitor_pass_def)
    with inv c1 show ?thesis by simp
  next
    case False
    obtain rd w2 where b: "await R (sdk_getReadyToAcceptSecretFills R h) w1 = (rd, w2)" by fastforce
    have c2: "secret_calls w2 = secret_calls w" using await_frame(1) [OF b] c1 by simp
    show ?thesis
    proof (cases "\<exists>idxes. rd = Inr (Some idxes)")
      case no: False
      with a b run False have "res = Next sub" "w' = sleep pollInterval w2"
        by (auto simp: EvmToSol_monitor_pass_def split: sum.splits option.splits)
      with inv c2 show ?thesis by (simp add: sleep_frame)
    next
      case True
      then obtain idxes where f: "rd = Inr (Some idxes)" by blast
      obtain s3 w3 where c: "monitorAndSubmitSecrets_fills R h secrets idxes sub w2 = (s3, w3)"
        by fastforce
      from inv c2 have pre: "P sub (secret_calls w2)" by simp
      have "P s3 (secret_calls (sleep pollInterval w3))"
        by (rule script_ready_keep [where P = P and h = h and secrets = secrets, OF step pre c])
      moreover from a b run False f c have "res = Next s3" "w' = sleep pollInterval w3"
        by (simp_all add: EvmToSol_monitor_pass_def)
      ultimately show ?thesis by simp
    qed
  qed
qed

lemma EvmToSol_loop_keep:
  assumes step: "\<And>sub cs idx ok. P sub cs \<Longrightarrow> idx \<notin> sub \<Longrightarrow>
      P (if ok then insert idx sub else sub)
        (cs @ [\<lparr>sc_order = h, sc_idx = idx, sc_secret = js_index secrets idx, sc_ok = ok\<rparr>])"
  shows "P sub (secret_calls w) \<Longrightarrow> EvmToSol_monitor_loop fuel R h secrets sub w = (r, w')
     \<Longrightarrow> \<exists>sub'. P sub' (secret_calls w')"
proof (induction fuel arbitrary: sub w)
  case 0
  then show ?case by auto
next
  case (Suc fuel)
  obtain res w1 where p: "EvmToSol_monitor_pass R h secrets sub w = (res, w1)" by fastforce
  have k: "P (case res of Return u \<Rightarrow> sub | Next sub' \<Rightarrow> sub') (secret_calls w1)"
    by (rule EvmToSol_pass_keep [where P = P and h = h and secrets = secrets, OF step Suc.prems(1) p])
  show ?case
  proof (cases res)
    case (Return u)
    with p Suc.prems(2) have "w' = w1" by simp
    with k Return show ?thesis by auto
  next
    case (Next sub1)
    with k have "P sub1 (secret_calls w1)" by simp
    moreover from p Next Suc.prems(2)
    have "EvmToSol_monitor_loop fuel R h secrets sub1 w1 = (r, w')" by simp
    ultimately show ?thesis by (rule Suc.IH)
  qed
qed

lemma SolToEvm_pass_keep:
  assumes step: "\<And>sub cs idx ok. P sub cs \<Longrightarrow> idx \<notin> sub \<Longrightarrow>
      P (if ok then insert idx sub else sub)
        (cs @ [\<lparr>sc_order = h, sc_idx = idx, sc_secret = js_index secrets idx, sc_ok = ok\<rparr>])"
    and inv: "P sub (secret_calls w)"
    and run: "SolToEvm_monitor_pass R h secrets sub w = (res, w')"
  shows "P (case res of Return u \<Rightarrow> sub | Next sub' \<Rightarrow> sub') (secret_calls w')"
proof -
  obtain st w1 where a: "await R (sdk_getOrderStatus R h) w = (st, w1)" by fastforce
  have c1: "secret_calls w1 = secret_calls w" by (rule await_frame(1) [OF a])
  show ?thesis
  proof (cases "st = Inr ''executed'' \<or> st = Inr ''expired'' \<or> st = Inr ''cancelled''")
    case True
    with a run have "\<exists>u. res = Return u" "w' = w1"
      by (auto simp: SolToEvm_monitor_pass_def)
    with inv c1 show ?thesis by auto
  next
    case False
    obtain rd w2 where b: "await R (sdk_getReadyToAcceptSecretFills R h) w1 = (rd, w2)" by fastforce
    have c2: "secret_calls w2 = secret_calls w" using await_frame(1) [OF b] c1 by simp
    show ?thesis
    proof (cases "\<exists>idxes. rd = Inr (Some idxes) \<and> 0 < length idxes")
      case no: False
      with a b run False have "res = Next sub" "w' = sleep pollInterval w2"
        by (auto simp: SolToEvm_monitor_pass_def split: sum.splits option.splits)
      with inv c2 show ?thesis by (simp add: sleep_frame)
    next
      case True
      then obtain idxes where f: "rd = Inr (Some idxes)" "0 < length idxes" by blast
      obtain s3 w3 where c: "monitorAndSubmitSecrets_fills R h secrets idxes sub w2 = (s3, w3)"
        by fastforce
      from inv c2 have pre: "P sub (secret_calls w2)" by simp
      have "P s3 (secret_calls (sleep pollInterval w3))"
        by (rule script_ready_keep [where P = P and h = h and secrets = secrets, OF step pre c])
      moreover from a b run False f c have "res = Next s3" "w' = sleep pollInterval w3"
        by (simp_all add: SolToEvm_monitor_pass_def)
      ultimately show ?thesis by simp
    qed
  qed
qed

lemma SolToEvm_loop_unfold:
  "SolToEvm_monitor_loop R h secrets attempts shared w =
     (if attempts < maxAttempts then
        (case SolToEvm_monitor_pass R h secrets shared w of
           (Return exit, w') \<Rightarrow> (exit, w')
         | (Next shared', w') \<Rightarrow> SolToEvm_monitor_loop R h secrets (attempts + 1) shared' w')
      else (Timeout_reached, w))"
  by (rule SolToEvm_monitor_loop.simps)

lemma SolToEvm_loop_keep:
  "(\<And>sub cs idx ok. P sub cs \<Longrightarrow> idx \<notin> sub \<Longrightarrow>
      P (if ok then insert idx sub else sub)
        (cs @ [\<lparr>sc_order = h, sc_idx = idx, sc_secret = js_index secrets idx, sc_ok = ok\<rparr>]))
   \<Longrightarrow> P sub (secret_calls w) \<Longrightarrow> SolToEvm_monitor_loop R h secrets attempts sub w = (r, w')
   \<Longrightarrow> \<exists>sub'. P sub' (secret_calls w')"
proof (induction R h secrets attempts sub w rule: SolToEvm_monitor_loop.induct)
  case (1 R h secrets attempts sub w)
  note step = "1.prems"(1) and inv = "1.prems"(2) and run = "1.prems"(3)
  show ?case
  proof (cases "attempts < maxAttempts")
    case False
    with run have "w' = w" by (simp add: SolToEvm_loop_unfold [of R h secrets attempts sub w])
    with inv show ?thesis by blast
  next
    case True
    obtain res w1 where p: "SolToEvm_monitor_pass R h secrets sub w = (res, w1)" by fastforce
    have k: "P (case res of Return u \<Rightarrow> sub | Next sub' \<Rightarrow> sub') (secret_calls w1)"
    proof (rule SolToEvm_pass_keep [where P = P and h = h and secrets = secrets])
      show "P sub (secret_calls w)" by (rule inv)
      show "SolToEvm_monitor_pass R h secrets sub w = (res, w1)" by (rule p)
    qed (rule step)
    show ?thesis
    proof (cases res)
      case (Return x)
      with True p run have "w' = w1"
        by (simp add: SolToEvm_loop_unfold [of R h secrets attempts sub w])
      with k Return show ?thesis by auto
    next
      case (Next sub1)
      with k have inv1: "P sub1 (secret_calls w1)" by simp
      from True p Next run
      have run1: "SolToEvm_monitor_loop R h secrets (attempts + 1) sub1 w1 = (r, w')"
        by (simp add: SolToEvm_loop_unfold [of R h secrets attempts sub w])
      show ?thesis
        by (rule "1.IH" [OF True p [symmetric] Next step inv1 run1])
    qed
  qed
qed


lemma once_per_index_nth:
  "once_per_index cs \<Longrightarrow> j < length cs \<Longrightarrow> i < j \<Longrightarrow> sc_ok (cs ! i) \<Longrightarrow> sc_idx (cs ! j) \<noteq> sc_idx (cs ! i)"
proof (induction cs arbitrary: i j)
  case Nil
  then show ?case by simp
next
  case (Cons c cs)
  from Cons.prems(2,3) obtain j' where j: "j = Suc j'" "j' < length cs" by (cases j) auto
  show ?case
  proof (cases i)
    case 0
    with Cons.prems(1,4) have "list_all (\<lambda>d. sc_idx d \<noteq> sc_idx c) cs" by simp
    with j have "sc_idx (cs ! j') \<noteq> sc_idx c" by (simp add: list_all_length)
    with 0 j show ?thesis by simp
  next
    case (Suc i')
    with Cons.prems j have "sc_idx (cs ! j') \<noteq> sc_idx (cs ! i')"
      by (intro Cons.IH) auto
    with Suc j show ?thesis by simp
  qed
qed

lemma reveal_inv_start: "reveal_inv secrets {} []"
  by (simp add: reveal_inv_def reveals_own_secret_def served_in_def)

lemma service_monitor_keep:
  assumes step: "\<And>sub cs idx ok. P sub cs \<Longrightarrow> idx \<notin> sub \<Longrightarrow> truthy (js_index secrets idx) \<Longrightarrow>
      P (if ok then insert idx sub else sub)
        (cs @ [\<lparr>sc_order = h, sc_idx = idx, sc_secret = js_index secrets idx, sc_ok = ok\<rparr>])"
    and inv: "P {} (secret_calls w)"
  shows "\<exists>sub'. P sub' (secret_calls (snd (monitorAndCompleteSwap R penv h secrets chain w)))"
proof (cases "getSDKWithSigner R penv chain")
  case (Inl t)
  then have "snd (monitorAndCompleteSwap R penv h secrets chain w) = w"
    by (cases t) (simp_all add: monitorAndCompleteSwap_def)
  with inv show ?thesis by auto
next
  case (Inr u)
  obtain r w' where l: "monitorAndCompleteSwap_loop R h secrets (clock w) {} w = (r, w')"
    by fastforce
  have "\<exists>sub'. P sub' (secret_calls w')"
  proof (rule service_loop_keep [where P = P and h = h and secrets = secrets])
    show "P {} (secret_calls w)" by (rule inv)
    show "monitorAndCompleteSwap_loop R h secrets (clock w) {} w = (r, w')" by (rule l)
  qed (rule step)
  moreover have "snd (monitorAndCompleteSwap R penv h secrets chain w) = w'"
    using Inr l by (auto simp: monitorAndCompleteSwap_def split: sum.splits thrown.splits)
  ultimately show ?thesis by simp
qed

lemma service_monitor_inv:
  "secret_calls w = [] \<Longrightarrow>
   \<exists>sub. reveal_inv secrets sub (secret_calls (snd (monitorAndCompleteSwap R penv h secrets chain w)))"
  by (rule service_monitor_keep [where P = "reveal_inv secrets"])
     (simp_all add: reveal_inv_call reveal_inv_start)

lemma EvmToSol_monitor_inv:
  "secret_calls w = [] \<Longrightarrow>
   \<exists>sub. reveal_inv secrets sub (secret_calls (snd (EvmToSol_monitorAndSubmitSecrets fuel R h secrets w)))"
proof -
  assume e: "secret_calls w = []"
  obtain r w' where l: "EvmToSol_monitor_loop fuel R h secrets {} w = (r, w')" by fastforce
  have "\<exists>sub'. reveal_inv secrets sub' (secret_calls w')"
  proof (rule EvmToSol_loop_keep [where P = "reveal_inv secrets" and h = h and secrets = secrets])
    show "reveal_inv secrets {} (secret_calls w)" by (simp add: e reveal_inv_start)
    show "EvmToSol_monitor_loop fuel R h secrets {} w = (r, w')" by (rule l)
  qed (rule reveal_inv_call)
  with l show ?thesis by (simp add: EvmToSol_monitorAndSubmitSecrets_def)
qed

lemma SolToEvm_monitor_inv:
  "secret_calls w = [] \<Longrightarrow>
   \<exists>sub. reveal_inv secrets sub (secret_calls (snd (SolToEvm_monitorAndSubmitSecrets R h secrets w)))"
proof -
  assume e: "secret_calls w = []"
  obtain r w' where l: "SolToEvm_monitor_loop R h secrets 0 {} (sleep pollInterval w) = (r, w')"
    by fastforce
  have "\<exists>sub'. reveal_inv secrets sub' (secret_calls w')"
  proof (rule SolToEvm_loop_keep [where P = "reveal_inv secrets" and h = h and secrets = secrets])
    show "reveal_inv secrets {} (secret_calls (sleep pollInterval w))"
      by (simp add: e reveal_inv_start sleep_frame)
    show "SolToEvm_monitor_loop R h secrets 0 {} (sleep pollInterval w) = (r, w')" by (rule l)
  qed (rule reveal_inv_call)
  with l show ?thesis by (simp add: SolToEvm_monitorAndSubmitSecrets_def)
qed

lemma reveal_inv_explicit:
  assumes "reveal_inv secrets sub cs"
  shows "(\<forall>c \<in> set cs. sc_secret c = js_index secrets (sc_idx c))
       \<and> (\<forall>j < length cs. \<forall>i < j. sc_ok (cs ! i) \<longrightarrow> sc_idx (cs ! j) \<noteq> sc_idx (cs ! i))"
  using assms once_per_index_nth [of cs]
  by (auto simp: reveal_inv_def reveals_own_secret_def list_all_iff)

text \<open>
  C1. In a run of any of the three monitoring loops (\<^verbatim>\<open>monitorAndCompleteSwap\<close> of the
  service, \<^verbatim>\<open>monitorAndSubmitSecrets\<close> of either script) that starts with an empty
  record, every call of \<^verbatim>\<open>submitSecret\<close> passes \<^verbatim>\<open>secrets[idx]\<close> for the fill index
  \<open>idx\<close> it serves, and after a call for an index has resolved no later call of the run
  serves that index again. For the loop of part_000 this holds of the record after any
  number of passes.
\<close>

theorem secret_revealed_once_per_index:
  assumes "secret_calls w = []"
  shows "\<forall>cs \<in> {secret_calls (snd (monitorAndCompleteSwap R penv orderHash secrets srcChainId w)),
                 secret_calls (snd (EvmToSol_monitorAndSubmitSecrets fuel R orderHash secrets w)),
                 secret_calls (snd (SolToEvm_monitorAndSubmitSecrets R orderHash secrets w))}.
           (\<forall>c \<in> set cs. sc_secret c = js_index secrets (sc_idx c))
         \<and> (\<forall>j < length cs. \<forall>i < j. sc_ok (cs ! i) \<longrightarrow> sc_idx (cs ! j) \<noteq> sc_idx (cs ! i))"
  using service_monitor_inv [OF assms, of secrets R penv orderHash srcChainId]
    EvmToSol_monitor_inv [OF assms, of secrets fuel R orderHash]
    SolToEvm_monitor_inv [OF assms, of secrets R orderHash]
  by (auto dest!: reveal_inv_explicit)

theorem secret_revealed_once_per_index_witness:
  "secret_calls demo_world = []
   \<and> map (\<lambda>c. (sc_idx c, sc_secret c, sc_ok c))
       (secret_calls (snd (monitorAndCompleteSwap demo_relayer demo_process_env ''0xorder''
          [''0xaa'', ''0xbb''] (Some (JNum 1)) demo_world)))
     = [(0, Some ''0xaa'', False), (1, Some ''0xbb'', True), (0, Some ''0xaa'', True)]
   \<and> map (\<lambda>c. (sc_idx c, sc_secret c, sc_ok c))
       (secret_calls (snd (EvmToSol_monitorAndSubmitSecrets 5 demo_relayer ''0xorder''
          [''0xaa'', ''0xbb''] demo_world)))
     = [(0, Some ''0xaa'', False), (1, Some ''0xbb'', True), (0, Some ''0xaa'', True), (7, None, True)]
   \<and> map (\<lambda>c. (sc_idx c, sc_secret c, sc_ok c))
       (secret_calls (snd (SolToEvm_monitorAndSubmitSecrets demo_relayer ''0xorder''
          [''0xaa'', ''0xbb''] demo_world)))
     = [(0, Some ''0xaa'', False), (1, Some ''0xbb'', True), (0, Some ''0xaa'', True), (7, None, True)]"
proof -
  have fresh: "secret_calls demo_world = []" by (simp add: demo_world_def)
  have five: "EvmToSol_monitor_loop 5 = EvmToSol_monitor_loop (Suc (Suc (Suc (Suc (Suc 0)))))"
    by (simp add: numeral_eq_Suc)
  note run = secret_revealed_once_per_index [OF fresh, of demo_relayer demo_process_env "''0xorder''"
      "[''0xaa'', ''0xbb'']" "Some (JNum 1)" 5]
  have a: "map (\<lambda>c. (sc_idx c, sc_secret c, sc_ok c))
       (secret_calls (snd (monitorAndCompleteSwap demo_relayer demo_process_env ''0xorder''
          [''0xaa'', ''0xbb''] (Some (JNum 1)) demo_world)))
     = [(0, Some ''0xaa'', False), (1, Some ''0xbb'', True), (0, Some ''0xaa'', True)]"
    by (simp add: monitorAndCompleteSwap_def getSDKWithSigner_def env_missing_def
        demo_process_env_def demo_relayer_def demo_world_def service_loop_unfold
        monitorAndCompleteSwap_pass_def await_def sleep_def submitSecret_def maxWaitTime_def
        js_index_def truthy_def)
  have b: "map (\<lambda>c. (sc_idx c, sc_secret c, sc_ok c))
       (secret_calls (snd (EvmToSol_monitorAndSubmitSecrets 5 demo_relayer ''0xorder''
          [''0xaa'', ''0xbb''] demo_world)))
     = [(0, Some ''0xaa'', False), (1, Some ''0xbb'', True), (0, Some ''0xaa'', True), (7, None, True)]"
    by (simp add: EvmToSol_monitorAndSubmitSecrets_def five EvmToSol_monitor_pass_def
        demo_relayer_def demo_world_def await_def sleep_def submitSecret_def js_index_def
        pollInterval_def)
  have c: "map (\<lambda>c. (sc_idx c, sc_secret c, sc_ok c))
       (secret_calls (snd (SolToEvm_monitorAndSubmitSecrets demo_relayer ''0xorder''
          [''0xaa'', ''0xbb''] demo_world)))
     = [(0, Some ''0xaa'', False), (1, Some ''0xbb'', True), (0, Some ''0xaa'', True), (7, None, True)]"
    by (simp add: SolToEvm_monitorAndSubmitSecrets_def SolToEvm_loop_unfold SolToEvm_monitor_pass_def
        demo_relayer_def demo_world_def await_def sleep_def submitSecret_def js_index_def
        pollInterval_def maxAttempts_def)
  from run fresh a b c show ?thesis by simp
qed

lemma defined_call:
  assumes "list_all (\<lambda>c. truthy (sc_secret c) \<and> sc_secret c = js_index secrets (sc_idx c)) cs"
    and "truthy (js_index secrets idx)"
  shows "list_all (\<lambda>c. truthy (sc_secret c) \<and> sc_secret c = js_index secrets (sc_idx c))
           (cs @ [\<lparr>sc_order = h, sc_idx = idx, sc_secret = js_index secrets idx, sc_ok = ok\<rparr>])"
  using assms by simp

lemma truthy_js_index:
  assumes "truthy (js_index xs i)"
  shows "0 \<le> i \<and> i < int (length xs) \<and> js_index xs i = Some (xs ! nat i) \<and> xs ! nat i \<noteq> []"
  using assms by (auto simp: truthy_def js_index_def split: if_splits)

text \<open>
  C10. In a run of \<^verbatim>\<open>FusionService.monitorAndCompleteSwap\<close> that starts with an empty
  record, every call of \<^verbatim>\<open>submitSecret\<close> serves an index inside \<open>[0, secrets.length)\<close> and
  passes the secret stored there, which is a non-empty string: no call is made for a fill
  whose index has no secret, and \<^verbatim>\<open>undefined\<close> is never passed.
\<close>

theorem monitorAndCompleteSwap_reveals_only_defined:
  assumes "secret_calls w = []"
  shows "\<forall>c \<in> set (secret_calls (snd (monitorAndCompleteSwap R penv orderHash secrets srcChainId w))).
           0 \<le> sc_idx c \<and> sc_idx c < int (length secrets)
         \<and> sc_secret c = Some (secrets ! nat (sc_idx c)) \<and> sc_secret c \<noteq> None
         \<and> secrets ! nat (sc_idx c) \<noteq> []"
proof -
  let ?P = "\<lambda>(sub :: int set) cs.
      list_all (\<lambda>c. truthy (sc_secret c) \<and> sc_secret c = js_index secrets (sc_idx c)) cs"
  have "\<exists>sub. ?P sub (secret_calls (snd (monitorAndCompleteSwap R penv orderHash secrets srcChainId w)))"
    by (rule service_monitor_keep [where P = ?P]) (simp_all add: assms)
  then have all: "\<forall>c \<in> set (secret_calls (snd (monitorAndCompleteSwap R penv orderHash secrets srcChainId w))).
      truthy (sc_secret c) \<and> sc_secret c = js_index secrets (sc_idx c)"
    unfolding list_all_iff by blast
  show ?thesis
  proof
    fix c
    assume "c \<in> set (secret_calls (snd (monitorAndCompleteSwap R penv orderHash secrets srcChainId w)))"
    with all have t: "truthy (sc_secret c)" and e: "sc_secret c = js_index secrets (sc_idx c)"
      by blast+
    from t e have "truthy (js_index secrets (sc_idx c))" by simp
    from truthy_js_index [OF this] e
    show "0 \<le> sc_idx c \<and> sc_idx c < int (length secrets)
         \<and> sc_secret c = Some (secrets ! nat (sc_idx c)) \<and> sc_secret c \<noteq> None
         \<and> secrets ! nat (sc_idx c) \<noteq> []"
      by simp
  qed
qed

theorem monitorAndCompleteSwap_reveals_only_defined_witness:
  "secret_calls demo_world = []
   \<and> map sc_idx (secret_calls (snd (monitorAndCompleteSwap demo_relayer demo_process_env ''0xorder''
          [''0xaa'', ''0xbb''] (Some (JNum 1)) demo_world))) = [0, 1, 0]
   \<and> list_all (\<lambda>c. sc_secret c \<noteq> None)
       (secret_calls (snd (monitorAndCompleteSwap demo_relayer demo_process_env ''0xorder''
          [''0xaa'', ''0xbb''] (Some (JNum 1)) demo_world)))"
proof -
  have fresh: "secret_calls demo_world = []" by (simp add: demo_world_def)
  from monitorAndCompleteSwap_reveals_only_defined [OF fresh, of demo_relayer demo_process_env
      "''0xorder''" "[''0xaa'', ''0xbb'']" "Some (JNum 1)"]
  have d: "list_all (\<lambda>c. sc_secret c \<noteq> None)
       (secret_calls (snd (monitorAndCompleteSwap demo_relayer demo_process_env ''0xorder''
          [''0xaa'', ''0xbb''] (Some (JNum 1)) demo_world)))"
    by (simp add: list_all_iff)
  have a: "map sc_idx (secret_calls (snd (monitorAndCompleteSwap demo_relayer demo_process_env ''0xorder''
          [''0xaa'', ''0xbb''] (Some (JNum 1)) demo_world))) = [0, 1, 0]"
    by (simp add: monitorAndCompleteSwap_def getSDKWithSigner_def env_missing_def
        demo_process_env_def demo_relayer_def demo_world_def service_loop_unfold
        monitorAndCompleteSwap_pass_def await_def sleep_def submitSecret_def maxWaitTime_def
        js_index_def truthy_def)
  from fresh a d show ?thesis by simp
qed

section \<open>An order that never executes\<close>


lemma EvmToSol_stalled_pass:
  "status \<noteq> ''executed'' \<Longrightarrow>
   \<exists>w'. EvmToSol_monitor_pass (stalled_relayer status) h secrets sub w = (Next sub, w')"
  by (simp add: EvmToSol_monitor_pass_def stalled_relayer_def await_def)

lemma EvmToSol_stalled_loop:
  "status \<noteq> ''executed'' \<Longrightarrow>
   fst (EvmToSol_monitor_loop fuel (stalled_relayer status) h secrets sub w) = None"
proof (induction fuel arbitrary: w)
  case 0
  show ?case by simp
next
  case (Suc fuel)
  from EvmToSol_stalled_pass [OF Suc.prems, of h secrets sub w]
  obtain w' where "EvmToSol_monitor_pass (stalled_relayer status) h secrets sub w = (Next sub, w')"
    by blast
  then show ?case using Suc.IH [OF Suc.prems, of w'] by simp
qed

lemma SolToEvm_stalled_pass:
  "status \<notin> {''executed'', ''expired'', ''cancelled''} \<Longrightarrow>
   \<exists>w'. SolToEvm_monitor_pass (stalled_relayer status) h secrets sub w = (Next sub, w')"
  by (simp add: SolToEvm_monitor_pass_def stalled_relayer_def await_def)

lemma SolToEvm_stalled_loop:
  "R = stalled_relayer status \<Longrightarrow> status \<notin> {''executed'', ''expired'', ''cancelled''} \<Longrightarrow>
   fst (SolToEvm_monitor_loop R h secrets attempts sub w) = Timeout_reached"
proof (induction R h secrets attempts sub w rule: SolToEvm_monitor_loop.induct)
  case (1 R h secrets attempts sub w)
  show ?case
  proof (cases "attempts < maxAttempts")
    case False
    then show ?thesis by (simp add: SolToEvm_loop_unfold [of R h secrets attempts sub w])
  next
    case True
    from SolToEvm_stalled_pass [OF "1.prems"(2), of h secrets sub w] "1.prems"(1)
    obtain w' where p: "SolToEvm_monitor_pass R h secrets sub w = (Next sub, w')" by blast
    have "fst (SolToEvm_monitor_loop R h secrets (attempts + 1) sub w') = Timeout_reached"
      by (rule "1.IH" [OF True p [symmetric] refl "1.prems"])
    with True p show ?thesis by (simp add: SolToEvm_loop_unfold [of R h secrets attempts sub w])
  qed
qed

lemma service_stalled_pass:
  "status \<noteq> ''executed'' \<Longrightarrow>
   \<exists>w'. monitorAndCompleteSwap_pass (stalled_relayer status) h secrets sub w = (Next sub, w')"
  by (simp add: monitorAndCompleteSwap_pass_def stalled_relayer_def await_def)

lemma service_stalled_loop:
  "R = stalled_relayer status \<Longrightarrow> status \<noteq> ''executed'' \<Longrightarrow>
   fst (monitorAndCompleteSwap_loop R h secrets start sub w)
     = Inl (Error_obj ''Monitoring timed out after 10 minutes'' None)"
proof (induction R h secrets start sub w rule: monitorAndCompleteSwap_loop.induct)
  case (1 R h secrets start sub w)
  show ?case
  proof (cases "clock w - start < maxWaitTime")
    case False
    then show ?thesis by (simp add: service_loop_unfold [of R h secrets start sub w])
  next
    case True
    from service_stalled_pass [OF "1.prems"(2), of h secrets sub w] "1.prems"(1)
    obtain w' where p: "monitorAndCompleteSwap_pass R h secrets sub w = (Next sub, w')" by blast
    have "fst (monitorAndCompleteSwap_loop R h secrets start sub w')
       = Inl (Error_obj ''Monitoring timed out after 10 minutes'' None)"
      by (rule "1.IH" [OF True p [symmetric] refl "1.prems"])
    with True p show ?thesis by (simp add: service_loop_unfold [of R h secrets start sub w])
  qed
qed

text \<open>
  C2. The claim is that every monitoring loop stops: at a terminal state of the order, or
  else when a bounded timeout has passed. The loop of part_000 (Ethereum to Solana) is
  \<^verbatim>\<open>while (true)\<close> and leaves only when the status is \<^verbatim>\<open>executed\<close>. Against a relayer
  whose order stays \<^verbatim>\<open>expired\<close> (or \<^verbatim>\<open>pending\<close>) it has not returned after any number
  of passes. On the same relayer the loop of sol-to-evm.ts returns (at once for
  \<^verbatim>\<open>expired\<close>, after 120 attempts for \<^verbatim>\<open>pending\<close>), and the loop of the service returns
  the failure \<^verbatim>\<open>Monitoring timed out after 10 minutes\<close>.
\<close>

theorem EvmToSol_monitor_never_returns:
  "fst (EvmToSol_monitorAndSubmitSecrets fuel (stalled_relayer ''expired'') orderHash secrets w) = None
   \<and> fst (EvmToSol_monitorAndSubmitSecrets fuel (stalled_relayer ''pending'') orderHash secrets w) = None
   \<and> fst (SolToEvm_monitorAndSubmitSecrets (stalled_relayer ''expired'') orderHash secrets w)
       = Order_ended ''expired''
   \<and> fst (SolToEvm_monitorAndSubmitSecrets (stalled_relayer ''pending'') orderHash secrets w)
       = Timeout_reached
   \<and> fst (monitorAndCompleteSwap (stalled_relayer ''expired'') demo_process_env orderHash secrets
            srcChainId w)
       = Failed ''Monitoring timed out after 10 minutes''"
proof (intro conjI)
  show "fst (EvmToSol_monitorAndSubmitSecrets fuel (stalled_relayer ''expired'') orderHash secrets w) = None"
    unfolding EvmToSol_monitorAndSubmitSecrets_def by (rule EvmToSol_stalled_loop) simp
  show "fst (EvmToSol_monitorAndSubmitSecrets fuel (stalled_relayer ''pending'') orderHash secrets w) = None"
    unfolding EvmToSol_monitorAndSubmitSecrets_def by (rule EvmToSol_stalled_loop) simp
  show "fst (SolToEvm_monitorAndSubmitSecrets (stalled_relayer ''expired'') orderHash secrets w)
       = Order_ended ''expired''"
    by (simp add: SolToEvm_monitorAndSubmitSecrets_def SolToEvm_loop_unfold [of _ _ _ 0]
        SolToEvm_monitor_pass_def stalled_relayer_def await_def maxAttempts_def)
  show "fst (SolToEvm_monitorAndSubmitSecrets (stalled_relayer ''pending'') orderHash secrets w)
       = Timeout_reached"
    unfolding SolToEvm_monitorAndSubmitSecrets_def by (rule SolToEvm_stalled_loop [OF refl]) simp
  have "fst (monitorAndCompleteSwap_loop (stalled_relayer ''expired'') orderHash secrets (clock w) {} w)
     = Inl (Error_obj ''Monitoring timed out after 10 minutes'' None)"
    by (rule service_stalled_loop [OF refl]) simp
  moreover have "getSDKWithSigner (stalled_relayer ''expired'') demo_process_env srcChainId = Inr ()"
    by (simp add: getSDKWithSigner_def env_missing_def demo_process_env_def stalled_relayer_def)
  ultimately show "fst (monitorAndCompleteSwap (stalled_relayer ''expired'') demo_process_env orderHash secrets
            srcChainId w)
       = Failed ''Monitoring timed out after 10 minutes''"
    by (cases "monitorAndCompleteSwap_loop (stalled_relayer ''expired'') orderHash secrets (clock w) {} w")
       (simp add: monitorAndCompleteSwap_def)
qed

section \<open>Properties of order submission\<close>


lemma getQuote_call_result:
  "getQuote_call T R req w
     = (fst (sdk_getQuote T req (sdk w)),
        w\<lparr>sdk := snd (sdk_getQuote T req (sdk w)),
          clock := clock w + latency R (snd (sdk_getQuote T req (sdk w))),
          quote_calls := quote_calls w @ [req]\<rparr>)"
  by (simp add: getQuote_call_def await_def split_beta)

lemma submitOrder_call_result:
  "fst (submitOrder_call T R chain order quoteId hashes w)
     = fst (sdk_submitOrder T chain order quoteId hashes (sdk w))"
  "order_calls (snd (submitOrder_call T R chain order quoteId hashes w))
     = order_calls w @ [\<lparr>oc_order = order, oc_quoteId = quoteId, oc_secretHashes = hashes\<rparr>]"
  by (simp_all add: submitOrder_call_def await_def split_beta)

lemma announceOrder_call_result:
  "fst (announceOrder_call T R order quoteId hashes w)
     = fst (sdk_announceOrder T order quoteId hashes (sdk w))"
  "order_calls (snd (announceOrder_call T R order quoteId hashes w))
     = order_calls w @ [\<lparr>oc_order = order, oc_quoteId = quoteId, oc_secretHashes = hashes\<rparr>]"
  "sdk (snd (announceOrder_call T R order quoteId hashes w))
     = snd (sdk_announceOrder T order quoteId hashes (sdk w))"
  by (simp_all add: announceOrder_call_def await_def split_beta)

lemma length_array_from_map: "length (fst (array_from_map n f s)) = n"
  by (induction n arbitrary: s) (simp_all add: split_beta)

text \<open>\<^verbatim>\<open>executeSwap\<close> up to the submission, one lemma per way out.\<close>

lemma place_getQuote_rejects:
  assumes "fst (sdk_getQuote T (quote_of params) (sdk w)) = Inl t"
  shows "fst (executeSwap_place T R H penv params w) = Inl t"
    and "order_calls (snd (executeSwap_place T R H penv params w)) = order_calls w"
  using assms by (simp_all add: executeSwap_place_def getQuote_call_result)

lemma place_signer_throws:
  assumes "fst (sdk_getQuote T (quote_of params) (sdk w)) = Inr quote"
    and "getSDKWithSigner R penv (qr_srcChainId params) = Inl t"
  shows "fst (executeSwap_place T R H penv params w) = Inl t"
    and "order_calls (snd (executeSwap_place T R H penv params w)) = order_calls w"
  using assms by (simp_all add: executeSwap_place_def getQuote_call_result)

lemma place_getPreset_throws:
  assumes "fst (sdk_getQuote T (quote_of params) (sdk w)) = Inr quote"
    and "getSDKWithSigner R penv (qr_srcChainId params) = Inr u"
    and "quote_getPreset T quote (quote_recommendedPreset T quote) = Inl t"
  shows "fst (executeSwap_place T R H penv params w) = Inl t"
    and "order_calls (snd (executeSwap_place T R H penv params w)) = order_calls w"
  using assms by (simp_all add: executeSwap_place_def getQuote_call_result)

lemma place_too_many_secrets:
  assumes "fst (sdk_getQuote T (quote_of params) (sdk w)) = Inr quote"
    and "getSDKWithSigner R penv (qr_srcChainId params) = Inr u"
    and "quote_getPreset T quote (quote_recommendedPreset T quote) = Inr c"
    and "4294967295 < c"
  shows "fst (executeSwap_place T R H penv params w) = Inl (Error_obj ''Invalid array length'' None)"
    and "order_calls (snd (executeSwap_place T R H penv params w)) = order_calls w"
  using assms
  by (simp_all add: executeSwap_place_def getQuote_call_result array_from_length_def)

lemma place_hashLock_throws:
  assumes "fst (sdk_getQuote T (quote_of params) (sdk w)) = Inr quote"
    and "getSDKWithSigner R penv (qr_srcChainId params) = Inr u"
    and "quote_getPreset T quote (quote_recommendedPreset T quote) = Inr c"
    and "c \<le> 4294967295"
    and "hashLock_throws T (executeSwap_secrets c (rng w)) = Some t"
  shows "fst (executeSwap_place T R H penv params w) = Inl t"
    and "order_calls (snd (executeSwap_place T R H penv params w)) = order_calls w"
  using assms
  by (simp_all add: executeSwap_place_def getQuote_call_result array_from_length_def
      executeSwap_secrets_def split_beta Let_def)

lemma place_address_throws:
  assumes "fst (sdk_getQuote T (quote_of params) (sdk w)) = Inr quote"
    and "getSDKWithSigner R penv (qr_srcChainId params) = Inr u"
    and "quote_getPreset T quote (quote_recommendedPreset T quote) = Inr c"
    and "c \<le> 4294967295"
    and "hashLock_throws T (executeSwap_secrets c (rng w)) = None"
    and "(if qr_dstChainId params = Some (JNum 900)
          then SolanaAddress_fromString T (sr_receiverAddress params)
          else EvmAddress_fromString T (sr_receiverAddress params)) = Inl t"
  shows "fst (executeSwap_place T R H penv params w) = Inl t"
    and "order_calls (snd (executeSwap_place T R H penv params w)) = order_calls w"
  using assms
  by (simp_all add: executeSwap_place_def getQuote_call_result array_from_length_def
      executeSwap_secrets_def split_beta Let_def)

lemma place_createEvmOrder_throws:
  assumes "fst (sdk_getQuote T (quote_of params) (sdk w)) = Inr quote"
    and "getSDKWithSigner R penv (qr_srcChainId params) = Inr u"
    and "quote_getPreset T quote (quote_recommendedPreset T quote) = Inr c"
    and "c \<le> 4294967295"
    and "hashLock_throws T (executeSwap_secrets c (rng w)) = None"
    and "(if qr_dstChainId params = Some (JNum 900)
          then SolanaAddress_fromString T (sr_receiverAddress params)
          else EvmAddress_fromString T (sr_receiverAddress params)) = Inr receiver"
    and "quote_createEvmOrder T quote (executeSwap_hashLock H (executeSwap_secrets c (rng w))) receiver
            (quote_recommendedPreset T quote) = Inl t"
  shows "fst (executeSwap_place T R H penv params w) = Inl t"
    and "order_calls (snd (executeSwap_place T R H penv params w)) = order_calls w"
  using assms
  by (simp_all add: executeSwap_place_def getQuote_call_result array_from_length_def
      executeSwap_secrets_def split_beta Let_def)

lemma place_ready:
  assumes "executeSwap_order_ready T R H penv params w quote c receiver order"
  shows "fst (executeSwap_place T R H penv params w)
           = (case fst (sdk_submitOrder T (qr_srcChainId params) order (quote_quoteId T quote)
                      (map (hashSecret H) (executeSwap_secrets c (rng w)))
                      (snd (sdk_getQuote T (quote_of params) (sdk w)))) of
                Inl submitError \<Rightarrow> Inl (rethrow_submitError submitError)
              | Inr orderHash \<Rightarrow>
                  Inr \<lparr> pl_orderHash = orderHash, pl_secrets = executeSwap_secrets c (rng w),
                        pl_quote = quote, pl_preset = quote_recommendedPreset T quote,
                        pl_secretsCount = c \<rparr>)"
    and "order_calls (snd (executeSwap_place T R H penv params w))
           = order_calls w @
             [\<lparr>oc_order = order, oc_quoteId = quote_quoteId T quote,
               oc_secretHashes = map (hashSecret H) (executeSwap_secrets c (rng w))\<rparr>]"
  using assms
  by (simp_all add: executeSwap_order_ready_def executeSwap_place_def getQuote_call_result
      array_from_length_def executeSwap_secrets_def split_beta Let_def submitOrder_call_def
      await_def split: sum.splits)

lemma place_not_ready:
  assumes "\<not> (\<exists>quote c receiver order. executeSwap_order_ready T R H penv params w quote c receiver order)"
  shows "isl (fst (executeSwap_place T R H penv params w))
       \<and> order_calls (snd (executeSwap_place T R H penv params w)) = order_calls w"
proof (cases "fst (sdk_getQuote T (quote_of params) (sdk w))")
  case (Inl t)
  then show ?thesis by (simp add: place_getQuote_rejects)
next
  case q: (Inr quote)
  show ?thesis
  proof (cases "getSDKWithSigner R penv (qr_srcChainId params)")
    case (Inl t)
    with q show ?thesis by (simp add: place_signer_throws)
  next
    case g: (Inr u)
    show ?thesis
    proof (cases "quote_getPreset T quote (quote_recommendedPreset T quote)")
      case (Inl t)
      with q g show ?thesis by (simp add: place_getPreset_throws)
    next
      case p: (Inr c)
      show ?thesis
      proof (cases "4294967295 < c")
        case True
        with q g p show ?thesis by (simp add: place_too_many_secrets)
      next
        case False
        then have le: "c \<le> 4294967295" by simp
        show ?thesis
        proof (cases "hashLock_throws T (executeSwap_secrets c (rng w))")
          case (Some t)
          with q g p le show ?thesis by (simp add: place_hashLock_throws)
        next
          case th: None
          show ?thesis
          proof (cases "if qr_dstChainId params = Some (JNum 900)
              then SolanaAddress_fromString T (sr_receiverAddress params)
              else EvmAddress_fromString T (sr_receiverAddress params)")
            case (Inl t)
            with q g p le th show ?thesis by (simp add: place_address_throws)
          next
            case a: (Inr receiver)
            show ?thesis
            proof (cases "quote_createEvmOrder T quote
                (executeSwap_hashLock H (executeSwap_secrets c (rng w))) receiver
                (quote_recommendedPreset T quote)")
              case (Inl t)
              with q g p le th a show ?thesis by (simp add: place_createEvmOrder_throws)
            next
              case (Inr order)
              with q g p le th a
              have "executeSwap_order_ready T R H penv params w quote c receiver order"
                by (simp add: executeSwap_order_ready_def)
              with assms show ?thesis by blast
            qed
          qed
        qed
      qed
    qed
  qed
qed

lemma generateSecrets_script_secrets:
  "c \<le> 4294967295 \<Longrightarrow>
   generateSecrets c r = (Inr (script_secrets c r), snd (array_from_map (nat c) getSecret r))"
  by (simp add: generateSecrets_def array_from_length_def script_secrets_def split_beta)

lemma generateSecrets_too_long:
  "4294967295 < c \<Longrightarrow> generateSecrets c r = (Inl (Error_obj ''Invalid array length'' None), r)"
  by (simp add: generateSecrets_def array_from_length_def)

text \<open>The same for \<^verbatim>\<open>createAndSubmitOrder\<close> of the two scripts.\<close>

lemma EvmToSol_ready:
  assumes "EvmToSol_order_ready T H penv quote (rng w) c receiver order"
  shows "fst (EvmToSol_createAndSubmitOrder T R H penv quote w)
           = (case fst (sdk_submitOrder T (Some (JNum NetworkEnum_ETHEREUM)) order (quote_quoteId T quote)
                      (map (hashSecret H) (script_secrets c (rng w))) (sdk w)) of
                Inl t \<Rightarrow> Inl t
              | Inr orderHash \<Rightarrow> Inr (orderHash, script_secrets c (rng w)))"
    and "order_calls (snd (EvmToSol_createAndSubmitOrder T R H penv quote w))
           = order_calls w @
             [\<lparr>oc_order = order, oc_quoteId = quote_quoteId T quote,
               oc_secretHashes = map (hashSecret H) (script_secrets c (rng w))\<rparr>]"
  using assms
  by (simp_all add: EvmToSol_order_ready_def EvmToSol_createAndSubmitOrder_def
      generateSecrets_script_secrets Let_def submitOrder_call_def await_def split_beta
      split: sum.splits)

lemma EvmToSol_not_ready:
  assumes "\<not> (\<exists>c receiver order. EvmToSol_order_ready T H penv quote (rng w) c receiver order)"
  shows "isl (fst (EvmToSol_createAndSubmitOrder T R H penv quote w))
       \<and> order_calls (snd (EvmToSol_createAndSubmitOrder T R H penv quote w)) = order_calls w"
proof (cases "quote_getPreset T quote (quote_recommendedPreset T quote)")
  case (Inl t)
  then show ?thesis by (simp add: EvmToSol_createAndSubmitOrder_def)
next
  case p: (Inr c)
  show ?thesis
  proof (cases "4294967295 < c")
    case True
    with p show ?thesis
      by (simp add: EvmToSol_createAndSubmitOrder_def generateSecrets_too_long)
  next
    case False
    then have le: "c \<le> 4294967295" by simp
    note gen = generateSecrets_script_secrets [OF le, of "rng w"]
    show ?thesis
    proof (cases "hashLock_throws T (script_secrets c (rng w))")
      case (Some t)
      with p show ?thesis
        by (simp add: EvmToSol_createAndSubmitOrder_def gen Let_def)
    next
      case th: None
      show ?thesis
      proof (cases "SolanaAddress_fromString T (Some (JStr (env_value penv ''RECEIVER_ADDRESS'')))")
        case (Inl t)
        with p th show ?thesis
          by (simp add: EvmToSol_createAndSubmitOrder_def gen Let_def)
      next
        case a: (Inr receiver)
        show ?thesis
        proof (cases "quote_createEvmOrder T quote (createHashLock H (script_secrets c (rng w)))
            receiver (quote_recommendedPreset T quote)")
          case (Inl t)
          with p th a show ?thesis
            by (simp add: EvmToSol_createAndSubmitOrder_def gen Let_def)
        next
          case (Inr order)
          with p le th a have "EvmToSol_order_ready T H penv quote (rng w) c receiver order"
            by (simp add: EvmToSol_order_ready_def)
          with assms show ?thesis by blast
        qed
      qed
    qed
  qed
qed

lemma SolToEvm_ready:
  assumes "SolToEvm_order_ready T H penv quote (rng w) c receiver order"
  shows "fst (SolToEvm_createAndSubmitOrder T R H penv quote w)
           = (case fst (sdk_announceOrder T order (quote_quoteId T quote)
                      (map (hashSecret H) (script_secrets c (rng w))) (sdk w)) of
                Inl t \<Rightarrow> Inl t
              | Inr orderHash \<Rightarrow>
                  (case fst (solana_sendOrder T order (env_value penv ''SOLANA_PRIVATE_KEY'')
                          (snd (sdk_announceOrder T order (quote_quoteId T quote)
                             (map (hashSecret H) (script_secrets c (rng w))) (sdk w)))) of
                     Inl t \<Rightarrow> Inl t
                   | Inr signature \<Rightarrow> Inr (orderHash, script_secrets c (rng w))))"
    and "order_calls (snd (SolToEvm_createAndSubmitOrder T R H penv quote w))
           = order_calls w @
             [\<lparr>oc_order = order, oc_quoteId = quote_quoteId T quote,
               oc_secretHashes = map (hashSecret H) (script_secrets c (rng w))\<rparr>]"
  using assms
  by (simp_all add: SolToEvm_order_ready_def SolToEvm_createAndSubmitOrder_def
      generateSecrets_script_secrets Let_def announceOrder_call_def await_def split_beta
      split: sum.splits)

lemma SolToEvm_not_ready:
  assumes "\<not> (\<exists>c receiver order. SolToEvm_order_ready T H penv quote (rng w) c receiver order)"
  shows "isl (fst (SolToEvm_createAndSubmitOrder T R H penv quote w))
       \<and> order_calls (snd (SolToEvm_createAndSubmitOrder T R H penv quote w)) = order_calls w"
proof (cases "quote_getPreset T quote (quote_recommendedPreset T quote)")
  case (Inl t)
  then show ?thesis by (simp add: SolToEvm_createAndSubmitOrder_def)
next
  case p: (Inr c)
  show ?thesis
  proof (cases "4294967295 < c")
    case True
    with p show ?thesis
      by (simp add: SolToEvm_createAndSubmitOrder_def generateSecrets_too_long)
  next
    case False
    then have le: "c \<le> 4294967295" by simp
    note gen = generateSecrets_script_secrets [OF le, of "rng w"]
    show ?thesis
    proof (cases "hashLock_throws T (script_secrets c (rng w))")
      case (Some t)
      with p show ?thesis
        by (simp add: SolToEvm_createAndSubmitOrder_def gen Let_def)
    next
      case th: None
      show ?thesis
      proof (cases "EvmAddress_fromString T (Some (JStr (env_value penv ''ETH_RECEIVER_ADDRESS'')))")
        case (Inl t)
        with p th show ?thesis
          by (simp add: SolToEvm_createAndSubmitOrder_def gen Let_def)
      next
        case a: (Inr receiver)
        show ?thesis
        proof (cases "quote_createSolanaOrder T quote (createHashLock H (script_secrets c (rng w)))
            receiver (quote_recommendedPreset T quote)")
          case (Inl t)
          with p th a show ?thesis
            by (simp add: SolToEvm_createAndSubmitOrder_def gen Let_def)
        next
          case (Inr order)
          with p le th a have "SolToEvm_order_ready T H penv quote (rng w) c receiver order"
            by (simp add: SolToEvm_order_ready_def)
          with assms show ?thesis by blast
        qed
      qed
    qed
  qed
qed

lemma script_secrets_eq: "script_secrets c r = map (secret_at r) [0..<nat c]"
  unfolding script_secrets_def
  by (simp add: array_from_map_secrets [of getSecret, OF getSecret_eq])

lemma executeSwap_secrets_eq: "executeSwap_secrets c r = map (secret_at r) [0..<nat c]"
  unfolding executeSwap_secrets_def
  by (simp add: array_from_map_secrets [of generateSecret, OF generateSecret_eq])

text \<open>
  C5. \<^verbatim>\<open>executeSwap\<close> of the service and \<^verbatim>\<open>createAndSubmitOrder\<close> of either script
  call \<^verbatim>\<open>submitOrder\<close> (\<^verbatim>\<open>announceOrder\<close> in sol-to-evm.ts) exactly when every step before
  the call succeeds: the quote, the signer, the preset with its \<^verbatim>\<open>secretsCount\<close> \<open>c\<close>, the
  secrets, the hash-lock, the receiver address and the order. Then exactly one call is added
  to the record. It carries the order, the quote id and the list
  \<^verbatim>\<open>secrets.map(HashLock.hashSecret)\<close>, where \<open>secrets\<close> are the \<open>c\<close> secrets generated in
  this execution: the list of hashes has length \<open>c\<close>, as the list of secrets has, and entry
  \<open>i\<close> is the hash of secret \<open>i\<close>, the \<open>i\<close>-th draw from the entropy source. The answer of the
  relayer decides the result, and on success the secrets handed on to monitoring are these
  secrets. When a step before the call fails, the execution ends with a failure and no order
  call is made.
\<close>

theorem order_submitted_with_hashes_of_secrets:
  fixes T :: "('e, 'q, 'o, 'hl) trader" and w :: "('e, 'o) world"
  shows
  "(\<forall>q c receiver order.
      executeSwap_order_ready T R H penv params w q c receiver order \<longrightarrow>
        order_calls (snd (executeSwap_place T R H penv params w))
          = order_calls w @
            [\<lparr>oc_order = order, oc_quoteId = quote_quoteId T q,
              oc_secretHashes = map (hashSecret H) (executeSwap_secrets c (rng w))\<rparr>]
      \<and> executeSwap_secrets c (rng w) = map (secret_at (rng w)) [0..<nat c]
      \<and> length (oc_secretHashes (last (order_calls (snd (executeSwap_place T R H penv params w)))))
          = nat c
      \<and> length (executeSwap_secrets c (rng w)) = nat c
      \<and> (\<forall>i < nat c.
            oc_secretHashes (last (order_calls (snd (executeSwap_place T R H penv params w)))) ! i
              = hashSecret H (secret_at (rng w) i))
      \<and> fst (executeSwap_place T R H penv params w)
          = (case fst (sdk_submitOrder T (qr_srcChainId params) order (quote_quoteId T q)
                     (map (hashSecret H) (executeSwap_secrets c (rng w)))
                     (snd (sdk_getQuote T (quote_of params) (sdk w)))) of
               Inl submitError \<Rightarrow> Inl (rethrow_submitError submitError)
             | Inr orderHash \<Rightarrow>
                 Inr \<lparr> pl_orderHash = orderHash, pl_secrets = executeSwap_secrets c (rng w),
                       pl_quote = q, pl_preset = quote_recommendedPreset T q,
                       pl_secretsCount = c \<rparr>))
 \<and> (\<not> (\<exists>q c receiver order. executeSwap_order_ready T R H penv params w q c receiver order) \<longrightarrow>
        isl (fst (executeSwap_place T R H penv params w))
      \<and> order_calls (snd (executeSwap_place T R H penv params w)) = order_calls w)
 \<and> (\<forall>c receiver order.
      EvmToSol_order_ready T H penv quote (rng w) c receiver order \<longrightarrow>
        order_calls (snd (EvmToSol_createAndSubmitOrder T R H penv quote w))
          = order_calls w @
            [\<lparr>oc_order = order, oc_quoteId = quote_quoteId T quote,
              oc_secretHashes = map (hashSecret H) (script_secrets c (rng w))\<rparr>]
      \<and> fst (generateSecrets c (rng w)) = Inr (script_secrets c (rng w))
      \<and> script_secrets c (rng w) = map (secret_at (rng w)) [0..<nat c]
      \<and> length (oc_secretHashes (last (order_calls (snd (EvmToSol_createAndSubmitOrder T R H penv quote w)))))
          = nat c
      \<and> length (script_secrets c (rng w)) = nat c
      \<and> (\<forall>i < nat c.
            oc_secretHashes (last (order_calls (snd (EvmToSol_createAndSubmitOrder T R H penv quote w)))) ! i
              = hashSecret H (secret_at (rng w) i))
      \<and> fst (EvmToSol_createAndSubmitOrder T R H penv quote w)
          = (case fst (sdk_submitOrder T (Some (JNum NetworkEnum_ETHEREUM)) order (quote_quoteId T quote)
                     (map (hashSecret H) (script_secrets c (rng w))) (sdk w)) of
               Inl t \<Rightarrow> Inl t
             | Inr orderHash \<Rightarrow> Inr (orderHash, script_secrets c (rng w))))
 \<and> (\<not> (\<exists>c receiver order. EvmToSol_order_ready T H penv quote (rng w) c receiver order) \<longrightarrow>
        isl (fst (EvmToSol_createAndSubmitOrder T R H penv quote w))
      \<and> order_calls (snd (EvmToSol_createAndSubmitOrder T R H penv quote w)) = order_calls w)
 \<and> (\<forall>c receiver order.
      SolToEvm_order_ready T H penv quote (rng w) c receiver order \<longrightarrow>
        order_calls (snd (SolToEvm_createAndSubmitOrder T R H penv quote w))
          = order_calls w @
            [\<lparr>oc_order = order, oc_quoteId = quote_quoteId T quote,
              oc_secretHashes = map (hashSecret H) (script_secrets c (rng w))\<rparr>]
      \<and> fst (generateSecrets c (rng w)) = Inr (script_secrets c (rng w))
      \<and> script_secrets c (rng w) = map (secret_at (rng w)) [0..<nat c]
      \<and> length (oc_secretHashes (last (order_calls (snd (SolToEvm_createAndSubmitOrder T R H penv quote w)))))
          = nat c
      \<and> length (script_secrets c (rng w)) = nat c
      \<and> (\<forall>i < nat c.
            oc_secretHashes (last (order_calls (snd (SolToEvm_createAndSubmitOrder T R H penv quote w)))) ! i
              = hashSecret H (secret_at (rng w) i))
      \<and> fst (SolToEvm_createAndSubmitOrder T R H penv quote w)
          = (case fst (sdk_announceOrder T order (quote_quoteId T quote)
                     (map (hashSecret H) (script_secrets c (rng w))) (sdk w)) of
               Inl t \<Rightarrow> Inl t
             | Inr orderHash \<Rightarrow>
                 (case fst (solana_sendOrder T order (env_value penv ''SOLANA_PRIVATE_KEY'')
                         (snd (sdk_announceOrder T order (quote_quoteId T quote)
                            (map (hashSecret H) (script_secrets c (rng w))) (sdk w)))) of
                    Inl t \<Rightarrow> Inl t
                  | Inr signature \<Rightarrow> Inr (orderHash, script_secrets c (rng w)))))
 \<and> (\<not> (\<exists>c receiver order. SolToEvm_order_ready T H penv quote (rng w) c receiver order) \<longrightarrow>
        isl (fst (SolToEvm_createAndSubmitOrder T R H penv quote w))
      \<and> order_calls (snd (SolToEvm_createAndSubmitOrder T R H penv quote w)) = order_calls w)"
proof -
  have service: "order_calls (snd (executeSwap_place T R H penv params w))
          = order_calls w @
            [\<lparr>oc_order = order, oc_quoteId = quote_quoteId T q,
              oc_secretHashes = map (hashSecret H) (executeSwap_secrets c (rng w))\<rparr>]
      \<and> executeSwap_secrets c (rng w) = map (secret_at (rng w)) [0..<nat c]
      \<and> length (oc_secretHashes (last (order_calls (snd (executeSwap_place T R H penv params w)))))
          = nat c
      \<and> length (executeSwap_secrets c (rng w)) = nat c
      \<and> (\<forall>i < nat c.
            oc_secretHashes (last (order_calls (snd (executeSwap_place T R H penv params w)))) ! i
              = hashSecret H (secret_at (rng w) i))
      \<and> fst (executeSwap_place T R H penv params w)
          = (case fst (sdk_submitOrder T (qr_srcChainId params) order (quote_quoteId T q)
                     (map (hashSecret H) (executeSwap_secrets c (rng w)))
                     (snd (sdk_getQuote T (quote_of params) (sdk w)))) of
               Inl submitError \<Rightarrow> Inl (rethrow_submitError submitError)
             | Inr orderHash \<Rightarrow>
                 Inr \<lparr> pl_orderHash = orderHash, pl_secrets = executeSwap_secrets c (rng w),
                       pl_quote = q, pl_preset = quote_recommendedPreset T q,
                       pl_secretsCount = c \<rparr>)"
    if rdy: "executeSwap_order_ready T R H penv params w q c receiver order"
    for q c receiver order
  proof -
    note oc = place_ready(2) [OF rdy]
    note res = place_ready(1) [OF rdy]
    note sec = executeSwap_secrets_eq [of c "rng w"]
    have len: "length (executeSwap_secrets c (rng w)) = nat c" by (simp add: sec)
    have l1: "length (oc_secretHashes (last (order_calls (snd (executeSwap_place T R H penv params w)))))
        = nat c" by (simp add: oc len)
    have ix: "\<forall>i < nat c.
        oc_secretHashes (last (order_calls (snd (executeSwap_place T R H penv params w)))) ! i
          = hashSecret H (secret_at (rng w) i)"
      by (simp add: oc) (simp add: sec)
    from oc sec l1 len ix res show ?thesis by (intro conjI)
  qed
  have evm: "order_calls (snd (EvmToSol_createAndSubmitOrder T R H penv quote w))
          = order_calls w @
            [\<lparr>oc_order = order, oc_quoteId = quote_quoteId T quote,
              oc_secretHashes = map (hashSecret H) (script_secrets c (rng w))\<rparr>]
      \<and> fst (generateSecrets c (rng w)) = Inr (script_secrets c (rng w))
      \<and> script_secrets c (rng w) = map (secret_at (rng w)) [0..<nat c]
      \<and> length (oc_secretHashes (last (order_calls (snd (EvmToSol_createAndSubmitOrder T R H penv quote w)))))
          = nat c
      \<and> length (script_secrets c (rng w)) = nat c
      \<and> (\<forall>i < nat c.
            oc_secretHashes (last (order_calls (snd (EvmToSol_createAndSubmitOrder T R H penv quote w)))) ! i
              = hashSecret H (secret_at (rng w) i))
      \<and> fst (EvmToSol_createAndSubmitOrder T R H penv quote w)
          = (case fst (sdk_submitOrder T (Some (JNum NetworkEnum_ETHEREUM)) order (quote_quoteId T quote)
                     (map (hashSecret H) (script_secrets c (rng w))) (sdk w)) of
               Inl t \<Rightarrow> Inl t
             | Inr orderHash \<Rightarrow> Inr (orderHash, script_secrets c (rng w)))"
    if rdy: "EvmToSol_order_ready T H penv quote (rng w) c receiver order"
    for c receiver order
  proof -
    note oc = EvmToSol_ready(2) [OF rdy, of R]
    note res = EvmToSol_ready(1) [OF rdy, of R]
    note sec = script_secrets_eq [of c "rng w"]
    from rdy have le: "c \<le> 4294967295" by (simp add: EvmToSol_order_ready_def)
    have gen: "fst (generateSecrets c (rng w)) = Inr (script_secrets c (rng w))"
      by (simp add: generateSecrets_script_secrets [OF le])
    have len: "length (script_secrets c (rng w)) = nat c" by (simp add: sec)
    have l1: "length (oc_secretHashes (last (order_calls (snd (EvmToSol_createAndSubmitOrder T R H penv quote w)))))
        = nat c" by (simp add: oc len)
    have ix: "\<forall>i < nat c.
        oc_secretHashes (last (order_calls (snd (EvmToSol_createAndSubmitOrder T R H penv quote w)))) ! i
          = hashSecret H (secret_at (rng w) i)"
      by (simp add: oc) (simp add: sec)
    from oc gen sec l1 len ix res show ?thesis by (intro conjI)
  qed
  have sol: "order_calls (snd (SolToEvm_createAndSubmitOrder T R H penv quote w))
          = order_calls w @
            [\<lparr>oc_order = order, oc_quoteId = quote_quoteId T quote,
              oc_secretHashes = map (hashSecret H) (script_secrets c (rng w))\<rparr>]
      \<and> fst (generateSecrets c (rng w)) = Inr (script_secrets c (rng w))
      \<and> script_secrets c (rng w) = map (secret_at (rng w)) [0..<nat c]
      \<and> length (oc_secretHashes (last (order_calls (snd (SolToEvm_createAndSubmitOrder T R H penv quote w)))))
          = nat c
      \<and> length (script_secrets c (rng w)) = nat c
      \<and> (\<forall>i < nat c.
            oc_secretHashes (last (order_calls (snd (SolToEvm_createAndSubmitOrder T R H penv quote w)))) ! i
              = hashSecret H (secret_at (rng w) i))
      \<and> fst (SolToEvm_createAndSubmitOrder T R H penv quote w)
          = (case fst (sdk_announceOrder T order (quote_quoteId T quote)
                     (map (hashSecret H) (script_secrets c (rng w))) (sdk w)) of
               Inl t \<Rightarrow> Inl t
             | Inr orderHash \<Rightarrow>
                 (case fst (solana_sendOrder T order (env_value penv ''SOLANA_PRIVATE_KEY'')
                         (snd (sdk_announceOrder T order (quote_quoteId T quote)
                            (map (hashSecret H) (script_secrets c (rng w))) (sdk w)))) of
                    Inl t \<Rightarrow> Inl t
                  | Inr signature \<Rightarrow> Inr (orderHash, script_secrets c (rng w))))"
    if rdy: "SolToEvm_order_ready T H penv quote (rng w) c receiver order"
    for c receiver order
  proof -
    note oc = SolToEvm_ready(2) [OF rdy, of R]
    note res = SolToEvm_ready(1) [OF rdy, of R]
    note sec = script_secrets_eq [of c "rng w"]
    from rdy have le: "c \<le> 4294967295" by (simp add: SolToEvm_order_ready_def)
    have gen: "fst (generateSecrets c (rng w)) = Inr (script_secrets c (rng w))"
      by (simp add: generateSecrets_script_secrets [OF le])
    have len: "length (script_secrets c (rng w)) = nat c" by (simp add: sec)
    have l1: "length (oc_secretHashes (last (order_calls (snd (SolToEvm_createAndSubmitOrder T R H penv quote w)))))
        = nat c" by (simp add: oc len)
    have ix: "\<forall>i < nat c.
        oc_secretHashes (last (order_calls (snd (SolToEvm_createAndSubmitOrder T R H penv quote w)))) ! i
          = hashSecret H (secret_at (rng w) i)"
      by (simp add: oc) (simp add: sec)
    from oc gen sec l1 len ix res show ?thesis by (intro conjI)
  qed
  show ?thesis
    apply (rule conjI, (intro allI impI)[1], erule service)
    apply (rule conjI, rule impI, erule place_not_ready)
    apply (rule conjI, (intro allI impI)[1], erule evm)
    apply (rule conjI, rule impI, erule EvmToSol_not_ready)
    apply (rule conjI, (intro allI impI)[1], erule sol)
    apply (rule impI, erule SolToEvm_not_ready)
    done
qed

theorem order_submitted_with_hashes_of_secrets_witness:
  "executeSwap_order_ready demo_trader demo_relayer demo_HashLock demo_process_env demo_request
      demo_world 2 2 (EvmAddress ''0x0b07ab58f72d13150Fcd119700aae76d9D161138'')
      (''evm-order:'' @ executeSwap_hashLock demo_HashLock (executeSwap_secrets 2 demo_entropy))
   \<and> order_calls demo_world = []
   \<and> map oc_secretHashes (order_calls (snd (executeSwap_place demo_trader demo_relayer
         demo_HashLock demo_process_env demo_request demo_world)))
       = [[''H('' @ secret_at demo_entropy 0 @ '')'', ''H('' @ secret_at demo_entropy 1 @ '')'']]
   \<and> fst (executeSwap_place demo_trader demo_relayer demo_HashLock demo_process_env demo_request
         demo_world)
       = Inr \<lparr> pl_orderHash = ''0xorder'',
               pl_secrets = [secret_at demo_entropy 0, secret_at demo_entropy 1],
               pl_quote = 2, pl_preset = ''fast'', pl_secretsCount = 2 \<rparr>
   \<and> EvmToSol_order_ready demo_trader demo_HashLock
        (demo_script_env(''RECEIVER_ADDRESS'' \<mapsto> ''receiver'')) 2 demo_entropy 2
        (SolanaAddress ''receiver'')
        (''evm-order:'' @ createHashLock demo_HashLock (script_secrets 2 demo_entropy))
   \<and> map oc_secretHashes (order_calls (snd (EvmToSol_createAndSubmitOrder demo_trader demo_relayer
         demo_HashLock (demo_script_env(''RECEIVER_ADDRESS'' \<mapsto> ''receiver'')) 2 demo_world)))
       = [[''H('' @ secret_at demo_entropy 0 @ '')'', ''H('' @ secret_at demo_entropy 1 @ '')'']]
   \<and> fst (EvmToSol_createAndSubmitOrder demo_trader demo_relayer demo_HashLock
         (demo_script_env(''RECEIVER_ADDRESS'' \<mapsto> ''receiver'')) 2 demo_world)
       = Inr (''0xorder'', [secret_at demo_entropy 0, secret_at demo_entropy 1])
   \<and> SolToEvm_order_ready demo_trader demo_HashLock demo_script_env 3 demo_entropy 3
        (EvmAddress ''0xreceiver'')
        (''solana-order:'' @ createHashLock demo_HashLock (script_secrets 3 demo_entropy))
   \<and> map oc_secretHashes (order_calls (snd (SolToEvm_createAndSubmitOrder demo_trader demo_relayer
         demo_HashLock demo_script_env 3 demo_world)))
       = [[''H('' @ secret_at demo_entropy 0 @ '')'', ''H('' @ secret_at demo_entropy 1 @ '')'',
           ''H('' @ secret_at demo_entropy 2 @ '')'']]
   \<and> fst (SolToEvm_createAndSubmitOrder demo_trader demo_relayer demo_HashLock demo_script_env 3
         demo_world)
       = Inr (''0xorder'', [secret_at demo_entropy 0, secret_at demo_entropy 1,
                            secret_at demo_entropy 2])
   \<and> isl (fst (executeSwap_place demo_trader demo_relayer demo_HashLock Map.empty demo_request
         demo_world))
   \<and> order_calls (snd (executeSwap_place demo_trader demo_relayer demo_HashLock Map.empty
         demo_request demo_world)) = []
   \<and> isl (fst (EvmToSol_createAndSubmitOrder demo_trader demo_relayer demo_HashLock
         demo_script_env 5000000000 demo_world))
   \<and> order_calls (snd (EvmToSol_createAndSubmitOrder demo_trader demo_relayer demo_HashLock
         demo_script_env 5000000000 demo_world)) = []
   \<and> isl (fst (SolToEvm_createAndSubmitOrder demo_trader demo_relayer demo_HashLock
         demo_script_env 5000000000 demo_world))
   \<and> order_calls (snd (SolToEvm_createAndSubmitOrder demo_trader demo_relayer demo_HashLock
         demo_script_env 5000000000 demo_world)) = []"
proof -
  let ?env = "demo_script_env(''RECEIVER_ADDRESS'' \<mapsto> ''receiver'')"
  have two: "[0..<2] = [0, 1::nat]" "[0..<3] = [0, 1, 2::nat]"
    by (simp_all add: upt_rec)
  have sec: "executeSwap_secrets 2 demo_entropy = [secret_at demo_entropy 0, secret_at demo_entropy 1]"
    "script_secrets 2 demo_entropy = [secret_at demo_entropy 0, secret_at demo_entropy 1]"
    "script_secrets 3 demo_entropy
       = [secret_at demo_entropy 0, secret_at demo_entropy 1, secret_at demo_entropy 2]"
    by (simp_all add: executeSwap_secrets_eq script_secrets_eq two)
  have w0: "order_calls demo_world = []" "rng demo_world = demo_entropy" "sdk demo_world = 0"
    by (simp_all add: demo_world_def)
  have tr: "sdk_submitOrder demo_trader = (\<lambda>chain order quoteId hashes n. (Inr ''0xorder'', n))"
    "sdk_announceOrder demo_trader = (\<lambda>order quoteId hashes n. (Inr ''0xorder'', n))"
    "solana_sendOrder demo_trader = (\<lambda>order key n. (Inr ''signature'', n))"
    "quote_recommendedPreset demo_trader = (\<lambda>q. ''fast'')"
    "quote_quoteId demo_trader = (\<lambda>q. ''quote-1'')"
    "quote_getPreset demo_trader = (\<lambda>q p. Inr q)"
    by (simp_all add: demo_trader_def)
  have hs: "hashSecret demo_HashLock = (\<lambda>s. ''H('' @ s @ '')'')"
    by (simp add: demo_HashLock_def)

  note sv = order_submitted_with_hashes_of_secrets [where T = demo_trader and R = demo_relayer
      and H = demo_HashLock and penv = demo_process_env and params = demo_request
      and w = demo_world and quote = 2]
  have rdy1: "executeSwap_order_ready demo_trader demo_relayer demo_HashLock demo_process_env
      demo_request demo_world 2 2 (EvmAddress ''0x0b07ab58f72d13150Fcd119700aae76d9D161138'')
      (''evm-order:'' @ executeSwap_hashLock demo_HashLock (executeSwap_secrets 2 demo_entropy))"
    by (simp add: executeSwap_order_ready_def demo_trader_def demo_request_def w0
        getSDKWithSigner_def env_missing_def demo_process_env_def demo_relayer_def)
  note f1 = sv [THEN conjunct1, rule_format, OF rdy1]
  have a1: "map oc_secretHashes (order_calls (snd (executeSwap_place demo_trader demo_relayer
         demo_HashLock demo_process_env demo_request demo_world)))
       = [[''H('' @ secret_at demo_entropy 0 @ '')'', ''H('' @ secret_at demo_entropy 1 @ '')'']]"
    using f1 [THEN conjunct1] by (simp add: w0 hs sec)
  have a2: "fst (executeSwap_place demo_trader demo_relayer demo_HashLock demo_process_env
         demo_request demo_world)
       = Inr \<lparr> pl_orderHash = ''0xorder'',
               pl_secrets = [secret_at demo_entropy 0, secret_at demo_entropy 1],
               pl_quote = 2, pl_preset = ''fast'', pl_secretsCount = 2 \<rparr>"
    using f1 [THEN conjunct2, THEN conjunct2, THEN conjunct2, THEN conjunct2, THEN conjunct2]
    by (simp add: w0 tr sec)

  note ev = order_submitted_with_hashes_of_secrets [where T = demo_trader and R = demo_relayer
      and H = demo_HashLock and penv = ?env and params = demo_request
      and w = demo_world and quote = 2]
  have rdy2: "EvmToSol_order_ready demo_trader demo_HashLock ?env 2 demo_entropy 2
        (SolanaAddress ''receiver'')
        (''evm-order:'' @ createHashLock demo_HashLock (script_secrets 2 demo_entropy))"
    by (simp add: EvmToSol_order_ready_def demo_trader_def env_value_def)
  note f2 = ev [THEN conjunct2, THEN conjunct2, THEN conjunct1, rule_format, OF rdy2 [folded w0(2)]]
  have b1: "map oc_secretHashes (order_calls (snd (EvmToSol_createAndSubmitOrder demo_trader
         demo_relayer demo_HashLock ?env 2 demo_world)))
       = [[''H('' @ secret_at demo_entropy 0 @ '')'', ''H('' @ secret_at demo_entropy 1 @ '')'']]"
    using f2 [THEN conjunct1] by (simp add: w0 hs sec)
  have b2: "fst (EvmToSol_createAndSubmitOrder demo_trader demo_relayer demo_HashLock ?env 2
         demo_world)
       = Inr (''0xorder'', [secret_at demo_entropy 0, secret_at demo_entropy 1])"
    using f2 [THEN conjunct2, THEN conjunct2, THEN conjunct2, THEN conjunct2, THEN conjunct2,
        THEN conjunct2]
    by (simp add: w0 tr sec)

  note so = order_submitted_with_hashes_of_secrets [where T = demo_trader and R = demo_relayer
      and H = demo_HashLock and penv = demo_script_env and params = demo_request
      and w = demo_world and quote = 3]
  have rdy3: "SolToEvm_order_ready demo_trader demo_HashLock demo_script_env 3 demo_entropy 3
        (EvmAddress ''0xreceiver'')
        (''solana-order:'' @ createHashLock demo_HashLock (script_secrets 3 demo_entropy))"
    by (simp add: SolToEvm_order_ready_def demo_trader_def env_value_def demo_script_env_def)
  note f3 = so [THEN conjunct2, THEN conjunct2, THEN conjunct2, THEN conjunct2, THEN conjunct1,
      rule_format, OF rdy3 [folded w0(2)]]
  have c1: "map oc_secretHashes (order_calls (snd (SolToEvm_createAndSubmitOrder demo_trader
         demo_relayer demo_HashLock demo_script_env 3 demo_world)))
       = [[''H('' @ secret_at demo_entropy 0 @ '')'', ''H('' @ secret_at demo_entropy 1 @ '')'',
           ''H('' @ secret_at demo_entropy 2 @ '')'']]"
    using f3 [THEN conjunct1] by (simp add: w0 hs sec)
  have c2: "fst (SolToEvm_createAndSubmitOrder demo_trader demo_relayer demo_HashLock
         demo_script_env 3 demo_world)
       = Inr (''0xorder'', [secret_at demo_entropy 0, secret_at demo_entropy 1,
                            secret_at demo_entropy 2])"
    using f3 [THEN conjunct2, THEN conjunct2, THEN conjunct2, THEN conjunct2, THEN conjunct2,
        THEN conjunct2]
    by (simp add: w0 tr sec)

  note sn = order_submitted_with_hashes_of_secrets [where T = demo_trader and R = demo_relayer
      and H = demo_HashLock and penv = Map.empty and params = demo_request
      and w = demo_world and quote = 2]
  have nr1: "\<not> (\<exists>q c receiver order. executeSwap_order_ready demo_trader demo_relayer
      demo_HashLock Map.empty demo_request demo_world q c receiver order)"
    by (simp add: executeSwap_order_ready_def getSDKWithSigner_def env_missing_def)
  note g1 = sn [THEN conjunct2, THEN conjunct1, THEN mp, OF nr1]
  have d1: "isl (fst (executeSwap_place demo_trader demo_relayer demo_HashLock Map.empty
      demo_request demo_world))"
    and d2: "order_calls (snd (executeSwap_place demo_trader demo_relayer demo_HashLock Map.empty
         demo_request demo_world)) = []"
    using g1 by (simp_all add: w0)

  note big = order_submitted_with_hashes_of_secrets [where T = demo_trader and R = demo_relayer
      and H = demo_HashLock and penv = demo_script_env and params = demo_request
      and w = demo_world and quote = 5000000000]
  have nr2: "\<not> (\<exists>c receiver order. EvmToSol_order_ready demo_trader demo_HashLock demo_script_env
      5000000000 (rng demo_world) c receiver order)"
    by (simp add: EvmToSol_order_ready_def tr)
  have nr3: "\<not> (\<exists>c receiver order. SolToEvm_order_ready demo_trader demo_HashLock demo_script_env
      5000000000 (rng demo_world) c receiver order)"
    by (simp add: SolToEvm_order_ready_def tr)
  note g2 = big [THEN conjunct2, THEN conjunct2, THEN conjunct2, THEN conjunct1, THEN mp, OF nr2]
  note g3 = big [THEN conjunct2, THEN conjunct2, THEN conjunct2, THEN conjunct2, THEN conjunct2,
      THEN mp, OF nr3]
  have e1: "isl (fst (EvmToSol_createAndSubmitOrder demo_trader demo_relayer demo_HashLock
         demo_script_env 5000000000 demo_world))"
    and e2: "order_calls (snd (EvmToSol_createAndSubmitOrder demo_trader demo_relayer
         demo_HashLock demo_script_env 5000000000 demo_world)) = []"
    using g2 by (simp_all add: w0)
  have e3: "isl (fst (SolToEvm_createAndSubmitOrder demo_trader demo_relayer demo_HashLock
         demo_script_env 5000000000 demo_world))"
    and e4: "order_calls (snd (SolToEvm_createAndSubmitOrder demo_trader demo_relayer
         demo_HashLock demo_script_env 5000000000 demo_world)) = []"
    using g3 by (simp_all add: w0)
  show ?thesis
    by (intro conjI rdy1 w0(1) a1 a2 rdy2 b1 b2 rdy3 c1 c2 d1 d2 e1 e2 e3 e4)
qed

section \<open>Properties of executeSwap\<close>

lemma executeSwap_failure:
  assumes "fst (executeSwap_place T R H penv params w) = Inl t"
  shows "fst (executeSwap T R H penv params w) = failure_response t"
    and "snd (executeSwap T R H penv params w) = snd (executeSwap_place T R H penv params w)"
  using assms
  by (cases "executeSwap_place T R H penv params w"; simp add: executeSwap_def failure_response_def)+

lemma executeSwap_success:
  assumes "fst (executeSwap_place T R H penv params w) = Inr p"
  shows "fst (executeSwap T R H penv params w)
     = \<lparr> res_success = True,
         res_orderHash = Some (pl_orderHash p),
         res_quote = Some (case quote_dstTokenAmount T (pl_quote p) of
                             None \<Rightarrow> ''0''
                           | Some s \<Rightarrow> if s = [] then ''0'' else s,
                           pl_preset p, pl_secretsCount p),
         res_finalStatus = Some (fst (monitorAndCompleteSwap R penv (pl_orderHash p) (pl_secrets p)
            (qr_srcChainId params) (snd (executeSwap_place T R H penv params w)))),
         res_error = None,
         res_message = ''Cross-chain swap executed successfully'' \<rparr>"
  using assms
  by (cases "executeSwap_place T R H penv params w")
     (simp add: executeSwap_def split_beta)

lemma run_result: "\<exists>a b. f = (a, b) \<and> P a b \<Longrightarrow> P (fst f) (snd f)"
  by auto

text \<open>
  C6. \<^verbatim>\<open>FusionService.executeSwap\<close> answers every call with an object, whatever the SDK
  does. Each way in which the steps up to and including \<^verbatim>\<open>submitOrder\<close> can fail ends in
  the object of the outer \<^verbatim>\<open>catch\<close>, with \<^verbatim>\<open>success: false\<close>, the message of the value
  thrown (or \<^verbatim>\<open>Unknown error\<close>) and no \<^verbatim>\<open>finalStatus\<close>: \<^verbatim>\<open>getQuote\<close> rejects; the signer
  cannot be built; \<^verbatim>\<open>getPreset\<close> throws; \<^verbatim>\<open>secretsCount\<close> is beyond the array bound; the
  \<^verbatim>\<open>HashLock\<close> calls throw; the receiver address does not parse; \<^verbatim>\<open>createEvmOrder\<close>
  throws; \<^verbatim>\<open>submitOrder\<close> rejects, where the value caught outside is the one the inner
  \<^verbatim>\<open>catch\<close> throws again. When \<^verbatim>\<open>submitOrder\<close> resolves, the object has \<^verbatim>\<open>success: true\<close>,
  the order hash, no \<^verbatim>\<open>error\<close> field, and \<^verbatim>\<open>finalStatus\<close> is whatever
  \<^verbatim>\<open>monitorAndCompleteSwap\<close> returned, also when that is the \<^verbatim>\<open>failed\<close> status of a
  timeout.
\<close>

theorem executeSwap_always_returns_object:
  fixes T :: "('e, 'q, 'o, 'hl) trader" and w :: "('e, 'o) world"
  shows "\<exists>resp w'. executeSwap T R H penv params w = (resp, w')
    \<and> (res_success resp \<longleftrightarrow> \<not> isl (fst (executeSwap_place T R H penv params w)))
    \<and> (res_success resp \<longleftrightarrow> res_error resp = None)
    \<and> (\<forall>t w1. executeSwap_place T R H penv params w = (Inl t, w1) \<longrightarrow>
          \<not> res_success resp
        \<and> res_error resp = Some (case t of Error_obj msg d \<Rightarrow> msg | _ \<Rightarrow> ''Unknown error'')
        \<and> res_finalStatus resp = None \<and> res_orderHash resp = None \<and> w' = w1)
    \<and> (\<forall>p w1. executeSwap_place T R H penv params w = (Inr p, w1) \<longrightarrow>
          res_success resp \<and> res_error resp = None
        \<and> res_orderHash resp = Some (pl_orderHash p)
        \<and> res_finalStatus resp = Some (fst (monitorAndCompleteSwap R penv (pl_orderHash p)
               (pl_secrets p) (qr_srcChainId params) w1))
        \<and> w' = snd (monitorAndCompleteSwap R penv (pl_orderHash p)
               (pl_secrets p) (qr_srcChainId params) w1))
    \<and> (\<forall>msg. res_finalStatus resp = Some (Failed msg) \<longrightarrow> res_success resp \<and> res_error resp = None)
    \<and> (\<forall>t. fst (sdk_getQuote T (quote_of params) (sdk w)) = Inl t \<longrightarrow>
          resp = failure_response t)
    \<and> (\<forall>q t. fst (sdk_getQuote T (quote_of params) (sdk w)) = Inr q
          \<and> getSDKWithSigner R penv (qr_srcChainId params) = Inl t \<longrightarrow>
          resp = failure_response t)
    \<and> (\<forall>q t. fst (sdk_getQuote T (quote_of params) (sdk w)) = Inr q
          \<and> getSDKWithSigner R penv (qr_srcChainId params) = Inr ()
          \<and> quote_getPreset T q (quote_recommendedPreset T q) = Inl t \<longrightarrow>
          resp = failure_response t)
    \<and> (\<forall>q c. fst (sdk_getQuote T (quote_of params) (sdk w)) = Inr q
          \<and> getSDKWithSigner R penv (qr_srcChainId params) = Inr ()
          \<and> quote_getPreset T q (quote_recommendedPreset T q) = Inr c
          \<and> 4294967295 < c \<longrightarrow>
          resp = failure_response (Error_obj ''Invalid array length'' None))
    \<and> (\<forall>q c t. fst (sdk_getQuote T (quote_of params) (sdk w)) = Inr q
          \<and> getSDKWithSigner R penv (qr_srcChainId params) = Inr ()
          \<and> quote_getPreset T q (quote_recommendedPreset T q) = Inr c
          \<and> c \<le> 4294967295
          \<and> hashLock_throws T (executeSwap_secrets c (rng w)) = Some t \<longrightarrow>
          resp = failure_response t)
    \<and> (\<forall>q c t. fst (sdk_getQuote T (quote_of params) (sdk w)) = Inr q
          \<and> getSDKWithSigner R penv (qr_srcChainId params) = Inr ()
          \<and> quote_getPreset T q (quote_recommendedPreset T q) = Inr c
          \<and> c \<le> 4294967295
          \<and> hashLock_throws T (executeSwap_secrets c (rng w)) = None
          \<and> (if qr_dstChainId params = Some (JNum 900)
              then SolanaAddress_fromString T (sr_receiverAddress params)
              else EvmAddress_fromString T (sr_receiverAddress params)) = Inl t \<longrightarrow>
          resp = failure_response t)
    \<and> (\<forall>q c receiver t. fst (sdk_getQuote T (quote_of params) (sdk w)) = Inr q
          \<and> getSDKWithSigner R penv (qr_srcChainId params) = Inr ()
          \<and> quote_getPreset T q (quote_recommendedPreset T q) = Inr c
          \<and> c \<le> 4294967295
          \<and> hashLock_throws T (executeSwap_secrets c (rng w)) = None
          \<and> (if qr_dstChainId params = Some (JNum 900)
              then SolanaAddress_fromString T (sr_receiverAddress params)
              else EvmAddress_fromString T (sr_receiverAddress params)) = Inr receiver
          \<and> quote_createEvmOrder T q (executeSwap_hashLock H (executeSwap_secrets c (rng w)))
                receiver (quote_recommendedPreset T q) = Inl t \<longrightarrow>
          resp = failure_response t)
    \<and> (\<forall>q c receiver order t.
          executeSwap_order_ready T R H penv params w q c receiver order
          \<and> fst (sdk_submitOrder T (qr_srcChainId params) order (quote_quoteId T q)
                 (map (hashSecret H) (executeSwap_secrets c (rng w)))
                 (snd (sdk_getQuote T (quote_of params) (sdk w)))) = Inl t \<longrightarrow>
          resp = failure_response (rethrow_submitError t))
    \<and> (\<forall>q c receiver order orderHash.
          executeSwap_order_ready T R H penv params w q c receiver order
          \<and> fst (sdk_submitOrder T (qr_srcChainId params) order (quote_quoteId T q)
                 (map (hashSecret H) (executeSwap_secrets c (rng w)))
                 (snd (sdk_getQuote T (quote_of params) (sdk w)))) = Inr orderHash \<longrightarrow>
          res_success resp \<and> res_error resp = None
        \<and> res_orderHash resp = Some orderHash
        \<and> res_quote resp = Some (case quote_dstTokenAmount T q of
                                    None \<Rightarrow> ''0''
                                  | Some s \<Rightarrow> if s = [] then ''0'' else s,
                                  quote_recommendedPreset T q, c)
        \<and> res_finalStatus resp = Some (fst (monitorAndCompleteSwap R penv orderHash
               (executeSwap_secrets c (rng w)) (qr_srcChainId params)
               (snd (executeSwap_place T R H penv params w)))))"
proof -
  let ?place = "executeSwap_place T R H penv params w"
  let ?run = "executeSwap T R H penv params w"
  obtain resp w' where run: "?run = (resp, w')" by fastforce
  then have resp: "resp = fst ?run" and w': "w' = snd ?run" by simp_all
  obtain r w1 where p: "?place = (r, w1)" by fastforce
  have o1: "res_success resp \<longleftrightarrow> \<not> isl (fst ?place)"
    and o2: "res_success resp \<longleftrightarrow> res_error resp = None"
    and o3: "\<forall>t w1. ?place = (Inl t, w1) \<longrightarrow>
          \<not> res_success resp
        \<and> res_error resp = Some (case t of Error_obj msg d \<Rightarrow> msg | _ \<Rightarrow> ''Unknown error'')
        \<and> res_finalStatus resp = None \<and> res_orderHash resp = None \<and> w' = w1"
    and o4: "\<forall>p w1. ?place = (Inr p, w1) \<longrightarrow>
          res_success resp \<and> res_error resp = None
        \<and> res_orderHash resp = Some (pl_orderHash p)
        \<and> res_finalStatus resp = Some (fst (monitorAndCompleteSwap R penv (pl_orderHash p)
               (pl_secrets p) (qr_srcChainId params) w1))
        \<and> w' = snd (monitorAndCompleteSwap R penv (pl_orderHash p)
               (pl_secrets p) (qr_srcChainId params) w1)"
    and o5: "\<forall>msg. res_finalStatus resp = Some (Failed msg) \<longrightarrow> res_success resp \<and> res_error resp = None"
    unfolding resp w' using p
    by (cases r; simp add: executeSwap_def split_beta)+
  have fail: "resp = failure_response t" if "fst ?place = Inl t" for t
    unfolding resp using that by (rule executeSwap_failure(1))
  have n1: "\<forall>t. fst (sdk_getQuote T (quote_of params) (sdk w)) = Inl t \<longrightarrow>
          resp = failure_response t"
    by (intro allI impI fail place_getQuote_rejects(1))
  have n2: "\<forall>q t. fst (sdk_getQuote T (quote_of params) (sdk w)) = Inr q
          \<and> getSDKWithSigner R penv (qr_srcChainId params) = Inl t \<longrightarrow>
          resp = failure_response t"
    by (intro allI impI fail, elim conjE, rule place_signer_throws(1))
  have n3: "\<forall>q t. fst (sdk_getQuote T (quote_of params) (sdk w)) = Inr q
          \<and> getSDKWithSigner R penv (qr_srcChainId params) = Inr ()
          \<and> quote_getPreset T q (quote_recommendedPreset T q) = Inl t \<longrightarrow>
          resp = failure_response t"
    by (intro allI impI fail, elim conjE, rule place_getPreset_throws(1))
  have n4: "\<forall>q c. fst (sdk_getQuote T (quote_of params) (sdk w)) = Inr q
          \<and> getSDKWithSigner R penv (qr_srcChainId params) = Inr ()
          \<and> quote_getPreset T q (quote_recommendedPreset T q) = Inr c
          \<and> 4294967295 < c \<longrightarrow>
          resp = failure_response (Error_obj ''Invalid array length'' None)"
    by (intro allI impI fail, elim conjE, rule place_too_many_secrets(1))
  have n5: "\<forall>q c t. fst (sdk_getQuote T (quote_of params) (sdk w)) = Inr q
          \<and> getSDKWithSigner R penv (qr_srcChainId params) = Inr ()
          \<and> quote_getPreset T q (quote_recommendedPreset T q) = Inr c
          \<and> c \<le> 4294967295
          \<and> hashLock_throws T (executeSwap_secrets c (rng w)) = Some t \<longrightarrow>
          resp = failure_response t"
    by (intro allI impI fail, elim conjE, rule place_hashLock_throws(1))
  have n6: "\<forall>q c t. fst (sdk_getQuote T (quote_of params) (sdk w)) = Inr q
          \<and> getSDKWithSigner R penv (qr_srcChainId params) = Inr ()
          \<and> quote_getPreset T q (quote_recommendedPreset T q) = Inr c
          \<and> c \<le> 4294967295
          \<and> hashLock_throws T (executeSwap_secrets c (rng w)) = None
          \<and> (if qr_dstChainId params = Some (JNum 900)
              then SolanaAddress_fromString T (sr_receiverAddress params)
              else EvmAddress_fromString T (sr_receiverAddress params)) = Inl t \<longrightarrow>
          resp = failure_response t"
    by (intro allI impI fail, elim conjE, rule place_address_throws(1))
  have n7: "\<forall>q c receiver t. fst (sdk_getQuote T (quote_of params) (sdk w)) = Inr q
          \<and> getSDKWithSigner R penv (qr_srcChainId params) = Inr ()
          \<and> quote_getPreset T q (quote_recommendedPreset T q) = Inr c
          \<and> c \<le> 4294967295
          \<and> hashLock_throws T (executeSwap_secrets c (rng w)) = None
          \<and> (if qr_dstChainId params = Some (JNum 900)
              then SolanaAddress_fromString T (sr_receiverAddress params)
              else EvmAddress_fromString T (sr_receiverAddress params)) = Inr receiver
          \<and> quote_createEvmOrder T q (executeSwap_hashLock H (executeSwap_secrets c (rng w)))
                receiver (quote_recommendedPreset T q) = Inl t \<longrightarrow>
          resp = failure_response t"
    by (intro allI impI fail, elim conjE, rule place_createEvmOrder_throws(1))
  have n8: "\<forall>q c receiver order t.
          executeSwap_order_ready T R H penv params w q c receiver order
          \<and> fst (sdk_submitOrder T (qr_srcChainId params) order (quote_quoteId T q)
                 (map (hashSecret H) (executeSwap_secrets c (rng w)))
                 (snd (sdk_getQuote T (quote_of params) (sdk w)))) = Inl t \<longrightarrow>
          resp = failure_response (rethrow_submitError t)"
  proof (intro allI impI fail, elim conjE)
    fix q c receiver order t
    assume rdy: "executeSwap_order_ready T R H penv params w q c receiver order"
      and rej: "fst (sdk_submitOrder T (qr_srcChainId params) order (quote_quoteId T q)
                 (map (hashSecret H) (executeSwap_secrets c (rng w)))
                 (snd (sdk_getQuote T (quote_of params) (sdk w)))) = Inl t"
    show "fst ?place = Inl (rethrow_submitError t)"
      by (simp add: place_ready(1) [OF rdy] rej)
  qed
  have n9: "\<forall>q c receiver order orderHash.
          executeSwap_order_ready T R H penv params w q c receiver order
          \<and> fst (sdk_submitOrder T (qr_srcChainId params) order (quote_quoteId T q)
                 (map (hashSecret H) (executeSwap_secrets c (rng w)))
                 (snd (sdk_getQuote T (quote_of params) (sdk w)))) = Inr orderHash \<longrightarrow>
          res_success resp \<and> res_error resp = None
        \<and> res_orderHash resp = Some orderHash
        \<and> res_quote resp = Some (case quote_dstTokenAmount T q of
                                    None \<Rightarrow> ''0''
                                  | Some s \<Rightarrow> if s = [] then ''0'' else s,
                                  quote_recommendedPreset T q, c)
        \<and> res_finalStatus resp = Some (fst (monitorAndCompleteSwap R penv orderHash
               (executeSwap_secrets c (rng w)) (qr_srcChainId params) (snd ?place)))"
  proof (intro allI impI, elim conjE)
    fix q c receiver order orderHash
    assume rdy: "executeSwap_order_ready T R H penv params w q c receiver order"
      and acc: "fst (sdk_submitOrder T (qr_srcChainId params) order (quote_quoteId T q)
                 (map (hashSecret H) (executeSwap_secrets c (rng w)))
                 (snd (sdk_getQuote T (quote_of params) (sdk w)))) = Inr orderHash"
    have pl: "fst ?place = Inr \<lparr> pl_orderHash = orderHash,
        pl_secrets = executeSwap_secrets c (rng w), pl_quote = q,
        pl_preset = quote_recommendedPreset T q, pl_secretsCount = c \<rparr>"
      by (simp add: place_ready(1) [OF rdy] acc)
    show "res_success resp \<and> res_error resp = None
        \<and> res_orderHash resp = Some orderHash
        \<and> res_quote resp = Some (case quote_dstTokenAmount T q of
                                    None \<Rightarrow> ''0''
                                  | Some s \<Rightarrow> if s = [] then ''0'' else s,
                                  quote_recommendedPreset T q, c)
        \<and> res_finalStatus resp = Some (fst (monitorAndCompleteSwap R penv orderHash
               (executeSwap_secrets c (rng w)) (qr_srcChainId params) (snd ?place)))"
      unfolding resp executeSwap_success [OF pl] by simp
  qed
  show ?thesis
    apply (rule exI [of _ resp], rule exI [of _ w'])
    apply (intro conjI run o1 o2 o3 o4 o5 n1 n2 n3 n4 n5 n6 n7 n8 n9)
    done
qed

theorem executeSwap_always_returns_object_witness:
  "res_success (fst (executeSwap demo_trader (stalled_relayer ''pending'') demo_HashLock
       demo_process_env demo_request stalled_world))
   \<and> res_orderHash (fst (executeSwap demo_trader (stalled_relayer ''pending'') demo_HashLock
       demo_process_env demo_request stalled_world)) = Some ''0xorder''
   \<and> res_finalStatus (fst (executeSwap demo_trader (stalled_relayer ''pending'') demo_HashLock
       demo_process_env demo_request stalled_world))
       = Some (Failed ''Monitoring timed out after 10 minutes'')
   \<and> res_error (fst (executeSwap demo_trader (stalled_relayer ''pending'') demo_HashLock
       demo_process_env demo_request stalled_world)) = None
   \<and> res_success (fst (executeSwap demo_trader (stalled_relayer ''pending'') demo_HashLock
       Map.empty demo_request stalled_world)) = False
   \<and> res_error (fst (executeSwap demo_trader (stalled_relayer ''pending'') demo_HashLock
       Map.empty demo_request stalled_world))
       = Some ''TEST_PRIVATE_KEY and INCH_API_KEY required for order submission''
   \<and> res_success (fst (executeSwap rejecting_trader (stalled_relayer ''pending'') demo_HashLock
       demo_process_env demo_request stalled_world)) = False
   \<and> res_error (fst (executeSwap rejecting_trader (stalled_relayer ''pending'') demo_HashLock
       demo_process_env demo_request stalled_world))
       = Some ''API Error: {description: insufficient balance}''
   \<and> res_finalStatus (fst (executeSwap rejecting_trader (stalled_relayer ''pending'') demo_HashLock
       demo_process_env demo_request stalled_world)) = None
   \<and> res_success (fst (executeSwap quoteless_trader (stalled_relayer ''pending'') demo_HashLock
       demo_process_env demo_request stalled_world)) = False
   \<and> res_error (fst (executeSwap quoteless_trader (stalled_relayer ''pending'') demo_HashLock
       demo_process_env demo_request stalled_world)) = Some ''Unknown error''"
proof -
  let ?R = "stalled_relayer ''pending''"
  let ?T = "demo_trader :: (unit, int, string, string) trader"
  let ?T3 = "rejecting_trader :: (unit, int, string, string) trader"
  let ?T4 = "quoteless_trader :: (unit, int, string, string) trader"
  let ?order = "''evm-order:'' @ executeSwap_hashLock demo_HashLock (executeSwap_secrets 2 demo_entropy)"
  let ?receiver = "EvmAddress ''0x0b07ab58f72d13150Fcd119700aae76d9D161138''"
  let ?resp = "fst (executeSwap ?T ?R demo_HashLock demo_process_env demo_request stalled_world)"
  let ?resp2 = "fst (executeSwap ?T ?R demo_HashLock Map.empty demo_request stalled_world)"
  let ?resp3 = "fst (executeSwap ?T3 ?R demo_HashLock demo_process_env demo_request
      stalled_world)"
  let ?resp4 = "fst (executeSwap ?T4 ?R demo_HashLock demo_process_env demo_request
      stalled_world)"
  have w0: "rng stalled_world = demo_entropy" "sdk stalled_world = ()"
    by (simp_all add: stalled_world_def)
  have signer: "getSDKWithSigner ?R demo_process_env chain = Inr ()" for chain
    by (simp add: getSDKWithSigner_def env_missing_def demo_process_env_def stalled_relayer_def)
  have mon: "fst (monitorAndCompleteSwap ?R demo_process_env h secrets chain w)
      = Failed ''Monitoring timed out after 10 minutes''" for h secrets chain and w :: "(unit, string) world"
  proof -
    have "fst (monitorAndCompleteSwap_loop ?R h secrets (clock w) {} w)
       = Inl (Error_obj ''Monitoring timed out after 10 minutes'' None)"
      by (rule service_stalled_loop [OF refl]) simp
    with signer [of chain] show ?thesis
      by (cases "monitorAndCompleteSwap_loop ?R h secrets (clock w) {} w")
         (simp add: monitorAndCompleteSwap_def)
  qed

  have rdy1: "executeSwap_order_ready ?T ?R demo_HashLock demo_process_env demo_request
      stalled_world 2 2 ?receiver ?order"
    by (simp add: executeSwap_order_ready_def signer w0 demo_trader_def demo_request_def)
  have acc: "fst (sdk_submitOrder ?T (qr_srcChainId demo_request) ?order
      (quote_quoteId ?T 2)
      (map (hashSecret demo_HashLock) (executeSwap_secrets 2 (rng stalled_world)))
      (snd (sdk_getQuote ?T (quote_of demo_request) (sdk stalled_world)))) = Inr ''0xorder''"
    by (simp add: demo_trader_def)
  from run_result [OF executeSwap_always_returns_object [of ?T ?R demo_HashLock demo_process_env
      demo_request stalled_world]]
  have ok: "\<forall>q c receiver order orderHash.
          executeSwap_order_ready ?T ?R demo_HashLock demo_process_env demo_request
            stalled_world q c receiver order
          \<and> fst (sdk_submitOrder ?T (qr_srcChainId demo_request) order (quote_quoteId ?T q)
                 (map (hashSecret demo_HashLock) (executeSwap_secrets c (rng stalled_world)))
                 (snd (sdk_getQuote ?T (quote_of demo_request) (sdk stalled_world)))) = Inr orderHash \<longrightarrow>
          res_success ?resp \<and> res_error ?resp = None
        \<and> res_orderHash ?resp = Some orderHash
        \<and> res_quote ?resp = Some (case quote_dstTokenAmount ?T q of
                                    None \<Rightarrow> ''0''
                                  | Some s \<Rightarrow> if s = [] then ''0'' else s,
                                  quote_recommendedPreset ?T q, c)
        \<and> res_finalStatus ?resp = Some (fst (monitorAndCompleteSwap ?R demo_process_env orderHash
               (executeSwap_secrets c (rng stalled_world)) (qr_srcChainId demo_request)
               (snd (executeSwap_place ?T ?R demo_HashLock demo_process_env demo_request
                  stalled_world))))"
    by (elim conjE)
  from ok [rule_format, OF conjI [OF rdy1 acc]]
  have a: "res_success ?resp" "res_orderHash ?resp = Some ''0xorder''"
    "res_finalStatus ?resp = Some (Failed ''Monitoring timed out after 10 minutes'')"
    "res_error ?resp = None"
    by (simp_all add: mon)

  from run_result [OF executeSwap_always_returns_object [of ?T ?R demo_HashLock Map.empty
      demo_request stalled_world]]
  have bad: "\<forall>q t. fst (sdk_getQuote ?T (quote_of demo_request) (sdk stalled_world)) = Inr q
          \<and> getSDKWithSigner ?R Map.empty (qr_srcChainId demo_request) = Inl t \<longrightarrow>
          ?resp2 = failure_response t"
    by (elim conjE)
  have "fst (sdk_getQuote ?T (quote_of demo_request) (sdk stalled_world)) = Inr 2
      \<and> getSDKWithSigner ?R Map.empty (qr_srcChainId demo_request)
         = Inl (Error_obj ''TEST_PRIVATE_KEY and INCH_API_KEY required for order submission'' None)"
    by (simp add: demo_trader_def getSDKWithSigner_def env_missing_def)
  from bad [rule_format, OF this]
  have b: "res_success ?resp2 = False"
    "res_error ?resp2 = Some ''TEST_PRIVATE_KEY and INCH_API_KEY required for order submission''"
    by (simp_all add: failure_response_def)

  have rdy3: "executeSwap_order_ready ?T3 ?R demo_HashLock demo_process_env demo_request
      stalled_world 2 2 ?receiver ?order"
    by (simp add: executeSwap_order_ready_def signer w0 rejecting_trader_def demo_trader_def
        demo_request_def)
  have rej: "fst (sdk_submitOrder ?T3 (qr_srcChainId demo_request) ?order
      (quote_quoteId ?T3 2)
      (map (hashSecret demo_HashLock) (executeSwap_secrets 2 (rng stalled_world)))
      (snd (sdk_getQuote ?T3 (quote_of demo_request) (sdk stalled_world))))
      = Inl (Error_obj ''Request failed with status code 400''
                (Some (Json ''{description: insufficient balance}'')))"
    by (simp add: rejecting_trader_def)
  from run_result [OF executeSwap_always_returns_object [of ?T3 ?R demo_HashLock demo_process_env
      demo_request stalled_world]]
  have sub: "\<forall>q c receiver order t.
          executeSwap_order_ready ?T3 ?R demo_HashLock demo_process_env demo_request
            stalled_world q c receiver order
          \<and> fst (sdk_submitOrder ?T3 (qr_srcChainId demo_request) order
                 (quote_quoteId ?T3 q)
                 (map (hashSecret demo_HashLock) (executeSwap_secrets c (rng stalled_world)))
                 (snd (sdk_getQuote ?T3 (quote_of demo_request) (sdk stalled_world)))) = Inl t \<longrightarrow>
          ?resp3 = failure_response (rethrow_submitError t)"
    by (elim conjE)
  from sub [rule_format, OF conjI [OF rdy3 rej]]
  have c: "res_success ?resp3 = False"
    "res_error ?resp3 = Some ''API Error: {description: insufficient balance}''"
    "res_finalStatus ?resp3 = None"
    by (simp_all add: failure_response_def rethrow_submitError_def)

  from run_result [OF executeSwap_always_returns_object [of ?T4 ?R demo_HashLock demo_process_env
      demo_request stalled_world]]
  have noq: "\<forall>t. fst (sdk_getQuote ?T4 (quote_of demo_request) (sdk stalled_world)) = Inl t \<longrightarrow>
          ?resp4 = failure_response t"
    by (elim conjE)
  have "fst (sdk_getQuote ?T4 (quote_of demo_request) (sdk stalled_world))
      = Inl (Non_error None)"
    by (simp add: quoteless_trader_def)
  from noq [rule_format, OF this]
  have d: "res_success ?resp4 = False" "res_error ?resp4 = Some ''Unknown error''"
    by (simp_all add: failure_response_def)
  show ?thesis by (intro conjI a b c d)
qed

section \<open>Properties of the request and environment checks\<close>

text \<open>
  C7. A POST to the quote endpoint that carries no parsed body (\<^verbatim>\<open>req.body\<close> is
  \<^verbatim>\<open>undefined\<close>) lacks all six fields. The handler does not reach its check of the
  fields: destructuring \<^verbatim>\<open>req.body\<close> throws a \<^verbatim>\<open>TypeError\<close> inside the \<^verbatim>\<open>try\<close>, and the
  \<^verbatim>\<open>catch\<close> answers with status 500 and the message of that error, not with status 400.
  The body has \<^verbatim>\<open>success: false\<close>, and \<^verbatim>\<open>getQuote\<close> of the SDK is not called: the world is
  as it was.
\<close>

theorem post_quote_without_body_is_500:
  fixes T :: "('e, 'q, 'o, 'hl) trader" and w :: "('e, 'o) world"
  shows "http_status (fst (post_quote T R None w)) = 500
       \<and> http_status (fst (post_quote T R None w)) \<noteq> 400
       \<and> \<not> body_success (fst (post_quote T R None w))
       \<and> body_error (fst (post_quote T R None w))
           = Some ''Cannot destructure property 'srcChainId' of 'req.body' as it is undefined.''
       \<and> snd (post_quote T R None w) = w
       \<and> quote_calls (snd (post_quote T R None w)) = quote_calls w"
  by (simp add: post_quote_def)

text \<open>
  When the body was parsed to an object that lacks one of the six fields, the check of the
  handler answers with status 400 and \<^verbatim>\<open>success: false\<close>, and the world is as it was:
  \<^verbatim>\<open>getQuote\<close> of the SDK was not called.
\<close>

theorem post_quote_missing_field_is_400:
  fixes T :: "('e, 'q, 'o, 'hl) trader" and w :: "('e, 'o) world"
  assumes "key \<in> {''srcChainId'', ''dstChainId'', ''srcTokenAddress'', ''dstTokenAddress'',
                   ''amount'', ''walletAddress''}"
    and "body key = None"
  shows "http_status (fst (post_quote T R (Some body) w)) = 400
       \<and> \<not> body_success (fst (post_quote T R (Some body) w))
       \<and> snd (post_quote T R (Some body) w) = w
       \<and> quote_calls (snd (post_quote T R (Some body) w)) = quote_calls w"
proof -
  from assms have "falsy (body ''srcChainId'') \<or> falsy (body ''dstChainId'')
         \<or> falsy (body ''srcTokenAddress'') \<or> falsy (body ''dstTokenAddress'')
         \<or> falsy (body ''amount'') \<or> falsy (body ''walletAddress'')"
    by auto
  then show ?thesis by (simp add: post_quote_def)
qed

theorem post_quote_missing_field_is_400_witness:
  "demo_body ''dstTokenAddress'' = None
   \<and> http_status (fst (post_quote demo_trader demo_relayer (Some demo_body) demo_world)) = 400
   \<and> body_success (fst (post_quote demo_trader demo_relayer (Some demo_body) demo_world)) = False
   \<and> snd (post_quote demo_trader demo_relayer (Some demo_body) demo_world) = demo_world"
proof -
  have a: "''dstTokenAddress'' \<in> {''srcChainId'', ''dstChainId'', ''srcTokenAddress'',
      ''dstTokenAddress'', ''amount'', ''walletAddress''}" by simp
  have b: "demo_body ''dstTokenAddress'' = None" by (simp add: demo_body_def)
  from post_quote_missing_field_is_400 [where key = "''dstTokenAddress''" and body = demo_body
      and T = demo_trader and R = demo_relayer and w = demo_world, OF a b] b
  show ?thesis by simp
qed

lemma first_missing_found:
  "key \<in> set keys \<Longrightarrow> env_missing penv key \<Longrightarrow> first_missing penv keys \<noteq> None"
  by (induction keys) auto

text \<open>
  C8. When one of the four variables a script requires is unset, the script ends with
  \<^verbatim>\<open>process.exit(1)\<close> and the world is as it was: no quote was asked for, no order
  submitted, no secret generated (the entropy source is untouched) and no other call made.
\<close>

theorem script_exits_on_missing_env:
  fixes T :: "('e, 'q, 'o, 'hl) trader" and w :: "('e, 'o) world"
  shows "(key \<in> {''PRIVATE_KEY'', ''MAKER_ADDRESS'', ''RECEIVER_ADDRESS'', ''DEV_PORTAL_API_KEY''}
            \<and> penv key = None
          \<longrightarrow> EvmToSol_script fuel T R H penv w = (Exit 1, w))
       \<and> (key \<in> {''SOLANA_PRIVATE_KEY'', ''SOLANA_MAKER_ADDRESS'', ''ETH_RECEIVER_ADDRESS'',
                   ''DEV_PORTAL_API_KEY''}
            \<and> penv key = None
          \<longrightarrow> SolToEvm_script T R H penv w = (Exit 1, w))"
proof (intro conjI impI)
  assume a: "key \<in> {''PRIVATE_KEY'', ''MAKER_ADDRESS'', ''RECEIVER_ADDRESS'', ''DEV_PORTAL_API_KEY''}
      \<and> penv key = None"
  then have "key \<in> set EvmToSol_requiredEnvVars" "env_missing penv key"
    by (simp_all add: EvmToSol_requiredEnvVars_def env_missing_def)
  then have "first_missing penv EvmToSol_requiredEnvVars \<noteq> None" by (rule first_missing_found)
  then show "EvmToSol_script fuel T R H penv w = (Exit 1, w)"
    by (auto simp: EvmToSol_script_def)
next
  assume a: "key \<in> {''SOLANA_PRIVATE_KEY'', ''SOLANA_MAKER_ADDRESS'', ''ETH_RECEIVER_ADDRESS'',
      ''DEV_PORTAL_API_KEY''} \<and> penv key = None"
  then have "key \<in> set SolToEvm_requiredEnvVars" "env_missing penv key"
    by (simp_all add: SolToEvm_requiredEnvVars_def env_missing_def)
  then have "first_missing penv SolToEvm_requiredEnvVars \<noteq> None" by (rule first_missing_found)
  then show "SolToEvm_script T R H penv w = (Exit 1, w)"
    by (auto simp: SolToEvm_script_def)
qed

theorem script_exits_on_missing_env_witness:
  "demo_script_env ''RECEIVER_ADDRESS'' = None
   \<and> EvmToSol_script 3 demo_trader demo_relayer demo_HashLock demo_script_env demo_world
       = (Exit 1, demo_world)
   \<and> SolToEvm_script demo_trader demo_relayer demo_HashLock
        (demo_script_env(''DEV_PORTAL_API_KEY'' := None)) demo_world
       = (Exit 1, demo_world)"
proof -
  have a: "''RECEIVER_ADDRESS'' \<in> {''PRIVATE_KEY'', ''MAKER_ADDRESS'', ''RECEIVER_ADDRESS'', ''DEV_PORTAL_API_KEY''}
      \<and> demo_script_env ''RECEIVER_ADDRESS'' = None"
    by (simp add: demo_script_env_def)
  have b: "''DEV_PORTAL_API_KEY'' \<in> {''SOLANA_PRIVATE_KEY'', ''SOLANA_MAKER_ADDRESS'',
      ''ETH_RECEIVER_ADDRESS'', ''DEV_PORTAL_API_KEY''}
      \<and> (demo_script_env(''DEV_PORTAL_API_KEY'' := None)) ''DEV_PORTAL_API_KEY'' = None"
    by simp
  have c: "EvmToSol_script 3 demo_trader demo_relayer demo_HashLock demo_script_env demo_world
       = (Exit 1, demo_world)"
    by (rule script_exits_on_missing_env [THEN conjunct1, THEN mp]) (rule a)
  have d: "SolToEvm_script demo_trader demo_relayer demo_HashLock
        (demo_script_env(''DEV_PORTAL_API_KEY'' := None)) demo_world = (Exit 1, demo_world)"
    by (rule script_exits_on_missing_env [THEN conjunct2, THEN mp]) (rule b)
  from a have a': "demo_script_env ''RECEIVER_ADDRESS'' = None" by (rule conjunct2)
  show ?thesis by (intro conjI a' c d)
qed

end
